(* ===== verification/EE_Prelude.thy ===== *)
theory EE_Prelude
  imports Complex_Main "HOL-Library.Sublist" "HOL-Library.Char_ord" "HOL-Library.Word"
begin

text \<open>
  Shared vocabulary of the development: results with an error side, UTF-8 byte strings with the
  standard-library operations the three languages share on them, and the generic list and map
  lemmas that the component theories use.  A \<^typ>\<open>string\<close> is the byte sequence a Rust
  \<^verbatim>\<open>String\<close>, a Go \<^verbatim>\<open>string\<close> or a C string holds, so \<^verbatim>\<open>len\<close> is
  \<^const>\<open>length\<close> and counting characters counts the bytes that are not continuation bytes.
\<close>

named_theorems frame_simps \<open>which fields an operation leaves alone\<close>
named_theorems inv_intros \<open>an operation keeps the invariant of its component\<close>
named_theorems table_simps \<open>evaluated lookups in the program's constant tables\<close>

section \<open>Results\<close>

type_synonym ('e, 'a) result = "'e + 'a"

fun and_then :: "('e, 'a) result \<Rightarrow> ('a \<Rightarrow> ('e, 'b) result) \<Rightarrow> ('e, 'b) result" where
  "and_then (Inl e) f = Inl e"
| "and_then (Inr x) f = f x"

fun is_ok :: "('e, 'a) result \<Rightarrow> bool" where
  "is_ok (Inl e) = False"
| "is_ok (Inr x) = True"

definition ensure :: "bool \<Rightarrow> 'e \<Rightarrow> ('e, unit) result" where
  "ensure b e = (if b then Inr () else Inl e)"

lemma and_then_Inr [simp]: "and_then r f = Inr y \<longleftrightarrow> (\<exists>x. r = Inr x \<and> f x = Inr y)"
  by (cases r) auto

lemma and_then_Inl: "and_then r f = Inl e \<longleftrightarrow> r = Inl e \<or> (\<exists>x. r = Inr x \<and> f x = Inl e)"
  by (cases r) auto

lemma ensure_Inr [simp]: "ensure b e = Inr u \<longleftrightarrow> b"
  by (simp add: ensure_def)

lemma ensure_Inl [simp]: "ensure b e = Inl d \<longleftrightarrow> \<not> b \<and> d = e"
  by (auto simp: ensure_def)

lemma is_ok_iff: "is_ok r \<longleftrightarrow> (\<exists>x. r = Inr x)"
  by (cases r) auto

fun mapM :: "('a \<Rightarrow> ('e, 'b) result) \<Rightarrow> 'a list \<Rightarrow> ('e, 'b list) result" where
  "mapM f [] = Inr []"
| "mapM f (x # xs) = and_then (f x) (\<lambda>y. and_then (mapM f xs) (\<lambda>ys. Inr (y # ys)))"

lemma mapM_length: "mapM f xs = Inr ys \<Longrightarrow> length ys = length xs"
  by (induction xs arbitrary: ys) auto

section \<open>Bytes and characters\<close>

definition byte :: "char \<Rightarrow> nat" where
  "byte c = of_char c"

lemma byte_lt [simp]: "byte c < 256"
  by (simp add: byte_def)

text \<open>A continuation byte of UTF-8 is \<^verbatim>\<open>10xxxxxx\<close>; every other byte starts a character.\<close>

definition is_cont :: "char \<Rightarrow> bool" where
  "is_cont c = (128 \<le> byte c \<and> byte c < 192)"

definition char_count :: "string \<Rightarrow> nat" where
  "char_count s = length (filter (\<lambda>c. \<not> is_cont c) s)"

lemma char_count_le: "char_count s \<le> length s"
  by (simp add: char_count_def)

definition is_digit :: "char \<Rightarrow> bool" where
  "is_digit c = (48 \<le> byte c \<and> byte c \<le> 57)"

definition is_upper :: "char \<Rightarrow> bool" where
  "is_upper c = (65 \<le> byte c \<and> byte c \<le> 90)"

definition is_lower :: "char \<Rightarrow> bool" where
  "is_lower c = (97 \<le> byte c \<and> byte c \<le> 122)"

definition ascii_upper :: "char \<Rightarrow> char" where
  "ascii_upper c = (if is_lower c then char_of (byte c - 32) else c)"

definition ascii_lower :: "char \<Rightarrow> char" where
  "ascii_lower c = (if is_upper c then char_of (byte c + 32) else c)"

definition to_upper :: "string \<Rightarrow> string" where
  "to_upper s = map ascii_upper s"

definition to_lower :: "string \<Rightarrow> string" where
  "to_lower s = map ascii_lower s"

lemma length_to_upper [simp]: "length (to_upper s) = length s"
  by (simp add: to_upper_def)

lemma length_to_lower [simp]: "length (to_lower s) = length s"
  by (simp add: to_lower_def)

lemma ascii_upper_idem [simp]: "ascii_upper (ascii_upper c) = ascii_upper c"
  by (auto simp: ascii_upper_def is_lower_def byte_def)

lemma ascii_lower_idem [simp]: "ascii_lower (ascii_lower c) = ascii_lower c"
  by (auto simp: ascii_lower_def is_upper_def byte_def)

lemma to_lower_idem [simp]: "to_lower (to_lower s) = to_lower s"
  by (simp add: to_lower_def)

lemma to_upper_idem [simp]: "to_upper (to_upper s) = to_upper s"
  by (simp add: to_upper_def)

lemma find_mem: "find P xs = Some x \<Longrightarrow> x \<in> set xs \<and> P x"
  by (induction xs) (auto split: if_splits)

section \<open>White space\<close>

text \<open>
  The UTF-8 encodings of the code points of Unicode property White_Space, which Rust's
  \<^verbatim>\<open>str::trim\<close> and Go's \<^verbatim>\<open>strings.TrimSpace\<close> remove at both ends.
\<close>

definition ws_codes :: "string list" where
  "ws_codes = map (map (char_of :: nat \<Rightarrow> char))
     ([[9], [10], [11], [12], [13], [32], [194, 133], [194, 160], [225, 154, 128],
       [226, 128, 168], [226, 128, 169], [226, 128, 175], [226, 129, 159], [227, 128, 128]]
      @ map (\<lambda>k. [226, 128, 128 + k]) [0..<11])"

fun strip_codes :: "string list \<Rightarrow> nat \<Rightarrow> string \<Rightarrow> string" where
  "strip_codes ws 0 s = s"
| "strip_codes ws (Suc n) s =
    (case find (\<lambda>w. prefix w s) ws of
       None \<Rightarrow> s
     | Some w \<Rightarrow> strip_codes ws n (drop (length w) s))"

definition trim_start :: "string \<Rightarrow> string" where
  "trim_start s = strip_codes ws_codes (length s) s"

definition trim_end :: "string \<Rightarrow> string" where
  "trim_end s = rev (strip_codes (map rev ws_codes) (length s) (rev s))"

definition trim :: "string \<Rightarrow> string" where
  "trim s = trim_end (trim_start s)"

lemma strip_codes_suffix: "suffix (strip_codes ws n s) s"
proof (induction n arbitrary: s)
  case (Suc n)
  show ?case
  proof (cases "find (\<lambda>w. prefix w s) ws")
    case (Some w)
    have "suffix (strip_codes ws n (drop (length w) s)) (drop (length w) s)" by (rule Suc)
    then show ?thesis using Some suffix_drop suffix_order.trans by fastforce
  qed simp
qed simp

lemma length_trim_start: "length (trim_start s) \<le> length s"
  unfolding trim_start_def by (rule suffix_length_le) (rule strip_codes_suffix)

lemma length_trim_end: "length (trim_end s) \<le> length s"
  using suffix_length_le [OF strip_codes_suffix, of "map rev ws_codes" "length s" "rev s"]
  by (simp add: trim_end_def)

lemma length_trim: "length (trim s) \<le> length s"
  unfolding trim_def using length_trim_end length_trim_start le_trans by blast

lemma set_strip_codes: "set (strip_codes ws n s) \<subseteq> set s"
  using set_mono_suffix [OF strip_codes_suffix] .

lemma set_trim: "set (trim s) \<subseteq> set s"
  unfolding trim_def trim_end_def trim_start_def
  using set_strip_codes [of "map rev ws_codes"] set_strip_codes [of ws_codes]
  by (metis (no_types, lifting) order_trans set_rev)

lemma strip_codes_clean:
  assumes "[] \<notin> set ws" "length s \<le> n" "w \<in> set ws"
  shows "\<not> prefix w (strip_codes ws n s)"
  using assms(2)
proof (induction n arbitrary: s)
  case 0
  then show ?case using assms(1,3) by (cases w) auto
next
  case (Suc n)
  show ?case
  proof (cases "find (\<lambda>w. prefix w s) ws")
    case None
    then have "\<not> prefix w s" using assms(3) by (auto simp: find_None_iff)
    with None show ?thesis by simp
  next
    case (Some v)
    then have "v \<in> set ws" "prefix v s" by (auto dest: find_mem)
    then have "v \<noteq> []" using assms(1) by auto
    then have "length (drop (length v) s) \<le> n" using Suc.prems by (cases v) auto
    then show ?thesis using Suc.IH Some by simp
  qed
qed

lemma strip_codes_id: "(\<And>w. w \<in> set ws \<Longrightarrow> \<not> prefix w s) \<Longrightarrow> strip_codes ws n s = s"
  by (cases n) (auto split: option.splits dest: find_mem)

lemma ws_codes_nonempty [table_simps]: "[] \<notin> set ws_codes" "[] \<notin> set (map rev ws_codes)"
  by (auto simp: ws_codes_def)

lemma trim_end_prefix: "prefix (trim_end s) s"
  using strip_codes_suffix [of "map rev ws_codes" "length s" "rev s"]
  by (simp add: trim_end_def suffix_to_prefix)

text \<open>Trimming is idempotent: what it leaves starts and ends with no white space.\<close>

lemma trim_trim [simp]: "trim (trim s) = trim s"
proof -
  let ?t = "trim_start s"
  have "\<not> prefix w ?t" if "w \<in> set ws_codes" for w
    unfolding trim_start_def using ws_codes_nonempty(1) that by (intro strip_codes_clean) auto
  then have "\<not> prefix w (trim_end ?t)" if "w \<in> set ws_codes" for w
    using that trim_end_prefix [of ?t] by (meson prefix_order.trans)
  then have a: "trim_start (trim_end ?t) = trim_end ?t"
    unfolding trim_start_def [of "trim_end ?t"] by (rule strip_codes_id)
  have "\<not> prefix w (rev (trim_end ?t))" if "w \<in> set (map rev ws_codes)" for w
    unfolding trim_end_def rev_rev_ident using ws_codes_nonempty(2) that
    by (intro strip_codes_clean) auto
  then have "strip_codes (map rev ws_codes) n (rev (trim_end ?t)) = rev (trim_end ?t)" for n
    by (rule strip_codes_id)
  then have "trim_end (trim_end ?t) = trim_end ?t" by (simp add: trim_end_def [of "trim_end ?t"])
  with a show ?thesis by (simp add: trim_def)
qed

lemma trim_nil [simp]: "trim [] = []"
  by (simp add: trim_def trim_start_def trim_end_def)

section \<open>Splitting and joining\<close>

fun split_on :: "char \<Rightarrow> string \<Rightarrow> string list" where
  "split_on d [] = [[]]"
| "split_on d (c # cs) =
    (if c = d then [] # split_on d cs
     else (case split_on d cs of [] \<Rightarrow> [[c]] | w # ws \<Rightarrow> (c # w) # ws))"

fun join_with :: "string \<Rightarrow> string list \<Rightarrow> string" where
  "join_with d [] = []"
| "join_with d [w] = w"
| "join_with d (w # v # ws) = w @ d @ join_with d (v # ws)"

lemma split_on_nonempty [simp]: "split_on d s \<noteq> []"
  by (induction s) (auto split: list.splits)

lemma join_split [simp]: "join_with [d] (split_on d s) = s"
proof (induction s)
  case (Cons c cs)
  obtain w ws where "split_on d cs = w # ws" by (meson list.exhaust split_on_nonempty)
  with Cons show ?case by (cases ws) auto
qed simp

lemma split_on_no_sep: "w \<in> set (split_on d s) \<Longrightarrow> d \<notin> set w"
  by (induction s arbitrary: w) (auto split: list.splits if_splits)

section \<open>Decimal numbers\<close>

definition digit_val :: "char \<Rightarrow> nat" where
  "digit_val c = byte c - 48"

fun digits_acc :: "nat \<Rightarrow> string \<Rightarrow> nat" where
  "digits_acc a [] = a"
| "digits_acc a (c # cs) = digits_acc (10 * a + digit_val c) cs"

definition digits_val :: "string \<Rightarrow> nat" where
  "digits_val s = digits_acc 0 s"

definition all_digits :: "string \<Rightarrow> bool" where
  "all_digits s = (s \<noteq> [] \<and> list_all is_digit s)"

fun nat_digits :: "nat \<Rightarrow> string" where
  "nat_digits n = (if n < 10 then [char_of (48 + n)]
                   else nat_digits (n div 10) @ [char_of (48 + n mod 10)])"

declare nat_digits.simps [simp del]

definition int_str :: "int \<Rightarrow> string" where
  "int_str i = (if i < 0 then CHR ''-'' # nat_digits (nat (- i)) else nat_digits (nat i))"

lemma digits_acc_append: "digits_acc a (s @ t) = digits_acc (digits_acc a s) t"
  by (induction s arbitrary: a) auto

lemma byte_char_of_digit [simp]: "d < 10 \<Longrightarrow> byte (char_of (48 + d)) = 48 + d"
  by (simp add: byte_def)

lemma digits_val_nat_digits [simp]: "digits_val (nat_digits n) = n"
proof (induction n rule: nat_digits.induct)
  case (1 n)
  show ?case
  proof (cases "n < 10")
    case True
    then show ?thesis
      by (subst nat_digits.simps) (simp add: digits_val_def digit_val_def)
  next
    case False
    then have "digits_val (nat_digits (n div 10)) = n div 10" by (rule 1)
    then show ?thesis using False
      by (subst nat_digits.simps) (simp add: digits_val_def digits_acc_append digit_val_def)
  qed
qed

lemma all_digits_nat_digits [simp]: "all_digits (nat_digits n)"
proof (induction n rule: nat_digits.induct)
  case (1 n)
  show ?case
  proof (cases "n < 10")
    case True
    then show ?thesis
      by (subst nat_digits.simps) (simp add: all_digits_def is_digit_def)
  next
    case False
    then have "all_digits (nat_digits (n div 10))" by (rule 1)
    then show ?thesis using False
      by (subst nat_digits.simps) (simp add: all_digits_def is_digit_def)
  qed
qed

section \<open>Lists and association lists\<close>

lemma find_Some_iff_first:
  "find P xs = Some x \<longleftrightarrow> (\<exists>i < length xs. x = xs ! i \<and> P x \<and> (\<forall>j < i. \<not> P (xs ! j)))"
  by (auto simp: find_Some_iff)

lemma take_drop_bound: "length (drop (length xs - n) xs) \<le> n"
  by simp

text \<open>The last \<^term>\<open>n\<close> elements of a list, which is what a bounded drop-oldest buffer keeps.\<close>

definition last_n :: "nat \<Rightarrow> 'a list \<Rightarrow> 'a list" where
  "last_n n xs = drop (length xs - n) xs"

lemma length_last_n [simp]: "length (last_n n xs) = min n (length xs)"
  by (simp add: last_n_def)

lemma last_n_id [simp]: "length xs \<le> n \<Longrightarrow> last_n n xs = xs"
  by (simp add: last_n_def)

lemma last_n_last_n_append: "last_n n (last_n n xs @ ys) = last_n n (xs @ ys)"
proof (cases "n \<le> length xs")
  case True
  then have "length xs + length ys - n = length ys + (length xs - n)" by simp
  with True show ?thesis by (simp add: last_n_def)
qed simp

section \<open>Strings in order\<close>

text \<open>Byte by byte, the order of Go's strings and, on ASCII, of Qt's.\<close>

fun bytes_less :: "string \<Rightarrow> string \<Rightarrow> bool" where
  "bytes_less xs [] = False"
| "bytes_less [] (y # ys) = True"
| "bytes_less (x # xs) (y # ys) =
    (of_char x < (of_char y :: nat) \<or> x = y \<and> bytes_less xs ys)"

lemma bytes_less_irrefl [simp]: "\<not> bytes_less s s"
  by (induction s) simp_all

lemma bytes_less_trans: "bytes_less a b \<Longrightarrow> bytes_less b c \<Longrightarrow> bytes_less a c"
proof (induction a arbitrary: b c)
  case Nil
  then show ?case by (cases b; cases c) auto
next
  case (Cons x a)
  then show ?case by (cases b; cases c) auto
qed

lemma bytes_less_total: "bytes_less a b \<or> a = b \<or> bytes_less b a"
proof (induction a arbitrary: b)
  case Nil
  then show ?case by (cases b) auto
next
  case (Cons x a)
  show ?case
  proof (cases b)
    case (Cons y b')
    have "(of_char x :: nat) < of_char y \<or> x = y \<or> (of_char y :: nat) < of_char x"
      using linorder_less_linear [of "of_char x :: nat" "of_char y"] by auto
    then show ?thesis using Cons.IH [of b'] Cons by auto
  qed simp
qed

end
