(* ===== verification/Float64.thy ===== *)
theory Float64
  imports EE_Prelude
begin

text \<open>
  IEEE-754 binary64 numbers as far as the program uses them: the values themselves (a finite one is
  the rational it denotes, so the two zeros are one value, as every comparison of the program treats
  them), the correctly rounded conversion of a decimal literal, the grammar of Rust's
  \<^verbatim>\<open>str::parse::<f64>\<close> and the order with its unordered NaN.
\<close>

section \<open>Values and order\<close>

datatype f64 = F_NaN | F_Inf bool | F_Fin rat

fun f64_le :: "f64 \<Rightarrow> f64 \<Rightarrow> bool" where
  "f64_le F_NaN y = False"
| "f64_le x F_NaN = False"
| "f64_le (F_Inf n) (F_Inf m) = (n \<or> \<not> m)"
| "f64_le (F_Inf n) (F_Fin r) = n"
| "f64_le (F_Fin q) (F_Inf m) = (\<not> m)"
| "f64_le (F_Fin q) (F_Fin r) = (q \<le> r)"

definition f64_is_finite :: "f64 \<Rightarrow> bool" where
  "f64_is_finite x = (case x of F_Fin q \<Rightarrow> True | _ \<Rightarrow> False)"

text \<open>Rust's \<^verbatim>\<open>(a..=b).contains(&x)\<close> on floats.\<close>

definition f64_within :: "rat \<Rightarrow> rat \<Rightarrow> f64 \<Rightarrow> bool" where
  "f64_within a b x = (f64_le (F_Fin a) x \<and> f64_le x (F_Fin b))"

lemma f64_within_iff: "f64_within a b x \<longleftrightarrow> (\<exists>q. x = F_Fin q \<and> a \<le> q \<and> q \<le> b)"
  by (cases x) (auto simp: f64_within_def)

lemma f64_within_finite: "f64_within a b x \<Longrightarrow> f64_is_finite x"
  by (auto simp: f64_within_iff f64_is_finite_def)

section \<open>Rounding to nearest, ties to even\<close>

fun ilog2 :: "nat \<Rightarrow> nat" where
  "ilog2 n = (if n < 2 then 0 else Suc (ilog2 (n div 2)))"

declare ilog2.simps [simp del]

definition pow2 :: "int \<Rightarrow> rat" where
  "pow2 e = (if 0 \<le> e then 2 ^ nat e else 1 / 2 ^ nat (- e))"

definition floor_log2 :: "rat \<Rightarrow> int" where
  "floor_log2 q =
    (let (n, d) = quotient_of q; e = int (ilog2 (nat n)) - int (ilog2 (nat d))
     in if pow2 e \<le> q then e else e - 1)"

definition round_even :: "rat \<Rightarrow> int" where
  "round_even q =
    (let f = \<lfloor>q\<rfloor>; r = q - of_int f
     in if r < 1 / 2 then f else if 1 / 2 < r then f + 1 else if even f then f else f + 1)"

definition ulp_exp :: "rat \<Rightarrow> int" where
  "ulp_exp q = max (- 1074) (floor_log2 q - 52)"

definition round_pos :: "rat \<Rightarrow> rat" where
  "round_pos q = of_int (round_even (q / pow2 (ulp_exp q))) * pow2 (ulp_exp q)"

definition round64 :: "rat \<Rightarrow> f64" where
  "round64 q =
    (if q = 0 then F_Fin 0
     else if 0 < q then (let v = round_pos q in if v < 2 ^ 1024 then F_Fin v else F_Inf False)
     else (let v = round_pos (- q) in if v < 2 ^ 1024 then F_Fin (- v) else F_Inf True))"

lemma pow2_pos [simp]: "0 < pow2 e"
  by (simp add: pow2_def)

lemma ilog2_lower: "0 < n \<Longrightarrow> 2 ^ ilog2 n \<le> n"
proof (induction n rule: ilog2.induct)
  case (1 n)
  show ?case
  proof (cases "n < 2")
    case False
    then have "2 ^ ilog2 (n div 2) \<le> n div 2" using 1 by simp
    then show ?thesis using False by (subst ilog2.simps) auto
  qed (use 1 in \<open>simp add: ilog2.simps\<close>)
qed

lemma ilog2_upper: "n < 2 ^ Suc (ilog2 n)"
proof (induction n rule: ilog2.induct)
  case (1 n)
  show ?case
  proof (cases "n < 2")
    case False
    then have "n div 2 < 2 ^ Suc (ilog2 (n div 2))" using 1 by simp
    then have "n < 2 * 2 ^ Suc (ilog2 (n div 2))" by linarith
    then show ?thesis using False by (subst ilog2.simps) simp
  qed (simp add: ilog2.simps)
qed

lemma round_even_of_int [simp]: "round_even (of_int k) = k"
  by (simp add: round_even_def)

lemma round_even_near: "of_int (round_even q) \<le> q + 1 / 2" "q - 1 / 2 \<le> of_int (round_even q)"
  unfolding round_even_def Let_def by (auto, linarith+)

lemma round_even_le:
  assumes "q \<le> of_int k" shows "round_even q \<le> k"
proof (cases "\<lfloor>q\<rfloor> = k")
  case True
  with assms have "q = of_int k" by linarith
  then show ?thesis by simp
next
  case False
  with assms have "\<lfloor>q\<rfloor> < k" by linarith
  then show ?thesis by (auto simp: round_even_def Let_def)
qed

lemma round_even_ge: "of_int k \<le> q \<Longrightarrow> k \<le> round_even q"
  unfolding round_even_def Let_def by (auto simp: le_floor_iff, linarith)

lemma pow2_minus_one: "pow2 (e - 1) = pow2 e / 2"
proof (cases "1 \<le> e")
  case True
  then have "nat e = Suc (nat (e - 1))" by simp
  with True show ?thesis by (simp add: pow2_def)
next
  case False
  then have "nat (- (e - 1)) = Suc (nat (- e))" by simp
  with False show ?thesis by (auto simp: pow2_def)
qed

lemma pow2_diff: "pow2 (int a - int b) = 2 ^ a / 2 ^ b"
  by (cases "b \<le> a") (simp_all add: pow2_def nat_diff_distrib power_diff)

lemma floor_log2_le:
  assumes "0 < q" shows "pow2 (floor_log2 q) \<le> q"
proof -
  obtain n d where nd: "quotient_of q = (n, d)" by fastforce
  then have d: "0 < d" and q: "q = of_int n / of_int d"
    by (auto simp: quotient_of_denom_pos quotient_of_div)
  with assms have n: "0 < n" by (simp add: zero_less_divide_iff)
  define a b where "a = ilog2 (nat n)" and "b = ilog2 (nat d)"
  have "2 ^ a \<le> nat n" unfolding a_def using n by (intro ilog2_lower) simp
  then have "2 ^ a \<le> n" using n by (simp add: le_nat_iff)
  then have lo: "(2::rat) ^ a \<le> of_int n"
    by (metis of_int_le_iff of_int_numeral of_int_power)
  have "nat d < 2 ^ Suc b" unfolding b_def by (rule ilog2_upper)
  then have "d < 2 ^ Suc b" using d by (simp add: nat_less_iff)
  then have hi: "of_int d \<le> (2::rat) ^ Suc b"
    by (metis less_imp_le of_int_le_iff of_int_numeral of_int_power)
  have "2 ^ a / 2 ^ Suc b \<le> q"
    unfolding q by (rule frac_le) (use lo hi d n in auto)
  then have half: "pow2 (int a - int b - 1) \<le> q"
    by (simp add: pow2_minus_one pow2_diff)
  show ?thesis
    using half by (simp add: floor_log2_def nd a_def b_def Let_def)
qed

lemma pow2_mono: "a \<le> b \<Longrightarrow> pow2 a \<le> pow2 b"
proof -
  assume "a \<le> b"
  have "pow2 b = pow2 a * 2 ^ nat (b - a)" if "a \<le> b" for a b
  proof -
    have "pow2 (a + int k) = pow2 a * 2 ^ k" for k
    proof (induction k)
      case (Suc k)
      have "pow2 (a + int (Suc k) - 1) = pow2 (a + int (Suc k)) / 2" by (rule pow2_minus_one)
      with Suc show ?case by (simp add: field_simps)
    qed simp
    from this [of "nat (b - a)"] show ?thesis using that by simp
  qed
  with \<open>a \<le> b\<close> have "pow2 b = pow2 a * 2 ^ nat (b - a)" by blast
  moreover have "pow2 a * 1 \<le> pow2 a * 2 ^ nat (b - a)"
    by (intro mult_left_mono) (auto simp: less_imp_le)
  ultimately show ?thesis by simp
qed

lemma ulp_exp_nonpos:
  assumes "0 < q" "q \<le> 2 ^ 52" shows "ulp_exp q \<le> 0"
proof -
  have "floor_log2 q \<le> 52"
  proof (rule ccontr)
    assume "\<not> floor_log2 q \<le> 52"
    then have "pow2 53 \<le> pow2 (floor_log2 q)" by (intro pow2_mono) simp
    also have "\<dots> \<le> q" using assms(1) by (rule floor_log2_le)
    also have "\<dots> \<le> 2 ^ 52" by (rule assms(2))
    finally show False by (simp add: pow2_def)
  qed
  then show ?thesis by (simp add: ulp_exp_def)
qed

lemma round_pos_between:
  assumes q: "0 < q" "q \<le> 2 ^ 52" and ab: "of_int a \<le> q" "q \<le> of_int b"
  shows "of_int a \<le> round_pos q" "round_pos q \<le> of_int b"
proof -
  define e where "e = ulp_exp q"
  have e: "e \<le> 0" using q by (simp add: e_def ulp_exp_nonpos)
  define u :: int where "u = 2 ^ nat (- e)"
  have u: "q / pow2 e = q * of_int u" "pow2 e = 1 / of_int u" "(0 :: rat) < of_int u"
    using e by (auto simp: pow2_def u_def)
  have "of_int (a * u) \<le> q * of_int u" using ab u(3) by simp
  then have "a * u \<le> round_even (q * of_int u)" by (rule round_even_ge)
  then have lo: "rat_of_int a * of_int u \<le> of_int (round_even (q * of_int u))"
    by (metis of_int_le_iff of_int_mult)
  have "q * of_int u \<le> of_int (b * u)" using ab u(3) by simp
  then have "round_even (q * of_int u) \<le> b * u" by (rule round_even_le)
  then have hi: "of_int (round_even (q * of_int u)) \<le> rat_of_int b * of_int u"
    by (metis of_int_le_iff of_int_mult)
  have rp: "round_pos q = of_int (round_even (q * of_int u)) / of_int u"
    by (simp only: round_pos_def e_def [symmetric] u(1), simp add: u(2))
  show "of_int a \<le> round_pos q" "round_pos q \<le> of_int b"
    unfolding rp using lo hi u(3) by (simp_all add: field_simps)
qed

text \<open>
  Rounding never leaves an interval with integer ends, which is what the range checks of the
  command gate and of the destination parser need: their bounds are integers.
\<close>

lemma round64_between:
  assumes ab: "of_int a \<le> q" "q \<le> of_int b" and small: "- (2 ^ 52) \<le> a" "b \<le> 2 ^ 52"
  shows "f64_within (of_int a) (of_int b) (round64 q)"
proof -
  have qb: "q \<le> 2 ^ 52" using ab(2) small(2)
    by (metis of_int_le_iff of_int_numeral of_int_power order_trans)
  have qa: "- q \<le> 2 ^ 52" using ab(1) small(1)
  proof -
    have "- (2 ^ 52) \<le> rat_of_int a" using small(1)
      by (metis of_int_le_iff of_int_minus of_int_numeral of_int_power)
    then show ?thesis using ab(1) by linarith
  qed
  have big: "(2::rat) ^ 52 < 2 ^ 1024" by (rule power_strict_increasing) auto
  consider "q = 0" | "0 < q" | "q < 0" by linarith
  then show ?thesis
  proof cases
    case 1 then show ?thesis using ab by (simp add: round64_def f64_within_def)
  next
    case 2
    note rp = round_pos_between [OF 2 qb ab]
    have "round_pos q \<le> 2 ^ 52"
      using round_pos_between(2) [OF 2 qb ab(1), of "2 ^ 52"] qb by simp
    then have "round_pos q < 2 ^ 1024" using big by linarith
    with 2 rp show ?thesis by (simp add: round64_def f64_within_def Let_def)
  next
    case 3
    then have nq: "0 < - q" by simp
    have ba: "of_int (- b) \<le> - q" "- q \<le> of_int (- a)" using ab by auto
    note rp = round_pos_between [OF nq qa ba]
    have "round_pos (- q) \<le> 2 ^ 52"
      using round_pos_between(2) [OF nq qa ba(1), of "2 ^ 52"] qa by simp
    then have "round_pos (- q) < 2 ^ 1024" using big by linarith
    with 3 rp show ?thesis by (simp add: round64_def f64_within_def Let_def)
  qed
qed

lemma round64_of_int:
  assumes "\<bar>k\<bar> \<le> 2 ^ 52" shows "round64 (of_int k) = F_Fin (of_int k)"
proof -
  have "f64_within (of_int k) (of_int k) (round64 (of_int k))"
    by (rule round64_between) (use assms in auto)
  then show ?thesis by (auto simp: f64_within_iff)
qed

section \<open>The decimal grammar of Rust's float parser\<close>

definition starts_with :: "char \<Rightarrow> string \<Rightarrow> bool" where
  "starts_with c s = (s \<noteq> [] \<and> hd s = c)"

definition exponent_digits :: "string \<Rightarrow> int option" where
  "exponent_digits s = (if all_digits s then Some (int (digits_val s)) else None)"

definition parse_exponent :: "string \<Rightarrow> int option" where
  "parse_exponent s =
    (if s = [] then Some 0
     else if hd s = CHR ''e'' \<or> hd s = CHR ''E'' then
       (let r = tl s
        in if starts_with (CHR ''-'') r then map_option uminus (exponent_digits (tl r))
           else if starts_with (CHR ''+'') r then exponent_digits (tl r)
           else exponent_digits r)
     else None)"

definition pow10 :: "int \<Rightarrow> rat" where
  "pow10 e = (if 0 \<le> e then 10 ^ nat e else 1 / 10 ^ nat (- e))"

definition parse_number :: "string \<Rightarrow> rat option" where
  "parse_number s =
    (let ip = takeWhile is_digit s; r = dropWhile is_digit s
     in if starts_with (CHR ''.'') r then
          (let fp = takeWhile is_digit (tl r); t = dropWhile is_digit (tl r)
           in if ip = [] \<and> fp = [] then None
              else map_option (\<lambda>e. of_nat (digits_val (ip @ fp)) * pow10 (e - int (length fp)))
                     (parse_exponent t))
        else if ip = [] then None
        else map_option (\<lambda>e. of_nat (digits_val ip) * pow10 e) (parse_exponent r))"

definition f64_neg :: "f64 \<Rightarrow> f64" where
  "f64_neg x = (case x of F_NaN \<Rightarrow> F_NaN | F_Inf n \<Rightarrow> F_Inf (\<not> n) | F_Fin q \<Rightarrow> F_Fin (- q))"

definition parse_f64_body :: "string \<Rightarrow> f64 option" where
  "parse_f64_body s =
    (let l = to_lower s
     in if l = ''nan'' then Some F_NaN
        else if l = ''inf'' \<or> l = ''infinity'' then Some (F_Inf False)
        else map_option round64 (parse_number s))"

definition parse_f64 :: "string \<Rightarrow> f64 option" where
  "parse_f64 s =
    (if starts_with (CHR ''-'') s then map_option f64_neg (parse_f64_body (tl s))
     else if starts_with (CHR ''+'') s then parse_f64_body (tl s)
     else parse_f64_body s)"

end
