(* ===== verification/Vehicle_State.thy ===== *)
theory Vehicle_State
  imports EE_Prelude Float64
begin

text \<open>
  The dashboard's vehicle status, from \<^verbatim>\<open>app/qml/js/VehicleState.js\<close>: the model table and the
  VIN heuristic, the status object, and the four functions that merge one \<^verbatim>\<open>state\<close> reply into it.
  \<^verbatim>\<open>JSON.parse\<close> is the parameter \<^verbatim>\<open>parse\<close> of the merges (\<^const>\<open>None\<close>: it throws); an
  object lists its members in enumeration order.  A merge works in place on a clone inside a
  \<^verbatim>\<open>try\<close>, so an exception leaves the assignments made so far; the clone itself is the identity
  on a record value.  \<^verbatim>\<open>Date.now()\<close> is the argument \<^verbatim>\<open>now\<close>, in milliseconds.
\<close>

section \<open>JavaScript values\<close>

datatype js =
    J_undef
  | J_null
  | J_bool bool
  | J_num f64
  | J_str string
  | J_arr "js list"
  | J_obj "(string \<times> js) list"

datatype js_exn = Syntax_error | Type_error

fun truthy :: "js \<Rightarrow> bool" where
  "truthy J_undef = False"
| "truthy J_null = False"
| "truthy (J_bool b) = b"
| "truthy (J_num x) = (x \<noteq> F_NaN \<and> x \<noteq> F_Fin 0)"
| "truthy (J_str s) = (s \<noteq> [])"
| "truthy (J_arr xs) = True"
| "truthy (J_obj ms) = True"

text \<open>Reading \<^verbatim>\<open>v.k\<close>; none of the names read here is a property of a primitive or an array.\<close>

fun js_get :: "js \<Rightarrow> string \<Rightarrow> (js_exn, js) result" where
  "js_get J_undef k = Inl Type_error"
| "js_get J_null k = Inl Type_error"
| "js_get (J_obj ms) k = Inr (case map_of ms k of None \<Rightarrow> J_undef | Some v \<Rightarrow> v)"
| "js_get v k = Inr J_undef"

text \<open>A field of a value known not to be null or undefined.\<close>

definition js_fld :: "js \<Rightarrow> string \<Rightarrow> js" where
  "js_fld v k = (case js_get v k of Inl e \<Rightarrow> J_undef | Inr x \<Rightarrow> x)"

definition js_or :: "js \<Rightarrow> js \<Rightarrow> js" where
  "js_or a b = (if truthy a then a else b)"

definition undef_to_null :: "js \<Rightarrow> js" where
  "undef_to_null v = (if v = J_undef then J_null else v)"

lemma truthy_js_or: "truthy (js_or a b) \<longleftrightarrow> truthy a \<or> truthy b"
  by (simp add: js_or_def)

section \<open>Models\<close>

record model_entry =
  m_id :: string
  m_name :: string
  m_image :: string

definition MODELS :: "model_entry list" where
  "MODELS =
    [\<lparr>m_id = '''', m_name = ''Auto (from VIN)'', m_image = ''''\<rparr>,
     \<lparr>m_id = ''model3'', m_name = ''Model 3'', m_image = ''../../img/model3.png''\<rparr>,
     \<lparr>m_id = ''models'', m_name = ''Model S'', m_image = ''../../img/models.png''\<rparr>,
     \<lparr>m_id = ''modelx'', m_name = ''Model X'', m_image = ''../../img/modelx.png''\<rparr>,
     \<lparr>m_id = ''modely'', m_name = ''Model Y'', m_image = ''../../img/modely.png''\<rparr>,
     \<lparr>m_id = ''cybertruck'', m_name = ''Cybertruck'', m_image = ''../../img/cybertruck.png''\<rparr>]"

definition modelImage :: "string \<Rightarrow> string" where
  "modelImage i =
    (case find (\<lambda>m. m_id m = i \<and> 0 < length (m_image m)) MODELS of
       Some m \<Rightarrow> m_image m
     | None \<Rightarrow> ''../../img/model3.png'')"

definition modelName :: "string \<Rightarrow> string" where
  "modelName i =
    (case find (\<lambda>m. m_id m = i) MODELS of Some m \<Rightarrow> m_name m | None \<Rightarrow> ''Model 3'')"

fun index_from :: "nat \<Rightarrow> ('a \<Rightarrow> bool) \<Rightarrow> 'a list \<Rightarrow> nat option" where
  "index_from k P [] = None"
| "index_from k P (x # xs) = (if P x then Some k else index_from (Suc k) P xs)"

definition modelIndex :: "string \<Rightarrow> nat" where
  "modelIndex i = (case index_from 0 (\<lambda>m. m_id m = i) MODELS of Some k \<Rightarrow> k | None \<Rightarrow> 0)"

definition vin_table :: "(string \<times> string) list" where
  "vin_table =
    [(''LRW3'', ''model3''), (''LRWY'', ''modely''), (''5YJ3'', ''model3''), (''5Y3'', ''model3''),
     (''5YJY'', ''modely''), (''5YJX'', ''modelx''), (''5YFY'', ''modely''), (''5YFS'', ''models''),
     (''5YJS'', ''models''), (''7SAS'', ''models''), (''7SAX'', ''modelx''), (''7SAY'', ''modely''),
     (''7G2Z'', ''cybertruck''), (''7G2Y'', ''modely''), (''XP7'', ''modely''), (''LRW'', ''modely'')]"

fun first_prefix :: "(string \<times> string) list \<Rightarrow> string \<Rightarrow> string" where
  "first_prefix [] v = ''''"
| "first_prefix ((p, m) # t) v = (if prefix p v then m else first_prefix t v)"

definition guessModel :: "string \<Rightarrow> string" where
  "guessModel vin =
    (let v = to_upper vin in if length v < 4 then '''' else first_prefix vin_table v)"

definition effectiveModel :: "string \<Rightarrow> string \<Rightarrow> string" where
  "effectiveModel model vin = (if 0 < length model then model else guessModel vin)"

definition carImageSource :: "string \<Rightarrow> string \<Rightarrow> string" where
  "carImageSource model vin = modelImage (effectiveModel model vin)"

section \<open>The status object\<close>

record status =
  locked :: "bool option"
  doorsOpen :: bool
  trunkFrontOpen :: bool
  trunkRearOpen :: bool
  windowsOpen :: bool
  insideTemp :: js
  outsideTemp :: js
  isClimateOn :: bool
  driverTempSetting :: js
  batteryLevel :: js
  chargingState :: string
  chargePortOpen :: bool
  minutesToFullCharge :: js
  chargeLimitSoc :: js
  chargeCurrent :: js
  updatedAt :: int

definition emptyStatus :: status where
  "emptyStatus =
    \<lparr>locked = None, doorsOpen = False, trunkFrontOpen = False, trunkRearOpen = False,
     windowsOpen = False, insideTemp = J_null, outsideTemp = J_null, isClimateOn = False,
     driverTempSetting = J_null, batteryLevel = J_null, chargingState = '''',
     chargePortOpen = False, minutesToFullCharge = J_num (F_Fin 0), chargeLimitSoc = J_null,
     chargeCurrent = J_null, updatedAt = 0\<rparr>"

definition closureIsOpen :: "js \<Rightarrow> bool" where
  "closureIsOpen v =
    (v = J_str ''CLOSURESTATE_OPEN'' \<or> v = J_str ''CLOSURESTATE_AJAR''
     \<or> v = J_str ''CLOSURESTATE_OPENING'')"

text \<open>
  \<^verbatim>\<open>Object.keys\<close> as the ECMAScript 5.1 engine of QtQuick 2.6 has it: a primitive argument is a
  type error, an array lists its indices.
\<close>

definition object_keys :: "js \<Rightarrow> (js_exn, string list) result" where
  "object_keys v =
    (case v of
       J_obj ms \<Rightarrow> Inr (map fst ms)
     | J_arr xs \<Rightarrow> Inr (map (\<lambda>k. nat_digits k) [0..<length xs])
     | _ \<Rightarrow> Inl Type_error)"

definition oneofVariantName :: "js \<Rightarrow> (js_exn, string) result" where
  "oneofVariantName v =
    (if \<not> truthy v then Inr ''''
     else and_then (object_keys v) (\<lambda>ks. Inr (case ks of [] \<Rightarrow> '''' | k # _ \<Rightarrow> k)))"

text \<open>\<^verbatim>\<open>JSON.parse(text)\<close> and \<^verbatim>\<open>JSON.parse(text).member || {}\<close>.\<close>

definition js_parse :: "(string \<Rightarrow> js option) \<Rightarrow> string \<Rightarrow> (js_exn, js) result" where
  "js_parse parse text = (case parse text of None \<Rightarrow> Inl Syntax_error | Some v \<Rightarrow> Inr v)"

definition parse_member ::
    "(string \<Rightarrow> js option) \<Rightarrow> string \<Rightarrow> string \<Rightarrow> (js_exn, js) result" where
  "parse_member parse text m =
    and_then (js_parse parse text) (\<lambda>v. and_then (js_get v m) (\<lambda>x. Inr (js_or x (J_obj []))))"

section \<open>The merges\<close>

definition mergeBodyControllerState ::
    "(string \<Rightarrow> js option) \<Rightarrow> int \<Rightarrow> status \<Rightarrow> string \<Rightarrow> status" where
  "mergeBodyControllerState parse now s text =
    (case js_parse parse text of
       Inl e \<Rightarrow> s
     | Inr v \<Rightarrow>
         let obj = js_or v (J_obj []);
             lock = js_or (js_fld obj ''vehicleLockState'') (J_str '''');
             s1 = (if lock = J_str ''VEHICLELOCKSTATE_LOCKED''
                      \<or> lock = J_str ''VEHICLELOCKSTATE_INTERNAL_LOCKED''
                   then s\<lparr>locked := Some True\<rparr>
                   else if lock = J_str ''VEHICLELOCKSTATE_UNLOCKED''
                      \<or> lock = J_str ''VEHICLELOCKSTATE_SELECTIVE_UNLOCKED''
                   then s\<lparr>locked := Some False\<rparr>
                   else s);
             c = js_fld obj ''closureStatuses'';
             s2 = (if c \<noteq> J_undef \<and> c \<noteq> J_null
                   then s1\<lparr>doorsOpen :=
                             closureIsOpen (js_fld c ''frontDriverDoor'')
                             \<or> closureIsOpen (js_fld c ''frontPassengerDoor'')
                             \<or> closureIsOpen (js_fld c ''rearDriverDoor'')
                             \<or> closureIsOpen (js_fld c ''rearPassengerDoor''),
                           trunkFrontOpen := closureIsOpen (js_fld c ''frontTrunk''),
                           trunkRearOpen := closureIsOpen (js_fld c ''rearTrunk'')\<rparr>
                   else s1)
         in s2\<lparr>updatedAt := now\<rparr>)"

definition mergeClosuresState ::
    "(string \<Rightarrow> js option) \<Rightarrow> int \<Rightarrow> status \<Rightarrow> string \<Rightarrow> status" where
  "mergeClosuresState parse now s text =
    (case parse_member parse text ''closuresState'' of
       Inl e \<Rightarrow> s
     | Inr obj \<Rightarrow>
         let f = (\<lambda>k. truthy (js_fld obj k))
         in s\<lparr>locked := Some (f ''locked''),
              doorsOpen := f ''doorOpenDriverFront'' \<or> f ''doorOpenDriverRear''
                \<or> f ''doorOpenPassengerFront'' \<or> f ''doorOpenPassengerRear''
                \<or> f ''doorOpenTrunkFront'' \<or> f ''doorOpenTrunkRear'',
              trunkFrontOpen := f ''doorOpenTrunkFront'',
              trunkRearOpen := f ''doorOpenTrunkRear'',
              windowsOpen := f ''windowOpenDriverFront'' \<or> f ''windowOpenPassengerFront''
                \<or> f ''windowOpenDriverRear'' \<or> f ''windowOpenPassengerRear'',
              updatedAt := now\<rparr>)"

definition mergeClimateState ::
    "(string \<Rightarrow> js option) \<Rightarrow> int \<Rightarrow> status \<Rightarrow> string \<Rightarrow> status" where
  "mergeClimateState parse now s text =
    (case parse_member parse text ''climateState'' of
       Inl e \<Rightarrow> s
     | Inr obj \<Rightarrow>
         s\<lparr>insideTemp := undef_to_null (js_fld obj ''insideTempCelsius''),
           outsideTemp := undef_to_null (js_fld obj ''outsideTempCelsius''),
           driverTempSetting := undef_to_null (js_fld obj ''driverTempSetting''),
           isClimateOn := truthy (js_fld obj ''isClimateOn''),
           updatedAt := now\<rparr>)"

definition mergeChargeState ::
    "(string \<Rightarrow> js option) \<Rightarrow> int \<Rightarrow> status \<Rightarrow> string \<Rightarrow> status" where
  "mergeChargeState parse now s text =
    (case parse_member parse text ''chargeState'' of
       Inl e \<Rightarrow> s
     | Inr obj \<Rightarrow>
         let s1 = s\<lparr>batteryLevel := undef_to_null (js_fld obj ''batteryLevel'')\<rparr>
         in case oneofVariantName (js_fld obj ''chargingState'') of
              Inl e \<Rightarrow> s1
            | Inr name \<Rightarrow>
                s1\<lparr>chargingState := name,
                   chargePortOpen := truthy (js_fld obj ''chargePortDoorOpen''),
                   minutesToFullCharge :=
                     js_or (js_fld obj ''minutesToFullCharge'') (J_num (F_Fin 0)),
                   chargeLimitSoc := undef_to_null (js_fld obj ''chargeLimitSoc''),
                   chargeCurrent :=
                     (if js_fld obj ''chargeCurrentRequest'' \<noteq> J_undef
                      then js_fld obj ''chargeCurrentRequest''
                      else undef_to_null (js_fld obj ''chargingAmps'')),
                   updatedAt := now\<rparr>)"

definition minutesAgo :: "int \<Rightarrow> int \<Rightarrow> int" where
  "minutesAgo now timestampMs =
    (if timestampMs = 0 then - 1
     else let age = (now - timestampMs) div 60000 in if age < 0 then 0 else age)"

section \<open>Lemmas\<close>

lemma js_fld_simps [simp]:
  "js_fld (J_obj ms) k = (case map_of ms k of None \<Rightarrow> J_undef | Some v \<Rightarrow> v)"
  "js_fld (J_arr xs) k = J_undef" "js_fld (J_str t) k = J_undef"
  by (simp_all add: js_fld_def)

lemmas merge_defs =
  mergeBodyControllerState_def mergeClosuresState_def mergeClimateState_def mergeChargeState_def

lemma body_frame [frame_simps]:
  "windowsOpen (mergeBodyControllerState parse now s text) = windowsOpen s"
  "insideTemp (mergeBodyControllerState parse now s text) = insideTemp s"
  "outsideTemp (mergeBodyControllerState parse now s text) = outsideTemp s"
  "isClimateOn (mergeBodyControllerState parse now s text) = isClimateOn s"
  "driverTempSetting (mergeBodyControllerState parse now s text) = driverTempSetting s"
  "batteryLevel (mergeBodyControllerState parse now s text) = batteryLevel s"
  "chargingState (mergeBodyControllerState parse now s text) = chargingState s"
  "chargePortOpen (mergeBodyControllerState parse now s text) = chargePortOpen s"
  "minutesToFullCharge (mergeBodyControllerState parse now s text) = minutesToFullCharge s"
  "chargeLimitSoc (mergeBodyControllerState parse now s text) = chargeLimitSoc s"
  "chargeCurrent (mergeBodyControllerState parse now s text) = chargeCurrent s"
  by (simp_all add: mergeBodyControllerState_def Let_def split: sum.splits)

lemma merge_parse_failure [simp]:
  assumes "parse text = None"
  shows "mergeBodyControllerState parse now s text = s" "mergeClosuresState parse now s text = s"
    "mergeClimateState parse now s text = s" "mergeChargeState parse now s text = s"
  using assms by (simp_all add: merge_defs parse_member_def js_parse_def)

text \<open>
  What protojson prints: a false flag, like every field at its zero value, is omitted, so a message
  of flags is the object of its true members.
\<close>

definition protojson_flags :: "(string \<times> bool) list \<Rightarrow> js" where
  "protojson_flags fs = J_obj (map (\<lambda>(k, b). (k, J_bool b)) (filter snd fs))"

lemma js_fld_flags:
  "distinct (map fst fs) \<Longrightarrow> (k, b) \<in> set fs \<Longrightarrow> truthy (js_fld (protojson_flags fs) k) = b"
proof (induction fs)
  case (Cons f fs)
  have *: "map_of (map (\<lambda>(k, b). (k, J_bool b)) (filter snd fs)) k = None" if "k \<notin> fst ` set fs"
    using that by (force simp: map_of_eq_None_iff)
  show ?case using Cons * by (cases f) (auto simp: protojson_flags_def intro: rev_image_eqI)
qed simp

lemma js_fld_flags_absent:
  "k \<notin> fst ` set fs \<Longrightarrow> truthy (js_fld (protojson_flags fs) k) = False"
  by (force simp: protojson_flags_def map_of_eq_None_iff split: option.splits dest: map_of_SomeD)

fun shadow_free :: "(string \<times> string) list \<Rightarrow> bool" where
  "shadow_free [] = True"
| "shadow_free ((p, m) # t) = (list_all (\<lambda>(q, n). prefix p q \<longrightarrow> m = n) t \<and> shadow_free t)"

lemma shadow_free_vin_table [table_simps]: "shadow_free vin_table"
  by code_simp

lemma first_prefix_longest:
  assumes "shadow_free t" "(p, m) \<in> set t" "prefix p v"
    "\<forall>(q, n) \<in> set t. prefix q v \<longrightarrow> length q \<le> length p"
  shows "first_prefix t v = m"
  using assms
proof (induction t)
  case (Cons e t)
  obtain q n where e: "e = (q, n)" by fastforce
  show ?case
  proof (cases "prefix q v")
    case True
    then have "prefix q p" using Cons.prems e by (auto intro: prefix_length_prefix)
    then show ?thesis using Cons.prems e True by (auto simp: list_all_iff)
  next
    case False
    then show ?thesis using Cons e by auto
  qed
qed simp

lemma first_prefix_none: "(\<forall>(q, n) \<in> set t. \<not> prefix q v) \<Longrightarrow> first_prefix t v = ''''"
  by (induction t v rule: first_prefix.induct) auto

lemma first_prefix_range: "first_prefix t v \<in> insert '''' (snd ` set t)"
  by (induction t v rule: first_prefix.induct) auto

lemma minutesAgo_spec:
  "minutesAgo now t = - 1 \<and> t = 0
   \<or> t \<noteq> 0 \<and> now < t \<and> minutesAgo now t = 0
   \<or> t \<noteq> 0 \<and> t \<le> now \<and> 60000 * minutesAgo now t \<le> now - t \<and> now - t < 60000 * (minutesAgo now t + 1)"
  unfolding minutesAgo_def Let_def by auto

section \<open>What the vehicle reports\<close>

text \<open>
  The two reply messages as \<^verbatim>\<open>vcsec.proto\<close> and \<^verbatim>\<open>vehicle.proto\<close> declare them, and
  their JSON text as the session process prints it: \<^verbatim>\<open>body-controller-state\<close> is printed with
  \<^verbatim>\<open>EmitDefaultValues\<close>, so an enum field is always there and an absent sub-message is not.
\<close>

datatype closure_state =
  CS_closed | CS_open | CS_ajar | CS_unknown | CS_failed_unlatch | CS_opening | CS_closing

datatype vcsec_lock = VL_unlocked | VL_locked | VL_internal_locked | VL_selective_unlocked

fun closure_name :: "closure_state \<Rightarrow> string" where
  "closure_name CS_closed = ''CLOSURESTATE_CLOSED''"
| "closure_name CS_open = ''CLOSURESTATE_OPEN''"
| "closure_name CS_ajar = ''CLOSURESTATE_AJAR''"
| "closure_name CS_unknown = ''CLOSURESTATE_UNKNOWN''"
| "closure_name CS_failed_unlatch = ''CLOSURESTATE_FAILED_UNLATCH''"
| "closure_name CS_opening = ''CLOSURESTATE_OPENING''"
| "closure_name CS_closing = ''CLOSURESTATE_CLOSING''"

fun lock_name :: "vcsec_lock \<Rightarrow> string" where
  "lock_name VL_unlocked = ''VEHICLELOCKSTATE_UNLOCKED''"
| "lock_name VL_locked = ''VEHICLELOCKSTATE_LOCKED''"
| "lock_name VL_internal_locked = ''VEHICLELOCKSTATE_INTERNAL_LOCKED''"
| "lock_name VL_selective_unlocked = ''VEHICLELOCKSTATE_SELECTIVE_UNLOCKED''"

record closure_statuses =
  frontDriverDoor :: closure_state
  frontPassengerDoor :: closure_state
  rearDriverDoor :: closure_state
  rearPassengerDoor :: closure_state
  rearTrunk :: closure_state
  frontTrunk :: closure_state
  chargePort :: closure_state
  tonneau :: closure_state

definition closures_json :: "closure_statuses \<Rightarrow> js" where
  "closures_json c =
    J_obj [(''frontDriverDoor'', J_str (closure_name (frontDriverDoor c))),
           (''frontPassengerDoor'', J_str (closure_name (frontPassengerDoor c))),
           (''rearDriverDoor'', J_str (closure_name (rearDriverDoor c))),
           (''rearPassengerDoor'', J_str (closure_name (rearPassengerDoor c))),
           (''rearTrunk'', J_str (closure_name (rearTrunk c))),
           (''frontTrunk'', J_str (closure_name (frontTrunk c))),
           (''chargePort'', J_str (closure_name (chargePort c))),
           (''tonneau'', J_str (closure_name (tonneau c)))]"

definition vehicle_status_json :: "vcsec_lock \<Rightarrow> closure_statuses option \<Rightarrow> js" where
  "vehicle_status_json l c =
    J_obj ((case c of None \<Rightarrow> [] | Some x \<Rightarrow> [(''closureStatuses'', closures_json x)])
           @ [(''vehicleLockState'', J_str (lock_name l))])"

definition closure_moved_open :: "closure_state \<Rightarrow> bool" where
  "closure_moved_open c = (c = CS_open \<or> c = CS_ajar \<or> c = CS_opening)"

lemma closureIsOpen_name [simp]: "closureIsOpen (J_str (closure_name c)) = closure_moved_open c"
  by (cases c) (simp_all add: closureIsOpen_def closure_moved_open_def)

definition closure_flag_names :: "string list" where
  "closure_flag_names =
    [''locked'', ''doorOpenDriverFront'', ''doorOpenDriverRear'', ''doorOpenPassengerFront'',
     ''doorOpenPassengerRear'', ''doorOpenTrunkFront'', ''doorOpenTrunkRear'',
     ''windowOpenDriverFront'', ''windowOpenPassengerFront'', ''windowOpenDriverRear'',
     ''windowOpenPassengerRear'']"

section \<open>Properties\<close>



text \<open>
  A \<^verbatim>\<open>state closures\<close> reply is read exactly, whatever the vehicle's flags are and although the
  printed message omits the false ones: the lock, door, trunk and window readings are the flags the
  vehicle sent.
\<close>

theorem closures_reply_exact:
  fixes s :: status and now :: int
  assumes "parse text =
      Some (J_obj [(''closuresState'', protojson_flags (map (\<lambda>k. (k, g k)) closure_flag_names))])"
  defines "s' \<equiv> mergeClosuresState parse now s text"
  shows "locked s' = Some (g ''locked'')
    \<and> doorsOpen s' = (\<exists>d \<in> {''doorOpenDriverFront'', ''doorOpenDriverRear'',
          ''doorOpenPassengerFront'', ''doorOpenPassengerRear'', ''doorOpenTrunkFront'',
          ''doorOpenTrunkRear''}. g d)
    \<and> trunkFrontOpen s' = g ''doorOpenTrunkFront''
    \<and> trunkRearOpen s' = g ''doorOpenTrunkRear''
    \<and> windowsOpen s' = (\<exists>w \<in> {''windowOpenDriverFront'', ''windowOpenPassengerFront'',
          ''windowOpenDriverRear'', ''windowOpenPassengerRear''}. g w)"
proof -
  define obj where "obj = protojson_flags (map (\<lambda>k. (k, g k)) closure_flag_names)"
  have "truthy (js_fld obj k) = g k" if "k \<in> set closure_flag_names" for k
    unfolding obj_def by (rule js_fld_flags) (use that in \<open>auto simp: closure_flag_names_def\<close>)
  then have f: "\<forall>k \<in> set closure_flag_names. truthy (js_fld obj k) = g k" by blast
  have "parse_member parse text ''closuresState'' = Inr obj"
    using assms(1) by (simp add: parse_member_def js_parse_def js_or_def protojson_flags_def obj_def)
  then show ?thesis
    using f by (simp add: s'_def mergeClosuresState_def Let_def closure_flag_names_def)
qed

theorem closures_reply_exact_witness:
  "windowsOpen (mergeClosuresState
     (\<lambda>_. Some (J_obj [(''closuresState'',
        protojson_flags (map (\<lambda>k. (k, k = ''windowOpenDriverRear'')) closure_flag_names))]))
     7 emptyStatus [])"
  using closures_reply_exact [of "\<lambda>_. Some (J_obj [(''closuresState'',
        protojson_flags (map (\<lambda>k. (k, k = ''windowOpenDriverRear'')) closure_flag_names))])" "[]"
      "\<lambda>k. k = ''windowOpenDriverRear''" 7 emptyStatus]
  by simp

text \<open>
  The climate and the charge reply are independent: merging them in either order gives the same
  status up to the time of the last reading, whatever the two texts hold, malformed ones and a
  charging state of the wrong type included.
\<close>

theorem climate_charge_commute:
  "(mergeClimateState parse t1 (mergeChargeState parse t2 s a) b)\<lparr>updatedAt := u\<rparr>
   = (mergeChargeState parse t2 (mergeClimateState parse t1 s b) a)\<lparr>updatedAt := u\<rparr>"
  unfolding mergeClimateState_def mergeChargeState_def Let_def
  by (cases "parse_member parse b ''climateState''"; cases "parse_member parse a ''chargeState''";
      (simp; fail)?;
      cases "oneofVariantName (js_fld (projr (parse_member parse a ''chargeState'')) ''chargingState'')";
      simp)

text \<open>
  The VIN heuristic is the longest-prefix match of its table: an entry that matches and is not
  shorter than any other matching entry decides the model, so the order of the table's lines does
  not matter to the result, and a VIN no entry matches gives no model.
\<close>

theorem guess_model_longest_prefix:
  assumes "4 \<le> length vin" "(p, m) \<in> set vin_table" "prefix p (to_upper vin)"
    "\<forall>(q, n) \<in> set vin_table. prefix q (to_upper vin) \<longrightarrow> length q \<le> length p"
  shows "guessModel vin = m"
  using first_prefix_longest [OF shadow_free_vin_table assms(2-4)] assms(1)
  by (simp add: guessModel_def Let_def)

theorem guess_model_longest_prefix_witness:
  "guessModel ''lrwydef1234567890'' = ''modely''"
proof (rule guess_model_longest_prefix [of _ "''LRWY''"])
  show "4 \<le> length ''lrwydef1234567890''" by simp
  show "(''LRWY'', ''modely'') \<in> set vin_table" by (simp add: vin_table_def)
  show "prefix ''LRWY'' (to_upper ''lrwydef1234567890'')" by code_simp
  show "\<forall>(q, n) \<in> set vin_table. prefix q (to_upper ''lrwydef1234567890'')
      \<longrightarrow> length q \<le> length ''LRWY''"
    by code_simp
qed

end
