(* ===== verification/Command_Catalog.thy ===== *)
theory Command_Catalog
  imports Vehicle_State
begin

text \<open>
  The command catalogue, \<^verbatim>\<open>app/qml/js/CommandCatalog.js\<close>: the shape of an argument and of a
  command, the predicates that decide which half of a toggle pair is listed, and the nine categories
  with their commands.  Display strings are the source texts handed to \<^verbatim>\<open>qsTr\<close>.
\<close>

section \<open>Commands and arguments\<close>

datatype arg_type = AT_none | AT_int | AT_float | AT_string | AT_pin | AT_enum

record arg_spec =
  a_name :: string
  a_type :: arg_type
  a_min :: "rat option"
  a_max :: "rat option"
  a_step :: "rat option"
  a_unit :: string
  a_sendSuffix :: string
  a_def :: "js option"
  a_values :: "string list"
  a_optional :: bool
  a_hidden :: bool
  a_placeholder :: string
  a_stateDefault :: string

record command_def =
  c_id :: string
  c_label :: string
  c_args :: "arg_spec list"
  c_visibleWhen :: "(status \<Rightarrow> bool) option"

record category =
  cat_id :: string
  cat_title :: string
  cat_icon :: string
  cat_commands :: "command_def list"

text \<open>An options object holds only the members it names; the others are absent.\<close>

definition no_opts :: arg_spec where
  "no_opts = \<lparr>a_name = [], a_type = AT_none, a_min = None, a_max = None, a_step = None, a_unit = [],
     a_sendSuffix = [], a_def = None, a_values = [], a_optional = False, a_hidden = False,
     a_placeholder = [], a_stateDefault = []\<rparr>"

definition arg :: "string \<Rightarrow> arg_type \<Rightarrow> arg_spec \<Rightarrow> arg_spec" where
  "arg name type opts = opts\<lparr>a_name := name, a_type := type\<rparr>"

definition cmd :: "string \<Rightarrow> string \<Rightarrow> arg_spec list \<Rightarrow> (status \<Rightarrow> bool) option \<Rightarrow> command_def" where
  "cmd i label args visibleWhen =
    \<lparr>c_id = i, c_label = label, c_args = args, c_visibleWhen = visibleWhen\<rparr>"

definition j_rat :: "rat \<Rightarrow> js" where
  "j_rat q = J_num (F_Fin q)"

definition range_opts :: "rat \<Rightarrow> rat \<Rightarrow> arg_spec" where
  "range_opts lo hi = no_opts\<lparr>a_min := Some lo, a_max := Some hi\<rparr>"

definition values_opts :: "string list \<Rightarrow> arg_spec" where
  "values_opts vs = no_opts\<lparr>a_values := vs\<rparr>"

definition text_opts :: "string \<Rightarrow> arg_spec" where
  "text_opts p = no_opts\<lparr>a_placeholder := p\<rparr>"

section \<open>Visibility predicates\<close>

definition climateOn :: "status \<Rightarrow> bool" where
  "climateOn s = isClimateOn s"

definition climateOff :: "status \<Rightarrow> bool" where
  "climateOff s = (\<not> isClimateOn s)"

definition nearlyCharging :: "status \<Rightarrow> bool" where
  "nearlyCharging s =
    (chargingState s = ''Charging'' \<or> chargingState s = ''Starting''
     \<or> chargingState s = ''Calibrating'')"

definition charging :: "status \<Rightarrow> bool" where
  "charging s = nearlyCharging s"

definition notCharging :: "status \<Rightarrow> bool" where
  "notCharging s = (\<not> nearlyCharging s)"

definition portOpen :: "status \<Rightarrow> bool" where
  "portOpen s = chargePortOpen s"

definition portClosed :: "status \<Rightarrow> bool" where
  "portClosed s = (\<not> chargePortOpen s)"

definition lockedState :: "status \<Rightarrow> bool" where
  "lockedState s = (locked s \<noteq> Some False)"

definition unlockedState :: "status \<Rightarrow> bool" where
  "unlockedState s = (locked s = Some False)"

definition windows_open :: "status \<Rightarrow> bool" where
  "windows_open s = windowsOpen s"

definition windows_closed :: "status \<Rightarrow> bool" where
  "windows_closed s = (\<not> windowsOpen s)"

definition trunk_open :: "status \<Rightarrow> bool" where
  "trunk_open s = trunkRearOpen s"

definition trunk_closed :: "status \<Rightarrow> bool" where
  "trunk_closed s = (\<not> trunkRearOpen s)"

lemmas visibility_defs =
  climateOn_def climateOff_def charging_def notCharging_def portOpen_def portClosed_def
  lockedState_def unlockedState_def windows_open_def windows_closed_def trunk_open_def
  trunk_closed_def

section \<open>Shared argument lists\<close>

definition latitude_arg :: arg_spec where
  "latitude_arg = arg ''LATITUDE'' AT_float
     ((range_opts (- 90) 90)\<lparr>a_step := Some (1 / 1000000), a_def := Some (j_rat 0)\<rparr>)"

definition longitude_arg :: arg_spec where
  "longitude_arg = arg ''LONGITUDE'' AT_float
     ((range_opts (- 180) 180)\<lparr>a_step := Some (1 / 1000000), a_def := Some (j_rat 0)\<rparr>)"

definition chargeScheduleAddArgs :: "arg_spec list" where
  "chargeScheduleAddArgs =
    [arg ''DAYS'' AT_string (text_opts ''Mon,Tues,Wed''),
     arg ''TIME'' AT_string (text_opts ''22:00-06:00 (start or end may be blank)''),
     latitude_arg,
     longitude_arg,
     arg ''REPEAT'' AT_enum ((values_opts [''once''])\<lparr>a_optional := True\<rparr>),
     arg ''ID'' AT_none (no_opts\<lparr>a_optional := True, a_hidden := True\<rparr>),
     arg ''ENABLED'' AT_enum ((values_opts [''true'', ''false''])\<lparr>a_optional := True\<rparr>)]"

definition preconditionScheduleAddArgs :: "arg_spec list" where
  "preconditionScheduleAddArgs =
    [arg ''DAYS'' AT_string (text_opts ''Mon,Tues,Wed''),
     arg ''TIME'' AT_string (text_opts ''22:00''),
     latitude_arg,
     longitude_arg,
     arg ''REPEAT'' AT_enum ((values_opts [''once''])\<lparr>a_optional := True\<rparr>),
     arg ''ID'' AT_int
       ((text_opts ''leave blank for a new schedule'')\<lparr>a_optional := True\<rparr>),
     arg ''ENABLED'' AT_enum ((values_opts [''true'', ''false''])\<lparr>a_optional := True\<rparr>)]"

definition scheduleRemoveArgs :: "arg_spec list" where
  "scheduleRemoveArgs =
    [arg ''TYPE'' AT_enum (values_opts [''home'', ''work'', ''other'', ''id'']),
     arg ''ID'' AT_int ((text_opts ''required when TYPE is id'')\<lparr>a_optional := True\<rparr>)]"

definition state_arg :: arg_spec where
  "state_arg = arg ''STATE'' AT_enum (values_opts [''on'', ''off''])"

definition key_arg :: arg_spec where
  "key_arg = arg ''PUBLIC_KEY'' AT_string (text_opts ''path to public_key.pem'')"

section \<open>The categories\<close>

definition cat_attention :: category where
  "cat_attention = \<lparr>cat_id = ''attention'', cat_title = ''Attention'',
    cat_icon = ''../../img/icons/power.svg'',
    cat_commands =
     [cmd ''honk'' ''Honk Horn'' [] None,
      cmd ''flash-lights'' ''Flash Lights'' [] None,
      cmd ''wake'' ''Wake Vehicle'' [] None]\<rparr>"

definition cat_climate :: category where
  "cat_climate = \<lparr>cat_id = ''climate'', cat_title = ''Climate'',
    cat_icon = ''../../img/icons/fan1.svg'',
    cat_commands =
     [cmd ''climate-on'' ''Climate On'' [] (Some climateOff),
      cmd ''climate-off'' ''Climate Off'' [] (Some climateOn),
      cmd ''climate-set-temp'' ''Set Temperature''
        [arg ''TEMP'' AT_float
           ((range_opts 15 28)\<lparr>a_step := Some (1 / 2), a_unit := [CHR 0xC2, CHR 0xB0, CHR ''C''],
              a_sendSuffix := ''C'', a_def := Some (j_rat 21),
              a_stateDefault := ''driverTempSetting''\<rparr>)] None,
      cmd ''seat-heater'' ''Seat Heater''
        [arg ''SEAT'' AT_enum (values_opts [''front-left'', ''front-right'', ''2nd-row-left'',
           ''2nd-row-center'', ''2nd-row-right'', ''3rd-row-left'', ''3rd-row-right'']),
         arg ''LEVEL'' AT_enum (values_opts [''off'', ''low'', ''medium'', ''high''])] None,
      cmd ''steering-wheel-heater'' ''Steering Wheel Heater'' [state_arg] None,
      cmd ''auto-seat-and-climate'' ''Auto Seat & Climate''
        [arg ''POSITIONS'' AT_enum (values_opts [''L'', ''R'', ''LR'']),
         state_arg\<lparr>a_optional := True\<rparr>] None,
      cmd ''precondition-schedule-add'' ''Add Preconditioning Schedule''
        preconditionScheduleAddArgs None,
      cmd ''precondition-schedule-remove'' ''Remove Preconditioning Schedule''
        scheduleRemoveArgs None]\<rparr>"

definition cat_charging :: category where
  "cat_charging = \<lparr>cat_id = ''charging'', cat_title = ''Charging'',
    cat_icon = ''../../img/icons/bolt.svg'',
    cat_commands =
     [cmd ''charging-start'' ''Start Charging'' [] (Some notCharging),
      cmd ''charging-stop'' ''Stop Charging'' [] (Some charging),
      cmd ''charge-port-open'' ''Open Charge Port'' [] (Some portClosed),
      cmd ''charge-port-close'' ''Close Charge Port'' [] (Some portOpen),
      cmd ''charging-set-limit'' ''Set Charge Limit''
        [arg ''PERCENT'' AT_int
           ((range_opts 50 100)\<lparr>a_unit := ''%'', a_def := Some (j_rat 80),
              a_stateDefault := ''chargeLimitSoc''\<rparr>)] None,
      cmd ''charging-set-amps'' ''Set Charge Current''
        [arg ''AMPS'' AT_int
           ((range_opts 1 48)\<lparr>a_unit := ''A'', a_def := Some (j_rat 16),
              a_stateDefault := ''chargeCurrent''\<rparr>)] None,
      cmd ''charging-schedule'' ''Schedule Charging''
        [arg ''MINS'' AT_int
           ((range_opts 0 1439)\<lparr>a_unit := ''min after midnight'', a_def := Some (j_rat 0)\<rparr>)] None,
      cmd ''charging-schedule-cancel'' ''Cancel Scheduled Charging'' [] None,
      cmd ''charging-schedule-add'' ''Add Charge Schedule'' chargeScheduleAddArgs None,
      cmd ''charging-schedule-remove'' ''Remove Charge Schedule'' scheduleRemoveArgs None]\<rparr>"

definition cat_security :: category where
  "cat_security = \<lparr>cat_id = ''security'', cat_title = ''Locks & Security'',
    cat_icon = ''../../img/icons/security.svg'',
    cat_commands =
     [cmd ''lock'' ''Lock'' [] (Some unlockedState),
      cmd ''unlock'' ''Unlock'' [] (Some lockedState),
      cmd ''drive'' ''Remote Start (Keyless Drive)'' [] None,
      cmd ''sentry-mode'' ''Sentry Mode'' [state_arg] None,
      cmd ''valet-mode-on'' ''Valet Mode On'' [arg ''PIN'' AT_pin no_opts] None,
      cmd ''valet-mode-off'' ''Valet Mode Off'' [] None,
      cmd ''guest-mode-on'' ''Guest Mode On'' [] None,
      cmd ''guest-mode-off'' ''Guest Mode Off'' [] None,
      cmd ''erase-guest-data'' ''Erase Guest Data'' [] None,
      cmd ''autosecure-modelx'' ''Auto-Secure (Model X)'' [] None]\<rparr>"

definition cat_body :: category where
  "cat_body = \<lparr>cat_id = ''body'', cat_title = ''Trunk, Frunk & Windows'',
    cat_icon = ''../../img/icons/window.svg'',
    cat_commands =
     [cmd ''trunk-open'' ''Open Rear Trunk'' [] (Some trunk_closed),
      cmd ''trunk-move'' ''Move Rear Trunk'' [] None,
      cmd ''trunk-close'' ''Close Rear Trunk'' [] (Some trunk_open),
      cmd ''frunk-open'' ''Open Front Trunk'' [] None,
      cmd ''tonneau-open'' ''Open Tonneau (Cybertruck)'' [] None,
      cmd ''tonneau-close'' ''Close Tonneau (Cybertruck)'' [] None,
      cmd ''tonneau-stop'' ''Stop Tonneau (Cybertruck)'' [] None,
      cmd ''windows-vent'' ''Vent Windows'' [] (Some windows_closed),
      cmd ''windows-close'' ''Close Windows'' [] (Some windows_open)]\<rparr>"

definition cat_media :: category where
  "cat_media = \<lparr>cat_id = ''media'', cat_title = ''Media'',
    cat_icon = ''../../img/icons/navigation.svg'',
    cat_commands =
     [cmd ''media-toggle-playback'' ''Play / Pause'' [] None,
      cmd ''media-next-track'' ''Next Track'' [] None,
      cmd ''media-previous-track'' ''Previous Track'' [] None,
      cmd ''media-next-favorite'' ''Next Favorite'' [] None,
      cmd ''media-previous-favorite'' ''Previous Favorite'' [] None,
      cmd ''media-volume-up'' ''Volume Up'' [] None,
      cmd ''media-volume-down'' ''Volume Down'' [] None,
      cmd ''media-set-volume'' ''Set Volume''
        [arg ''VOLUME'' AT_float
           ((range_opts 0 10)\<lparr>a_step := Some (1 / 2), a_def := Some (j_rat 5)\<rparr>)] None]\<rparr>"

definition cat_software :: category where
  "cat_software = \<lparr>cat_id = ''software'', cat_title = ''Software'',
    cat_icon = ''../../img/icons/upgrades.svg'',
    cat_commands =
     [cmd ''software-update-start'' ''Start Software Update''
        [arg ''DELAY'' AT_int
           ((range_opts 0 3600)\<lparr>a_unit := ''s'', a_sendSuffix := ''s'',
              a_def := Some (j_rat 0)\<rparr>)] None,
      cmd ''software-update-cancel'' ''Cancel Software Update'' [] None]\<rparr>"

definition cat_keys :: category where
  "cat_keys = \<lparr>cat_id = ''keys'', cat_title = ''Keys'',
    cat_icon = ''../../img/icons/lock.svg'',
    cat_commands =
     [cmd ''list-keys'' ''List Enrolled Keys'' [] None,
      cmd ''add-key'' ''Add Key''
        [key_arg,
         arg ''ROLE'' AT_enum (values_opts [''owner'', ''driver'']),
         arg ''FORM_FACTOR'' AT_enum
           (values_opts [''nfc_card'', ''ios_device'', ''android_device'', ''cloud_key''])] None,
      cmd ''remove-key'' ''Remove Key'' [key_arg] None,
      cmd ''session-info'' ''Session Info''
        [key_arg, arg ''DOMAIN'' AT_enum (values_opts [''vcsec'', ''infotainment''])] None]\<rparr>"

definition cat_diagnostics :: category where
  "cat_diagnostics = \<lparr>cat_id = ''diagnostics'', cat_title = ''Diagnostics'',
    cat_icon = ''../../img/icons/service.svg'',
    cat_commands =
     [cmd ''ping'' ''Ping Vehicle'' [] None,
      cmd ''state'' ''Get Vehicle State''
        [arg ''CATEGORY'' AT_enum (values_opts [''charge'', ''climate'', ''drive'', ''location'',
           ''closures'', ''charge-schedule'', ''precondition-schedule'', ''tire-pressure'',
           ''media'', ''media-detail'', ''software-update'', ''parental-controls''])] None,
      cmd ''body-controller-state'' ''Body Controller State'' [] None,
      cmd ''keep-accessory-power'' ''Keep Accessory Power'' [state_arg] None,
      cmd ''low-power-mode'' ''Low Power Mode'' [state_arg] None]\<rparr>"

definition CATEGORIES :: "category list" where
  "CATEGORIES = [cat_attention, cat_climate, cat_charging, cat_security, cat_body, cat_media,
                 cat_software, cat_keys, cat_diagnostics]"

definition findCategory :: "string \<Rightarrow> category option" where
  "findCategory i = find (\<lambda>c. cat_id c = i) CATEGORIES"

end
