(* ===== verification/Argument_Form.thy ===== *)
theory Argument_Form
  imports Command_Catalog
begin

text \<open>
  The category page and its argument form: \<^verbatim>\<open>app/qml/pages/CategoryPage.qml\<close> (which commands are
  listed, how an argument's default is seeded from the last reading, how a reply is matched to the
  request) and \<^verbatim>\<open>app/qml/pages/ArgumentDialog.qml\<close> (the field each argument gets, its first value,
  the edits, the validity of the form and the argument list it hands on).  ECMAScript's
  \<^verbatim>\<open>String(v)\<close>, and its \<^verbatim>\<open>ToNumber\<close> on strings and objects, belong to the script engine and are
  the parameters \<^verbatim>\<open>to_str\<close> and \<^verbatim>\<open>to_num\<close>.
\<close>

section \<open>Listing the commands of a category\<close>

definition commandVisible :: "status option \<Rightarrow> command_def \<Rightarrow> bool" where
  "commandVisible vs c =
    (case vs of
       None \<Rightarrow> True
     | Some s \<Rightarrow> (case c_visibleWhen c of None \<Rightarrow> True | Some p \<Rightarrow> p s))"

definition visibleCommands :: "status option \<Rightarrow> category \<Rightarrow> command_def list" where
  "visibleCommands vs cat = filter (commandVisible vs) (cat_commands cat)"

section \<open>Defaults from the last reading\<close>

definition status_field :: "status \<Rightarrow> string \<Rightarrow> js" where
  "status_field s k =
    (if k = ''locked'' then (case locked s of None \<Rightarrow> J_null | Some b \<Rightarrow> J_bool b)
     else if k = ''doorsOpen'' then J_bool (doorsOpen s)
     else if k = ''trunkFrontOpen'' then J_bool (trunkFrontOpen s)
     else if k = ''trunkRearOpen'' then J_bool (trunkRearOpen s)
     else if k = ''windowsOpen'' then J_bool (windowsOpen s)
     else if k = ''insideTemp'' then insideTemp s
     else if k = ''outsideTemp'' then outsideTemp s
     else if k = ''isClimateOn'' then J_bool (isClimateOn s)
     else if k = ''driverTempSetting'' then driverTempSetting s
     else if k = ''batteryLevel'' then batteryLevel s
     else if k = ''chargingState'' then J_str (chargingState s)
     else if k = ''chargePortOpen'' then J_bool (chargePortOpen s)
     else if k = ''minutesToFullCharge'' then minutesToFullCharge s
     else if k = ''chargeLimitSoc'' then chargeLimitSoc s
     else if k = ''chargeCurrent'' then chargeCurrent s
     else if k = ''updatedAt'' then j_rat (of_int (updatedAt s))
     else J_undef)"

definition js_number :: "(js \<Rightarrow> f64) \<Rightarrow> js \<Rightarrow> f64" where
  "js_number to_num v =
    (case v of
       J_num x \<Rightarrow> x
     | J_bool b \<Rightarrow> F_Fin (if b then 1 else 0)
     | J_null \<Rightarrow> F_Fin 0
     | J_undef \<Rightarrow> F_NaN
     | _ \<Rightarrow> to_num v)"

definition in_arg_range :: "f64 \<Rightarrow> arg_spec \<Rightarrow> bool" where
  "in_arg_range x a =
    ((case a_min a of None \<Rightarrow> True | Some lo \<Rightarrow> f64_le (F_Fin lo) x)
     \<and> (case a_max a of None \<Rightarrow> True | Some hi \<Rightarrow> f64_le x (F_Fin hi)))"

definition seed_arg :: "(js \<Rightarrow> f64) \<Rightarrow> status \<Rightarrow> arg_spec \<Rightarrow> arg_spec" where
  "seed_arg to_num s a =
    (let cur = status_field s (a_stateDefault a)
     in if a_stateDefault a \<noteq> [] \<and> cur \<noteq> J_undef \<and> cur \<noteq> J_null
           \<and> in_arg_range (js_number to_num cur) a
        then a\<lparr>a_def := Some cur\<rparr> else a)"

definition commandWithStateDefaults ::
    "(js \<Rightarrow> f64) \<Rightarrow> status option \<Rightarrow> command_def \<Rightarrow> command_def" where
  "commandWithStateDefaults to_num vs c =
    (case vs of
       None \<Rightarrow> c
     | Some s \<Rightarrow> if c_args c = [] then c else c\<lparr>c_args := map (seed_arg to_num s) (c_args c)\<rparr>)"

section \<open>The fields of the form\<close>

datatype field = Enum_field | Pin_field | Slider_field | Text_field

definition field_of :: "arg_spec \<Rightarrow> field" where
  "field_of a =
    (if a_type a = AT_enum then Enum_field
     else if a_type a = AT_pin then Pin_field
     else if (a_type a = AT_int \<or> a_type a = AT_float)
             \<and> a_min a \<noteq> None \<and> a_max a \<noteq> None \<and> \<not> a_optional a then Slider_field
     else Text_field)"

definition choices :: "arg_spec \<Rightarrow> string list" where
  "choices a = (if a_optional a then [] # a_values a else a_values a)"

text \<open>The value \<^verbatim>\<open>onLoaded\<close> gives an argument; a hidden one is never loaded.\<close>

definition loaded_value :: "(js \<Rightarrow> string) \<Rightarrow> arg_spec \<Rightarrow> string option" where
  "loaded_value to_str a =
    (if a_hidden a then None
     else
       let v = (if a_type a = AT_enum \<and> \<not> a_optional a \<and> a_values a \<noteq> [] then hd (a_values a)
                else case a_def a of
                       Some d \<Rightarrow> to_str d
                     | None \<Rightarrow> (case a_min a of
                                 Some lo \<Rightarrow> if \<not> a_optional a then to_str (j_rat lo) else []
                               | None \<Rightarrow> []))
       in Some (if \<not> a_optional a \<and> (a_type a = AT_int \<or> a_type a = AT_float)
                then v @ a_sendSuffix a else v))"

text \<open>What the user can do to a field, by its kind.\<close>

datatype edit = Pick nat | Type string | Slide f64

definition edit_value :: "(js \<Rightarrow> string) \<Rightarrow> arg_spec \<Rightarrow> edit \<Rightarrow> string option \<Rightarrow> string option" where
  "edit_value to_str a e v =
    (if a_hidden a then v
     else case (field_of a, e) of
       (Enum_field, Pick i) \<Rightarrow> if i < length (choices a) then Some (choices a ! i) else v
     | (Pin_field, Type t) \<Rightarrow> Some t
     | (Text_field, Type t) \<Rightarrow> Some t
     | (Slider_field, Slide x) \<Rightarrow> Some (to_str (J_num x) @ a_sendSuffix a)
     | _ \<Rightarrow> v)"

type_synonym form = "(arg_spec \<times> string option) list"

definition open_form :: "(js \<Rightarrow> string) \<Rightarrow> command_def \<Rightarrow> form" where
  "open_form to_str c = map (\<lambda>a. (a, loaded_value to_str a)) (c_args c)"

definition edit_form :: "(js \<Rightarrow> string) \<Rightarrow> nat \<times> edit \<Rightarrow> form \<Rightarrow> form" where
  "edit_form to_str ie f =
    (case ie of (i, e) \<Rightarrow>
       if i < length f then f[i := (fst (f ! i), edit_value to_str (fst (f ! i)) e (snd (f ! i)))]
       else f)"

definition run_edits :: "(js \<Rightarrow> string) \<Rightarrow> (nat \<times> edit) list \<Rightarrow> form \<Rightarrow> form" where
  "run_edits to_str es f = fold (edit_form to_str) es f"

definition formValid :: "form \<Rightarrow> bool" where
  "formValid f = list_all (\<lambda>(a, v). a_optional a \<or> (v \<noteq> None \<and> v \<noteq> Some [])) f"

definition field_out :: "string option \<Rightarrow> string" where
  "field_out v = (case v of None \<Rightarrow> [] | Some t \<Rightarrow> t)"

text \<open>Popping the trailing empty optional values, walking both lists from the end.\<close>

fun pop_trailing :: "(arg_spec \<times> string) list \<Rightarrow> (arg_spec \<times> string) list" where
  "pop_trailing [] = []"
| "pop_trailing ((a, v) # r) = (if a_optional a \<and> v = [] then pop_trailing r else (a, v) # r)"

definition accepted_values :: "form \<Rightarrow> string list" where
  "accepted_values f =
    map snd (rev (pop_trailing (rev (map (\<lambda>(a, v). (a, field_out v)) f))))"

section \<open>Requests of the category page\<close>

record cat_page =
  pendingCmd :: string
  pendingLabel :: string
  lastResult :: string
  lastOk :: bool
  requestSeq :: nat

record request =
  q_id :: string
  q_cmd :: string
  q_args :: "string list"

definition new_cat_page :: cat_page where
  "new_cat_page = \<lparr>pendingCmd = [], pendingLabel = [], lastResult = [], lastOk = True,
     requestSeq = 0\<rparr>"

definition page_execute ::
    "int \<Rightarrow> command_def \<Rightarrow> string list \<Rightarrow> cat_page \<Rightarrow> cat_page \<times> request" where
  "page_execute now c args p =
    (let n = requestSeq p + 1;
         i = c_id c @ ''#'' @ nat_digits n @ ''@'' @ int_str now
     in (p\<lparr>requestSeq := n, pendingCmd := i, pendingLabel := c_id c, lastResult := []\<rparr>,
         \<lparr>q_id = i, q_cmd = c_id c, q_args = args\<rparr>))"

definition page_finished ::
    "string \<Rightarrow> bool \<Rightarrow> int \<Rightarrow> string \<Rightarrow> string \<Rightarrow> cat_page \<Rightarrow> cat_page" where
  "page_finished rid ok code out err p =
    (if rid \<noteq> pendingCmd p then p
     else p\<lparr>pendingCmd := [], lastOk := ok,
            lastResult := (if ok then (if 0 < length out then out else ''OK'')
                           else if 0 < length err then err
                           else ''exit code '' @ int_str code)\<rparr>)"

definition page_error :: "string \<Rightarrow> string \<Rightarrow> cat_page \<Rightarrow> cat_page" where
  "page_error rid msg p =
    (if rid \<noteq> pendingCmd p then p
     else p\<lparr>pendingCmd := [], lastOk := False, lastResult := msg\<rparr>)"

section \<open>Lemmas: visibility\<close>

definition cmd_ids :: "command_def list \<Rightarrow> string list" where
  "cmd_ids cs = map c_id cs"

text \<open>The toggle pairs: category, the action offered while inactive, while active, the state.\<close>

definition toggle_pairs :: "(category \<times> string \<times> string \<times> (status \<Rightarrow> bool)) list" where
  "toggle_pairs =
    [(cat_climate, ''climate-on'', ''climate-off'', isClimateOn),
     (cat_charging, ''charging-start'', ''charging-stop'', nearlyCharging),
     (cat_charging, ''charge-port-open'', ''charge-port-close'', chargePortOpen),
     (cat_security, ''unlock'', ''lock'', \<lambda>s. locked s = Some False),
     (cat_body, ''trunk-open'', ''trunk-close'', trunkRearOpen),
     (cat_body, ''windows-vent'', ''windows-close'', windowsOpen)]"

lemmas cat_defs =
  cat_attention_def cat_climate_def cat_charging_def cat_security_def cat_body_def cat_media_def
  cat_software_def cat_keys_def cat_diagnostics_def

lemma visible_ids:
  "i \<in> set (cmd_ids (visibleCommands vs cat)) \<longleftrightarrow>
   (\<exists>c \<in> set (cat_commands cat). c_id c = i \<and> commandVisible vs c)"
  by (auto simp: cmd_ids_def visibleCommands_def)

lemma untoggled_visible: "c_visibleWhen c = None \<Longrightarrow> commandVisible vs c"
  by (simp add: commandVisible_def split: option.splits)

lemma category_has_untoggled [table_simps]:
  "\<forall>cat \<in> set CATEGORIES. \<exists>c \<in> set (cat_commands cat). c_visibleWhen c = None"
  by (simp add: CATEGORIES_def cat_defs cmd_def)

section \<open>Lemmas: the form\<close>

definition wf_arg :: "(js \<Rightarrow> f64) \<Rightarrow> arg_spec \<Rightarrow> bool" where
  "wf_arg to_num a =
    (field_of a = Slider_field \<longrightarrow>
       (\<exists>d. a_def a = Some d \<and> in_arg_range (js_number to_num d) a))"

lemma seed_arg_same [simp]:
  "a_name (seed_arg n s a) = a_name a" "a_type (seed_arg n s a) = a_type a"
  "a_min (seed_arg n s a) = a_min a" "a_max (seed_arg n s a) = a_max a"
  "a_optional (seed_arg n s a) = a_optional a" "a_hidden (seed_arg n s a) = a_hidden a"
  "a_values (seed_arg n s a) = a_values a" "a_sendSuffix (seed_arg n s a) = a_sendSuffix a"
  "field_of (seed_arg n s a) = field_of a" "choices (seed_arg n s a) = choices a"
  by (simp_all add: seed_arg_def Let_def field_of_def choices_def)

lemma in_arg_range_seed [simp]: "in_arg_range x (seed_arg n s a) = in_arg_range x a"
  by (simp add: in_arg_range_def)

lemma wf_arg_seed: "wf_arg n a \<Longrightarrow> wf_arg n (seed_arg n s a)"
  by (auto simp: wf_arg_def seed_arg_def Let_def field_of_def in_arg_range_def)

definition catalog_commands :: "command_def list" where
  "catalog_commands = concat (map cat_commands CATEGORIES)"

definition arg_in_order :: "arg_spec \<Rightarrow> bool" where
  "arg_in_order a =
    ((field_of a = Slider_field \<longrightarrow>
        (case a_def a of Some (J_num x) \<Rightarrow> in_arg_range x a | _ \<Rightarrow> False))
     \<and> (field_of a = Enum_field \<longrightarrow> a_values a \<noteq> [] \<and> a_def a = None \<and> a_stateDefault a = []
          \<and> [] \<notin> set (a_values a))
     \<and> (a_hidden a \<longrightarrow> a_optional a))"

lemma catalog_args_in_order [table_simps]:
  "list_all (\<lambda>c. list_all arg_in_order (c_args c)) catalog_commands"
  by code_simp

lemma wf_arg_in_order: "arg_in_order a \<Longrightarrow> wf_arg n a"
  by (auto simp: arg_in_order_def wf_arg_def js_number_def split: option.splits js.splits)

lemma catalog_arg: "c \<in> set catalog_commands \<Longrightarrow> a \<in> set (c_args c) \<Longrightarrow> arg_in_order a"
  using catalog_args_in_order by (auto simp: list_all_iff)

text \<open>What holds of a field's value at any time the form is open.\<close>

definition field_inv :: "(js \<Rightarrow> f64) \<Rightarrow> (js \<Rightarrow> string) \<Rightarrow> arg_spec \<Rightarrow> string option \<Rightarrow> bool" where
  "field_inv to_num to_str a v =
    (if a_hidden a then v = None
     else case field_of a of
       Enum_field \<Rightarrow> (\<exists>x \<in> set (choices a). v = Some x)
     | Slider_field \<Rightarrow>
         (\<exists>d. in_arg_range (js_number to_num d) a \<and> v = Some (to_str d @ a_sendSuffix a))
     | _ \<Rightarrow> v \<noteq> None)"

definition legal_edit :: "form \<Rightarrow> nat \<times> edit \<Rightarrow> bool" where
  "legal_edit f ie =
    (case ie of (i, Slide x) \<Rightarrow> i < length f \<longrightarrow> in_arg_range x (fst (f ! i)) | _ \<Rightarrow> True)"

definition ready_arg :: "(js \<Rightarrow> f64) \<Rightarrow> arg_spec \<Rightarrow> bool" where
  "ready_arg to_num a =
    (wf_arg to_num a \<and> (field_of a = Enum_field \<longrightarrow> a_values a \<noteq> [] \<and> a_def a = None))"

lemma ready_arg_in_order: "arg_in_order a \<Longrightarrow> ready_arg n a"
  using wf_arg_in_order by (auto simp: ready_arg_def arg_in_order_def)

lemma ready_arg_seed: "arg_in_order a \<Longrightarrow> ready_arg n (seed_arg n s a)"
  using wf_arg_seed [OF wf_arg_in_order]
  by (auto simp: ready_arg_def) (auto simp: arg_in_order_def seed_arg_def Let_def)

lemma field_inv_loaded:
  assumes "ready_arg n a" shows "field_inv n t a (loaded_value t a)"
proof (cases "field_of a")
  case Enum_field
  then have "a_type a = AT_enum" by (auto simp: field_of_def split: if_splits)
  with Enum_field assms show ?thesis
    by (cases "a_min a") (auto simp: field_inv_def loaded_value_def choices_def ready_arg_def)
next
  case Slider_field
  then have "a_type a = AT_int \<or> a_type a = AT_float" "\<not> a_optional a"
    by (auto simp: field_of_def split: if_splits)
  with Slider_field assms show ?thesis
    by (auto simp: field_inv_def loaded_value_def Let_def wf_arg_def ready_arg_def)
qed (simp_all add: field_inv_def loaded_value_def Let_def)

lemma field_inv_edit:
  assumes "field_inv n t a v" "\<And>x. e = Slide x \<Longrightarrow> in_arg_range x a"
  shows "field_inv n t a (edit_value t a e v)"
proof (cases "a_hidden a")
  case False
  have "\<exists>d. in_arg_range (js_number n d) a \<and> t (J_num x) @ a_sendSuffix a = t d @ a_sendSuffix a"
    if "e = Slide x" for x
    using assms(2) [OF that] by (intro exI [of _ "J_num x"]) (simp add: js_number_def)
  then show ?thesis using assms(1) False
    by (cases "field_of a"; cases e) (auto simp: field_inv_def edit_value_def)
qed (use assms in \<open>simp add: field_inv_def edit_value_def\<close>)

definition form_inv :: "(js \<Rightarrow> f64) \<Rightarrow> (js \<Rightarrow> string) \<Rightarrow> form \<Rightarrow> bool" where
  "form_inv to_num to_str f = list_all (\<lambda>(a, v). field_inv to_num to_str a v) f"

lemma edit_form_shape [simp]: "map fst (edit_form t ie f) = map fst f"
  by (cases ie) (auto simp: edit_form_def map_update list_update_same_conv)

lemma form_inv_edit [inv_intros]:
  assumes "form_inv n t f" "legal_edit f ie" shows "form_inv n t (edit_form t ie f)"
proof (cases ie)
  case (Pair i e)
  show ?thesis
  proof (cases "i < length f")
    case True
    have "field_inv n t (fst (f ! i)) (edit_value t (fst (f ! i)) e (snd (f ! i)))"
    proof (rule field_inv_edit)
      show "field_inv n t (fst (f ! i)) (snd (f ! i))"
        using assms(1) True by (force simp: form_inv_def list_all_length split: prod.splits)
      show "in_arg_range x (fst (f ! i))" if "e = Slide x" for x
        using assms(2) True that Pair by (simp add: legal_edit_def)
    qed
    then show ?thesis using assms(1) True Pair
      by (auto simp: form_inv_def edit_form_def list_all_length nth_list_update)
  qed (use assms Pair in \<open>simp add: edit_form_def\<close>)
qed

fun legal_edits :: "(js \<Rightarrow> string) \<Rightarrow> form \<Rightarrow> (nat \<times> edit) list \<Rightarrow> bool" where
  "legal_edits t f [] = True"
| "legal_edits t f (e # es) = (legal_edit f e \<and> legal_edits t (edit_form t e f) es)"

lemma run_edits_shape: "map fst (run_edits t es f) = map fst f"
  by (induction es arbitrary: f) (simp_all add: run_edits_def)

lemma form_inv_run:
  "form_inv n t f \<Longrightarrow> legal_edits t f es \<Longrightarrow> form_inv n t (run_edits t es f)"
  by (induction es arbitrary: f) (auto simp: run_edits_def intro: form_inv_edit)

lemma seeded_args_ready:
  assumes "c \<in> set catalog_commands" "a \<in> set (c_args (commandWithStateDefaults n vs c))"
  shows "ready_arg n a"
  using assms catalog_arg ready_arg_in_order ready_arg_seed
  by (fastforce simp: commandWithStateDefaults_def split: option.splits if_splits)

lemma form_inv_open:
  assumes "c \<in> set catalog_commands"
  shows "form_inv n t (open_form t (commandWithStateDefaults n vs c))"
  using seeded_args_ready [OF assms] field_inv_loaded
  by (fastforce simp: form_inv_def open_form_def list_all_iff)

section \<open>Lemmas: the accepted values\<close>

lemma pop_trailing_split:
  "\<exists>ps. xs = ps @ pop_trailing xs \<and> list_all (\<lambda>(a, v). a_optional a \<and> v = []) ps"
proof (induction xs rule: pop_trailing.induct)
  case (2 a v r)
  show ?case
  proof (cases "a_optional a \<and> v = []")
    case True
    then obtain ps where "r = ps @ pop_trailing r" "list_all (\<lambda>(a, v). a_optional a \<and> v = []) ps"
      using 2 by blast
    then show ?thesis using True by (intro exI [of _ "(a, v) # ps"]) auto
  next
    case False
    then show ?thesis by (intro exI [of _ "[]"]) auto
  qed
qed simp

lemma pop_trailing_hd:
  "pop_trailing xs \<noteq> [] \<Longrightarrow> \<not> (a_optional (fst (hd (pop_trailing xs))) \<and> snd (hd (pop_trailing xs)) = [])"
  by (induction xs rule: pop_trailing.induct) (auto split: if_splits)

definition form_outputs :: "form \<Rightarrow> (arg_spec \<times> string) list" where
  "form_outputs f = map (\<lambda>(a, v). (a, field_out v)) f"

lemma accepted_split:
  obtains qs where "map snd (form_outputs f) = accepted_values f @ map snd qs"
    "form_outputs f = rev (pop_trailing (rev (form_outputs f))) @ qs"
    "list_all (\<lambda>(a, v). a_optional a \<and> v = []) qs"
proof -
  let ?o = "form_outputs f"
  obtain ps where ps: "rev ?o = ps @ pop_trailing (rev ?o)"
    "list_all (\<lambda>(a, v). a_optional a \<and> v = []) ps"
    using pop_trailing_split by blast
  then have *: "?o = rev (pop_trailing (rev ?o)) @ rev ps" by (metis rev_append rev_rev_ident)
  have "accepted_values f = map snd (rev (pop_trailing (rev ?o)))"
    by (simp only: accepted_values_def form_outputs_def)
  then have "map snd ?o = accepted_values f @ map snd (rev ps)" using * by (metis map_append)
  with * ps(2) show thesis by (intro that [of "rev ps"]) auto
qed

lemma form_outputs_nth: "i < length f \<Longrightarrow> form_outputs f ! i = (fst (f ! i), field_out (snd (f ! i)))"
  by (simp add: form_outputs_def split: prod.splits)

lemma accepted_nth:
  assumes "i < length f"
  shows "if i < length (accepted_values f) then accepted_values f ! i = field_out (snd (f ! i))
         else a_optional (fst (f ! i)) \<and> field_out (snd (f ! i)) = []"
proof -
  obtain qs where qs: "map snd (form_outputs f) = accepted_values f @ map snd qs"
    "form_outputs f = rev (pop_trailing (rev (form_outputs f))) @ qs"
    "list_all (\<lambda>(a, v). a_optional a \<and> v = []) qs"
    by (rule accepted_split)
  let ?k = "length (accepted_values f)"
  have len: "length (form_outputs f) = length f" by (simp add: form_outputs_def)
  have k: "length (rev (pop_trailing (rev (form_outputs f)))) = ?k"
    by (simp add: accepted_values_def form_outputs_def)
  show ?thesis
  proof (cases "i < ?k")
    case True
    have "accepted_values f ! i = map snd (form_outputs f) ! i" using True qs(1) by (simp add: nth_append)
    then show ?thesis using True assms len by (simp add: form_outputs_nth)
  next
    case False
    then have "form_outputs f ! i = qs ! (i - ?k)" using qs(2) k by (metis nth_append)
    moreover have "i - ?k < length qs" using False assms len qs(2) k by (metis add_diff_inverse_nat length_append nat_add_left_cancel_less)
    ultimately show ?thesis using False qs(3) assms by (auto simp: list_all_length form_outputs_nth)
  qed
qed


section \<open>Properties\<close>

text \<open>
  For every vehicle status and every toggle pair (climate, charging, charge port, lock, trunk,
  windows) the category page lists exactly one of the two actions, the one that leaves the current
  state, with the unknown lock state read as locked.
\<close>

theorem toggle_one_visible:
  "\<forall>(cat, start, stop, active) \<in> set toggle_pairs.
     (start \<in> set (cmd_ids (visibleCommands (Some s) cat)) \<longleftrightarrow> \<not> active s)
     \<and> (stop \<in> set (cmd_ids (visibleCommands (Some s) cat)) \<longleftrightarrow> active s)"
  by (simp add: toggle_pairs_def visible_ids cat_climate_def cat_charging_def cat_security_def
      cat_body_def cmd_def commandVisible_def visibility_defs)

theorem toggle_one_visible_witness:
  "''lock'' \<in> set (cmd_ids (visibleCommands (Some (emptyStatus\<lparr>locked := Some False\<rparr>)) cat_security))
   \<and> ''unlock'' \<notin> set (cmd_ids (visibleCommands (Some (emptyStatus\<lparr>locked := Some False\<rparr>)) cat_security))"
  using toggle_one_visible [of "emptyStatus\<lparr>locked := Some False\<rparr>"]
  by (simp add: toggle_pairs_def)

text \<open>
  Whatever the last reading is, no category is shown empty, and with no reading at all every
  command of it is shown.
\<close>

theorem category_never_empty:
  assumes "findCategory i = Some cat"
  shows "visibleCommands vs cat \<noteq> [] \<and> visibleCommands None cat = cat_commands cat"
proof -
  have "cat \<in> set CATEGORIES" using assms by (auto simp: findCategory_def dest: find_mem)
  then obtain c where "c \<in> set (cat_commands cat)" "c_visibleWhen c = None"
    using category_has_untoggled by blast
  then have "c \<in> set (visibleCommands vs cat)"
    by (simp add: visibleCommands_def untoggled_visible)
  then have "visibleCommands vs cat \<noteq> []" by (metis empty_iff set_empty)
  then show ?thesis by (simp add: visibleCommands_def commandVisible_def)
qed

theorem category_never_empty_witness:
  "visibleCommands (Some emptyStatus) cat_media \<noteq> []"
proof -
  have "findCategory ''media'' = Some cat_media"
    by (simp add: findCategory_def CATEGORIES_def cat_defs)
  then show ?thesis using category_never_empty [of "''media''" cat_media "Some emptyStatus"] by simp
qed

text \<open>
  The form hands on every value at its argument's position.  The accepted list is the list of
  field values with only trailing values removed, all of them empty and of optional arguments; and
  when the form is valid no required argument is missing or empty.
\<close>

theorem form_positions_kept:
  assumes "i < length f"
  shows "(i < length (accepted_values f) \<longrightarrow> accepted_values f ! i = field_out (snd (f ! i)))
    \<and> (length (accepted_values f) \<le> i \<longrightarrow> a_optional (fst (f ! i)) \<and> field_out (snd (f ! i)) = [])
    \<and> (formValid f \<longrightarrow> \<not> a_optional (fst (f ! i)) \<longrightarrow>
         i < length (accepted_values f) \<and> accepted_values f ! i \<noteq> [])"
proof -
  have v: "snd (f ! i) \<noteq> None \<and> snd (f ! i) \<noteq> Some []"
    if "formValid f" "\<not> a_optional (fst (f ! i))"
    using that assms unfolding formValid_def list_all_length case_prod_beta by blast
  show ?thesis
    using accepted_nth [OF assms] v by (auto simp: field_out_def split: if_splits option.splits)
qed

theorem form_positions_kept_witness:
  "accepted_values [(arg ''TYPE'' AT_enum (values_opts [''home'']), Some ''home''),
                    (arg ''ID'' AT_int (no_opts\<lparr>a_optional := True\<rparr>), Some [])] ! 0 = ''home''"
  using form_positions_kept [of 0 "[(arg ''TYPE'' AT_enum (values_opts [''home'']), Some ''home''),
      (arg ''ID'' AT_int (no_opts\<lparr>a_optional := True\<rparr>), Some [])]"]
  by (simp add: formValid_def field_out_def arg_def values_opts_def no_opts_def)

text \<open>
  A form opened on any catalogue command, with defaults seeded from any status and after any
  sequence of edits the widgets allow, holds only values the catalogue offers: an enum field one of
  its choices, a slider the printed form of a number inside the argument's own bounds with its unit
  suffix, a hidden argument nothing.
\<close>

theorem form_values_offered:
  assumes "c \<in> set catalog_commands"
    and "f0 = open_form to_str (commandWithStateDefaults to_num vs c)"
    and "legal_edits to_str f0 es"
    and "i < length (c_args c)"
  defines "a \<equiv> c_args c ! i" and "v \<equiv> snd (run_edits to_str es f0 ! i)"
  shows "(a_hidden a \<longrightarrow> v = None)
    \<and> (field_of a = Enum_field \<longrightarrow> \<not> a_hidden a \<longrightarrow> (\<exists>x \<in> set (choices a). v = Some x))
    \<and> (field_of a = Slider_field \<longrightarrow> \<not> a_hidden a \<longrightarrow>
         (\<exists>d. in_arg_range (js_number to_num d) a \<and> v = Some (to_str d @ a_sendSuffix a)))"
proof -
  let ?f = "run_edits to_str es f0"
  let ?c = "commandWithStateDefaults to_num vs c"
  have len: "length (c_args ?c) = length (c_args c)"
    by (simp add: commandWithStateDefaults_def split: option.splits)
  have args: "map fst f0 = c_args ?c" by (simp add: assms(2) open_form_def comp_def)
  then have shape: "map fst ?f = c_args ?c" by (simp add: run_edits_shape)
  then have "length ?f = length (c_args c)" using len by (metis length_map)
  then have i: "i < length ?f" using assms(4) by simp
  have a': "fst (?f ! i) = c_args ?c ! i" using shape i by (metis nth_map)
  have s: "c_args ?c ! i = a \<or> (\<exists>s. c_args ?c ! i = seed_arg to_num s a)"
    using assms(4) unfolding a_def by (cases vs) (auto simp: commandWithStateDefaults_def)
  have "form_inv to_num to_str ?f"
    using form_inv_run [OF form_inv_open [OF assms(1)]] assms(2,3) by blast
  then have "field_inv to_num to_str (fst (?f ! i)) v"
    using i by (force simp: form_inv_def list_all_length v_def split: prod.splits)
  then show ?thesis using s unfolding a' by (auto simp: field_inv_def)
qed

theorem form_values_offered_witness:
  "\<exists>d. in_arg_range (js_number (\<lambda>_. F_NaN) d)
         (c_args (cmd ''charging-set-limit'' ''Set Charge Limit''
           [arg ''PERCENT'' AT_int ((range_opts 50 100)\<lparr>a_unit := ''%'', a_def := Some (j_rat 80),
              a_stateDefault := ''chargeLimitSoc''\<rparr>)] None) ! 0)"
proof -
  let ?c = "cmd ''charging-set-limit'' ''Set Charge Limit''
           [arg ''PERCENT'' AT_int ((range_opts 50 100)\<lparr>a_unit := ''%'', a_def := Some (j_rat 80),
              a_stateDefault := ''chargeLimitSoc''\<rparr>)] None"
  have c: "?c \<in> set catalog_commands"
    by (simp add: catalog_commands_def CATEGORIES_def cat_charging_def)
  have l: "legal_edits (\<lambda>_. ''77'') (open_form (\<lambda>_. ''77'')
      (commandWithStateDefaults (\<lambda>_. F_NaN) (Some emptyStatus) ?c)) [(0, Slide (F_Fin 77))]"
    by (simp add: legal_edit_def open_form_def commandWithStateDefaults_def cmd_def in_arg_range_def
        arg_def range_opts_def)
  have f: "field_of (c_args ?c ! 0) = Slider_field" "\<not> a_hidden (c_args ?c ! 0)"
    by (simp_all add: cmd_def field_of_def arg_def range_opts_def no_opts_def)
  show ?thesis
    using form_values_offered [OF c refl l, of 0] f by (auto simp: cmd_def)
qed

end
