(* ===== verification/Dashboard.thy ===== *)
theory Dashboard
  imports Argument_Form
begin

text \<open>
  The front page and the cover: \<^verbatim>\<open>app/qml/pages/FirstPage.qml\<close> and
  \<^verbatim>\<open>app/qml/cover/CoverPage.qml\<close>.  A handler returns the new page and the requests it sends;
  the page and its outstanding requests step together as the environment answers them.  The settle
  timer is a flag: running or not.
\<close>

section \<open>The front page\<close>

record page =
  p_vin :: string
  p_model :: string
  p_hasKey :: bool
  vehicleStatus :: status
  statusStage :: string
  statusError :: string
  settleTimer :: bool

definition new_page :: page where
  "new_page = \<lparr>p_vin = [], p_model = [], p_hasKey = False, vehicleStatus = emptyStatus,
     statusStage = [], statusError = [], settleTimer = False\<rparr>"

definition req :: "string \<Rightarrow> string \<Rightarrow> string list \<Rightarrow> request" where
  "req i c as = \<lparr>q_id = i, q_cmd = c, q_args = as\<rparr>"

definition refreshStatus :: "bool \<Rightarrow> page \<Rightarrow> page \<times> request list" where
  "refreshStatus helperAvailable p =
    (if \<not> helperAvailable \<or> \<not> p_hasKey p \<or> length (p_vin p) = 0 \<or> 0 < length (statusStage p)
     then (p, [])
     else (p\<lparr>statusError := [], statusStage := ''body''\<rparr>,
           [req ''status:body'' ''body-controller-state'' []]))"

definition optimistic_locked :: "page \<Rightarrow> page" where
  "optimistic_locked p =
    p\<lparr>vehicleStatus := (vehicleStatus p)\<lparr>locked := Some (locked (vehicleStatus p) \<noteq> Some True)\<rparr>\<rparr>"

definition optimistic_climate :: "page \<Rightarrow> page" where
  "optimistic_climate p =
    p\<lparr>vehicleStatus := (vehicleStatus p)\<lparr>isClimateOn := \<not> isClimateOn (vehicleStatus p)\<rparr>\<rparr>"

definition optimistic_windows :: "page \<Rightarrow> page" where
  "optimistic_windows p =
    p\<lparr>vehicleStatus := (vehicleStatus p)\<lparr>windowsOpen := \<not> windowsOpen (vehicleStatus p)\<rparr>\<rparr>"

definition toggleLock :: "page \<Rightarrow> page \<times> request list" where
  "toggleLock p =
    (if 0 < length (statusStage p) then (p, [])
     else let sendLock = (locked (vehicleStatus p) = Some False)
          in ((optimistic_locked p)\<lparr>statusStage := ''toggle''\<rparr>,
              [req ''status:toggle'' (if sendLock then ''lock'' else ''unlock'') []]))"

definition toggleClimate :: "page \<Rightarrow> page \<times> request list" where
  "toggleClimate p =
    (if 0 < length (statusStage p) then (p, [])
     else let wasOn = isClimateOn (vehicleStatus p)
          in ((optimistic_climate p)\<lparr>statusStage := ''toggle''\<rparr>,
              [req ''status:toggle'' (if wasOn then ''climate-off'' else ''climate-on'') []]))"

definition toggleWindows :: "page \<Rightarrow> page \<times> request list" where
  "toggleWindows p =
    (if 0 < length (statusStage p) then (p, [])
     else let wereOpen = windowsOpen (vehicleStatus p)
          in ((optimistic_windows p)\<lparr>statusStage := ''toggle''\<rparr>,
              [req ''status:toggle'' (if wereOpen then ''windows-close'' else ''windows-vent'') []]))"

definition openFrunk :: "page \<Rightarrow> page \<times> request list" where
  "openFrunk p =
    (if 0 < length (statusStage p) then (p, [])
     else (p\<lparr>statusStage := ''toggle''\<rparr>, [req ''status:toggle'' ''frunk-open'' []]))"

definition openTrunk :: "page \<Rightarrow> page \<times> request list" where
  "openTrunk p =
    (if 0 < length (statusStage p) then (p, [])
     else (p\<lparr>statusStage := ''toggle''\<rparr>, [req ''status:toggle'' ''trunk-open'' []]))"

definition batteryIconSource :: "(js \<Rightarrow> f64) \<Rightarrow> page \<Rightarrow> string" where
  "batteryIconSource to_num p =
    (let level = batteryLevel (vehicleStatus p);
         gt = (\<lambda>k. let x = js_number to_num level
                   in f64_le (F_Fin k) x \<and> x \<noteq> F_Fin k)
     in if level = J_null then ''../../img/icons/battery5.svg''
        else if gt 90 then ''../../img/icons/battery100.svg''
        else if gt 60 then ''../../img/icons/battery75.svg''
        else if gt 40 then ''../../img/icons/battery50.svg''
        else if gt 9 then ''../../img/icons/battery10.svg''
        else ''../../img/icons/battery5.svg'')"

definition onConfigLoaded :: "bool \<Rightarrow> string \<Rightarrow> string \<Rightarrow> bool \<Rightarrow> page \<Rightarrow> page \<times> request list" where
  "onConfigLoaded helperAvailable vin model hasKey p =
    refreshStatus helperAvailable (p\<lparr>p_vin := vin, p_model := model, p_hasKey := hasKey\<rparr>)"

record reply =
  y_ok :: bool
  y_code :: int
  y_out :: string
  y_err :: string
  y_now :: int

definition failure_text :: "reply \<Rightarrow> string" where
  "failure_text y =
    (if 0 < length (y_err y) then y_err y else ''exit code '' @ int_str (y_code y))"

text \<open>\<^verbatim>\<open>if (page.statusError.length === 0) page.statusError = ...\<close>\<close>

definition note_error :: "string \<Rightarrow> page \<Rightarrow> page" where
  "note_error m p = (if length (statusError p) = 0 then p\<lparr>statusError := m\<rparr> else p)"

definition onCommandFinished ::
    "(string \<Rightarrow> js option) \<Rightarrow> string \<Rightarrow> reply \<Rightarrow> page \<Rightarrow> page \<times> request list" where
  "onCommandFinished parse rid y p =
    (let merged = (\<lambda>f. p\<lparr>vehicleStatus := f parse (y_now y) (vehicleStatus p) (y_out y)\<rparr>)
     in if rid = ''status:body'' then
          ((if y_ok y then merged mergeBodyControllerState
            else p\<lparr>statusError := failure_text y\<rparr>)\<lparr>statusStage := ''closures''\<rparr>,
           [req ''status:closures'' ''state'' [''closures'']])
        else if rid = ''status:closures'' then
          ((if y_ok y then merged mergeClosuresState
            else note_error (failure_text y) p)\<lparr>statusStage := ''climate''\<rparr>,
           [req ''status:climate'' ''state'' [''climate'']])
        else if rid = ''status:climate'' then
          ((if y_ok y then merged mergeClimateState
            else note_error (failure_text y) p)\<lparr>statusStage := ''charge''\<rparr>,
           [req ''status:charge'' ''state'' [''charge'']])
        else if rid = ''status:charge'' then
          ((if y_ok y then merged mergeChargeState
            else note_error (failure_text y) p)\<lparr>statusStage := []\<rparr>, [])
        else if rid = ''status:toggle'' then
          (p\<lparr>statusStage := [], settleTimer := True\<rparr>, [])
        else (p, []))"

definition onCommandError :: "string \<Rightarrow> string \<Rightarrow> page \<Rightarrow> page" where
  "onCommandError rid msg p =
    (if prefix ''status:'' rid then
       let p1 = note_error msg (p\<lparr>statusStage := []\<rparr>)
       in if rid = ''status:toggle'' then p1\<lparr>settleTimer := True\<rparr> else p1
     else p)"

definition onSettled :: "bool \<Rightarrow> page \<Rightarrow> page \<times> request list" where
  "onSettled helperAvailable p = refreshStatus helperAvailable (p\<lparr>settleTimer := False\<rparr>)"

definition helperProblem :: "bool \<Rightarrow> string \<Rightarrow> string \<Rightarrow> bool" where
  "helperProblem helperAvailable helperVersion appVersion =
    (\<not> helperAvailable \<or> length helperVersion = 0 \<or> helperVersion \<noteq> appVersion)"

section \<open>The page and its environment\<close>

text \<open>
  A configuration is the page and the requests sent and not answered yet.  Every reply answers an
  outstanding request of this page or belongs to another page, whose identifiers do not start with
  \<^verbatim>\<open>status:\<close>.
\<close>

type_synonym fp_config = "page \<times> request list"

definition sends :: "fp_config \<Rightarrow> page \<times> request list \<Rightarrow> fp_config" where
  "sends c r = (fst r, snd c @ snd r)"

inductive fp_step :: "(string \<Rightarrow> js option) \<Rightarrow> fp_config \<Rightarrow> fp_config \<Rightarrow> bool"
  for parse :: "string \<Rightarrow> js option" where
  fp_config: "fp_step parse (p, q) (sends (p, q) (onConfigLoaded h vin model key p))"
| fp_refresh: "fp_step parse (p, q) (sends (p, q) (refreshStatus h p))"
| fp_lock: "fp_step parse (p, q) (sends (p, q) (toggleLock p))"
| fp_climate: "fp_step parse (p, q) (sends (p, q) (toggleClimate p))"
| fp_windows: "fp_step parse (p, q) (sends (p, q) (toggleWindows p))"
| fp_frunk: "fp_step parse (p, q) (sends (p, q) (openFrunk p))"
| fp_trunk: "fp_step parse (p, q) (sends (p, q) (openTrunk p))"
| fp_settled: "settleTimer p \<Longrightarrow> fp_step parse (p, q) (sends (p, q) (onSettled h p))"
| fp_finished: "r \<in> set q \<Longrightarrow>
    fp_step parse (p, q) (sends (p, remove1 r q) (onCommandFinished parse (q_id r) y p))"
| fp_failed: "r \<in> set q \<Longrightarrow>
    fp_step parse (p, q) (onCommandError (q_id r) msg p, remove1 r q)"
| fp_foreign: "\<not> prefix ''status:'' rid \<Longrightarrow>
    fp_step parse (p, q) (sends (p, q) (onCommandFinished parse rid y (onCommandError rid msg p)))"

inductive_cases fp_stepE: "fp_step parse c c'"

definition fp_start :: fp_config where
  "fp_start = (new_page, [])"

definition fp_reach :: "(string \<Rightarrow> js option) \<Rightarrow> fp_config \<Rightarrow> bool" where
  "fp_reach parse c = (fp_step parse)\<^sup>*\<^sup>* fp_start c"

definition stages :: "string list" where
  "stages = [''body'', ''closures'', ''climate'', ''charge'', ''toggle'']"

definition fp_inv :: "fp_config \<Rightarrow> bool" where
  "fp_inv c =
    (case c of (p, q) \<Rightarrow>
       (statusStage p = [] \<and> q = [])
       \<or> (statusStage p \<in> set stages
          \<and> (\<exists>r. q = [r] \<and> q_id r = ''status:'' @ statusStage p)))"

section \<open>The cover\<close>

record cover =
  v_vin :: string
  v_model :: string
  v_hasKey :: bool
  commandBusy :: bool

datatype connection_kind = Unpaired_k | Bluetooth_off | Connected | Disconnected

fun contains_sub :: "string \<Rightarrow> string \<Rightarrow> bool" where
  "contains_sub w [] = (w = [])"
| "contains_sub w (c # cs) = (prefix w (c # cs) \<or> contains_sub w cs)"

definition phoneKeyStatusIsBluetoothOff :: "string \<Rightarrow> bool" where
  "phoneKeyStatusIsBluetoothOff st =
    (contains_sub ''NotPowered'' st \<or> contains_sub ''RFKILL'' st
     \<or> contains_sub ''power on adapter'' st)"

definition phoneKeyStatusIsConnected :: "string \<Rightarrow> bool" where
  "phoneKeyStatusIsConnected st = (st = ''Phone key connected'' \<or> st = ''Phone key authorized'')"

definition isPaired :: "cover \<Rightarrow> bool" where
  "isPaired v = (v_hasKey v \<and> 0 < length (v_vin v))"

definition connectionKind :: "string \<Rightarrow> cover \<Rightarrow> connection_kind" where
  "connectionKind st v =
    (if phoneKeyStatusIsBluetoothOff st then Bluetooth_off
     else if \<not> isPaired v then Unpaired_k
     else if phoneKeyStatusIsConnected st then Connected
     else Disconnected)"

definition runCoverCommand :: "string \<Rightarrow> string \<Rightarrow> cover \<Rightarrow> cover \<times> request list" where
  "runCoverCommand st c v =
    (if commandBusy v \<or> connectionKind st v \<noteq> Connected then (v, [])
     else (v\<lparr>commandBusy := True\<rparr>, [req (''cover:'' @ c) c []]))"

definition cover_reply :: "string \<Rightarrow> cover \<Rightarrow> cover" where
  "cover_reply rid v = (if prefix ''cover:'' rid then v\<lparr>commandBusy := False\<rparr> else v)"

section \<open>Lemmas\<close>

lemmas page_handlers =
  refreshStatus_def toggleLock_def toggleClimate_def toggleWindows_def openFrunk_def openTrunk_def
  onConfigLoaded_def onSettled_def

lemma note_error_stage [simp]: "statusStage (note_error m p) = statusStage p"
  by (simp add: note_error_def)

lemma note_error_status [simp]: "vehicleStatus (note_error m p) = vehicleStatus p"
  by (simp add: note_error_def)

lemma optimistic_stage [simp]:
  "statusStage (optimistic_locked p) = statusStage p"
  "statusStage (optimistic_climate p) = statusStage p"
  "statusStage (optimistic_windows p) = statusStage p"
  by (simp_all add: optimistic_locked_def optimistic_climate_def optimistic_windows_def)

text \<open>A user action, a timer or a configuration sends only from the idle page, one request.\<close>

definition sends_when_idle :: "page \<Rightarrow> page \<times> request list \<Rightarrow> bool" where
  "sends_when_idle p r =
    (snd r = [] \<and> statusStage (fst r) = statusStage p
     \<or> statusStage p = [] \<and> statusStage (fst r) \<in> set stages
        \<and> (\<exists>q. snd r = [q] \<and> q_id q = ''status:'' @ statusStage (fst r)))"

lemma handlers_send_when_idle [inv_intros]:
  "sends_when_idle p (refreshStatus h p)" "sends_when_idle p (toggleLock p)"
  "sends_when_idle p (toggleClimate p)" "sends_when_idle p (toggleWindows p)"
  "sends_when_idle p (openFrunk p)" "sends_when_idle p (openTrunk p)"
  "sends_when_idle p (onConfigLoaded h vin model key p)" "sends_when_idle p (onSettled h p)"
  by (auto simp: sends_when_idle_def page_handlers req_def stages_def Let_def)

lemma fp_inv_send:
  assumes "fp_inv (p, q)" "sends_when_idle p r" shows "fp_inv (sends (p, q) r)"
  using assms by (auto simp: fp_inv_def sends_def sends_when_idle_def stages_def)

lemma finished_stage:
  "statusStage (fst (onCommandFinished parse ''status:body'' y p)) = ''closures''"
  "statusStage (fst (onCommandFinished parse ''status:closures'' y p)) = ''climate''"
  "statusStage (fst (onCommandFinished parse ''status:climate'' y p)) = ''charge''"
  "statusStage (fst (onCommandFinished parse ''status:charge'' y p)) = []"
  "statusStage (fst (onCommandFinished parse ''status:toggle'' y p)) = []"
  by (simp_all add: onCommandFinished_def)

lemma finished_requests:
  "snd (onCommandFinished parse ''status:body'' y p)
     = [req ''status:closures'' ''state'' [''closures'']]"
  "snd (onCommandFinished parse ''status:closures'' y p)
     = [req ''status:climate'' ''state'' [''climate'']]"
  "snd (onCommandFinished parse ''status:climate'' y p)
     = [req ''status:charge'' ''state'' [''charge'']]"
  "snd (onCommandFinished parse ''status:charge'' y p) = []"
  "snd (onCommandFinished parse ''status:toggle'' y p) = []"
  by (simp_all add: onCommandFinished_def)

definition page_waits :: "page \<times> request list \<Rightarrow> bool" where
  "page_waits r =
    ((statusStage (fst r) = [] \<and> snd r = [])
     \<or> (statusStage (fst r) \<in> set stages
        \<and> (\<exists>q. snd r = [q] \<and> q_id q = ''status:'' @ statusStage (fst r))))"

lemma finished_next:
  assumes "st \<in> set stages"
  shows "page_waits (onCommandFinished parse (''status:'' @ st) y p)"
proof -
  have "page_waits (onCommandFinished parse ''status:body'' y p)"
    "page_waits (onCommandFinished parse ''status:closures'' y p)"
    "page_waits (onCommandFinished parse ''status:climate'' y p)"
    "page_waits (onCommandFinished parse ''status:charge'' y p)"
    "page_waits (onCommandFinished parse ''status:toggle'' y p)"
    by (simp_all add: page_waits_def finished_stage finished_requests stages_def req_def)
  then have "\<forall>st \<in> set stages. page_waits (onCommandFinished parse (''status:'' @ st) y p)"
    by (simp add: stages_def)
  with assms show ?thesis by blast
qed

lemma fp_inv_finished:
  assumes "fp_inv (p, q)" "r \<in> set q"
  shows "fp_inv (sends (p, remove1 r q) (onCommandFinished parse (q_id r) y p))"
proof -
  have q: "q = [r]" "statusStage p \<in> set stages" "q_id r = ''status:'' @ statusStage p"
    using assms by (auto simp: fp_inv_def)
  show ?thesis using finished_next [OF q(2), of parse y p] q(1,3)
    by (simp add: fp_inv_def sends_def page_waits_def case_prod_beta)
qed

lemma foreign_reply_ignored:
  assumes "\<not> prefix ''status:'' rid"
  shows "onCommandFinished parse rid y p = (p, [])" "onCommandError rid msg p = p"
proof -
  have "rid \<noteq> ''status:'' @ st" for st using assms by (metis prefixI)
  from this [of "''body''"] this [of "''closures''"] this [of "''climate''"] this [of "''charge''"]
    this [of "''toggle''"]
  show "onCommandFinished parse rid y p = (p, [])" by (simp add: onCommandFinished_def)
  show "onCommandError rid msg p = p" using assms by (simp only: onCommandError_def if_False)
qed

lemma fp_inv_step: "fp_step parse c c' \<Longrightarrow> fp_inv c \<Longrightarrow> fp_inv c'"
proof (induction rule: fp_step.induct)
  case (fp_failed r q p msg)
  then show ?case by (auto simp: fp_inv_def onCommandError_def Let_def)
qed (auto simp: foreign_reply_ignored sends_def [of _ "(_, [])"]
      intro: fp_inv_send handlers_send_when_idle fp_inv_finished)

text \<open>One leg of a refresh: the outstanding request is answered by a finished reply.\<close>

fun run_legs :: "(string \<Rightarrow> js option) \<Rightarrow> reply list \<Rightarrow> fp_config \<Rightarrow> fp_config" where
  "run_legs parse [] c = c"
| "run_legs parse (y # ys) (p, []) = (p, [])"
| "run_legs parse (y # ys) (p, r # q) =
    run_legs parse ys (sends (p, q) (onCommandFinished parse (q_id r) y p))"

definition leg ::
    "((string \<Rightarrow> js option) \<Rightarrow> int \<Rightarrow> status \<Rightarrow> string \<Rightarrow> status) \<Rightarrow> (string \<Rightarrow> js option) \<Rightarrow> reply
     \<Rightarrow> status \<Rightarrow> status" where
  "leg merge parse y s = (if y_ok y then merge parse (y_now y) s (y_out y) else s)"

text \<open>The text shown after a refresh: that of the first leg that failed.\<close>

fun first_failure :: "reply list \<Rightarrow> string" where
  "first_failure [] = []"
| "first_failure (y # ys) = (if y_ok y then first_failure ys else failure_text y)"

lemma failure_text_nonempty [simp]: "failure_text y \<noteq> []"
  by (simp add: failure_text_def)

section \<open>Properties\<close>

text \<open>
  C8: The front page never stacks requests.  In every state it can reach, whatever the order of
  taps, timer expiries, configuration reloads, replies and errors, either it is idle with nothing
  outstanding, or exactly one request of its own is outstanding and the stage it shows names it.
\<close>

theorem dashboard_one_request:
  assumes "fp_reach parse (p, q)"
  shows "length q \<le> 1 \<and> (q = [] \<longleftrightarrow> statusStage p = [])
    \<and> (\<forall>r \<in> set q. q_id r = ''status:'' @ statusStage p)"
proof -
  have "fp_inv c" if "(fp_step parse)\<^sup>*\<^sup>* fp_start c" for c
    using that
  proof (induction rule: rtranclp_induct)
    case base
    show ?case by (simp add: fp_start_def fp_inv_def new_page_def)
  next
    case (step c c')
    then show ?case by (blast intro: fp_inv_step)
  qed
  then have "fp_inv (p, q)" using assms by (simp add: fp_reach_def)
  then show ?thesis by (auto simp: fp_inv_def stages_def)
qed

theorem dashboard_one_request_witness:
  "\<exists>p q. fp_reach (\<lambda>_. None) (p, q) \<and> length q = 1 \<and> statusStage p = ''toggle''
     \<and> (\<forall>r \<in> set q. q_id r = ''status:toggle'')"
proof -
  have "fp_step (\<lambda>_. None) fp_start (sends (new_page, []) (toggleLock new_page))"
    unfolding fp_start_def by (rule fp_lock)
  then have r: "fp_reach (\<lambda>_. None) (fst (toggleLock new_page), snd (toggleLock new_page))"
    by (simp add: fp_reach_def sends_def)
  have t: "statusStage (fst (toggleLock new_page)) = ''toggle''" "length (snd (toggleLock new_page)) = 1"
    by (simp_all add: toggleLock_def new_page_def Let_def)
  show ?thesis
    by (rule exI [of _ "fst (toggleLock new_page)"], rule exI [of _ "snd (toggleLock new_page)"])
      (use dashboard_one_request [OF r] r t in simp)
qed

text \<open>
  A refresh ends and shows what the vehicle answered.  From the idle page with a key and a VIN,
  the four replies, good or bad, lead back to the idle page with nothing outstanding; the status is
  the composition of the merges of the legs that succeeded, in the order body, closures, climate,
  charge, and the error shown is that of the first leg that failed, or none.
\<close>

theorem refresh_run:
  fixes parse :: "string \<Rightarrow> js option" and y1 y2 y3 y4 :: reply
  assumes "p_hasKey p" "p_vin p \<noteq> []" "statusStage p = []"
  defines "c \<equiv> run_legs parse [y1, y2, y3, y4] (sends (p, []) (refreshStatus True p))"
  shows "snd c = [] \<and> statusStage (fst c) = []
    \<and> vehicleStatus (fst c) =
        leg mergeChargeState parse y4 (leg mergeClimateState parse y3
          (leg mergeClosuresState parse y2 (leg mergeBodyControllerState parse y1 (vehicleStatus p))))
    \<and> statusError (fst c) = first_failure [y1, y2, y3, y4]"
  using assms(1-3) unfolding c_def
  by (cases "y_ok y1"; cases "y_ok y2"; cases "y_ok y3"; cases "y_ok y4")
    (simp_all add: refreshStatus_def sends_def onCommandFinished_def req_def leg_def Let_def
      note_error_def)

theorem refresh_run_witness:
  "statusError (fst (run_legs (\<lambda>_. None)
     [\<lparr>y_ok = True, y_code = 0, y_out = ''x'', y_err = [], y_now = 5\<rparr>,
      \<lparr>y_ok = False, y_code = 1, y_out = [], y_err = ''asleep'', y_now = 6\<rparr>,
      \<lparr>y_ok = False, y_code = 2, y_out = [], y_err = [], y_now = 7\<rparr>,
      \<lparr>y_ok = True, y_code = 0, y_out = ''x'', y_err = [], y_now = 8\<rparr>]
     (sends (new_page\<lparr>p_hasKey := True, p_vin := ''V''\<rparr>, [])
        (refreshStatus True (new_page\<lparr>p_hasKey := True, p_vin := ''V''\<rparr>))))) = ''asleep''"
  using refresh_run [of "new_page\<lparr>p_hasKey := True, p_vin := ''V''\<rparr>" "\<lambda>_. None"
      "\<lparr>y_ok = True, y_code = 0, y_out = ''x'', y_err = [], y_now = 5\<rparr>"
      "\<lparr>y_ok = False, y_code = 1, y_out = [], y_err = ''asleep'', y_now = 6\<rparr>"
      "\<lparr>y_ok = False, y_code = 2, y_out = [], y_err = [], y_now = 7\<rparr>"
      "\<lparr>y_ok = True, y_code = 0, y_out = ''x'', y_err = [], y_now = 8\<rparr>"]
  by (simp add: new_page_def failure_text_def)

text \<open>
  What the lock toggle sends and what it shows.  On an idle page the toggle sends
  \<^verbatim>\<open>lock\<close> exactly when the car is known to be unlocked, and the icon then shows what was sent,
  except when the lock state is unknown: then \<^verbatim>\<open>unlock\<close> is sent and the page shows locked.
\<close>

theorem toggle_lock_shows:
  assumes "statusStage p = []"
  shows "map q_cmd (snd (toggleLock p))
      = [if locked (vehicleStatus p) = Some False then ''lock'' else ''unlock'']
    \<and> (locked (vehicleStatus p) \<noteq> None \<longrightarrow>
         locked (vehicleStatus (fst (toggleLock p))) =
           Some (map q_cmd (snd (toggleLock p)) = [''lock'']))
    \<and> (locked (vehicleStatus p) = None \<longrightarrow>
         map q_cmd (snd (toggleLock p)) = [''unlock'']
         \<and> locked (vehicleStatus (fst (toggleLock p))) = Some True)"
  using assms by (auto simp: toggleLock_def optimistic_locked_def req_def)

theorem toggle_lock_shows_witness:
  "locked (vehicleStatus (fst (toggleLock new_page))) = Some True
   \<and> map q_cmd (snd (toggleLock new_page)) = [''unlock'']"
  using toggle_lock_shows [of new_page] by (simp add: new_page_def emptyStatus_def)

end
