(* ===== verification/Command_Gate.thy ===== *)
theory Command_Gate
  imports Command_Catalog
begin

text \<open>
  The command gate of the core: the list of known commands and the secret-bearing ones
  (\<^verbatim>\<open>helper/src/commands.rs\<close>), the error types (\<^verbatim>\<open>helper/src/error.rs\<close>) and
  \<^verbatim>\<open>validate_arg_ranges\<close> of \<^verbatim>\<open>helper/src/core.rs\<close>, which refuses a numeric argument out
  of range before anything reaches the session.
\<close>

section \<open>Known commands\<close>

definition COMMAND_CATALOG :: "string list" where
  "COMMAND_CATALOG =
    [''valet-mode-on'', ''valet-mode-off'', ''unlock'', ''lock'', ''drive'', ''climate-on'',
     ''climate-off'', ''climate-set-temp'', ''add-key'', ''add-key-request'', ''remove-key'',
     ''rename-key'', ''list-keys'', ''honk'', ''ping'', ''flash-lights'', ''keep-accessory-power'',
     ''low-power-mode'', ''charging-set-limit'', ''charging-set-amps'', ''charging-start'',
     ''charging-stop'', ''charging-schedule'', ''charging-schedule-cancel'',
     ''charging-schedule-add'', ''charging-schedule-remove'', ''media-set-volume'',
     ''media-volume-up'', ''media-volume-down'', ''media-next-favorite'', ''media-next-track'',
     ''media-previous-track'', ''media-previous-favorite'', ''media-toggle-playback'',
     ''software-update-start'', ''software-update-cancel'', ''sentry-mode'', ''wake'',
     ''tonneau-open'', ''tonneau-close'', ''tonneau-stop'', ''trunk-open'', ''trunk-move'',
     ''trunk-close'', ''frunk-open'', ''charge-port-open'', ''charge-port-close'',
     ''autosecure-modelx'', ''session-info'', ''seat-heater'', ''steering-wheel-heater'',
     ''auto-seat-and-climate'', ''windows-vent'', ''windows-close'', ''body-controller-state'',
     ''guest-mode-on'', ''guest-mode-off'', ''erase-guest-data'', ''precondition-schedule-add'',
     ''precondition-schedule-remove'', ''product-info'', ''state'']"

definition PIN_COMMANDS :: "string list" where
  "PIN_COMMANDS = [''valet-mode-on'']"

definition is_known_command :: "string \<Rightarrow> bool" where
  "is_known_command c = List.member COMMAND_CATALOG c"

definition is_pin_command :: "string \<Rightarrow> bool" where
  "is_pin_command c = List.member PIN_COMMANDS c"

section \<open>Errors\<close>

datatype helper_error =
    Forbidden string
  | Busy string
  | NotConfigured string
  | NoKey string
  | UnknownCommand string
  | InvalidArgument string
  | SessionUnavailable string

section \<open>Integers\<close>

text \<open>Rust's \<^verbatim>\<open>str::parse::<i64>\<close>: an optional sign, digits only, no overflow.\<close>

definition in_i64 :: "int \<Rightarrow> bool" where
  "in_i64 k = (- (2 ^ 63) \<le> k \<and> k < 2 ^ 63)"

definition parse_digits :: "string \<Rightarrow> int option" where
  "parse_digits s = (if all_digits s then Some (int (digits_val s)) else None)"

definition parse_signed :: "string \<Rightarrow> int option" where
  "parse_signed s =
    (if starts_with (CHR ''-'') s then map_option uminus (parse_digits (tl s))
     else if starts_with (CHR ''+'') s then parse_digits (tl s)
     else parse_digits s)"

definition parse_i64 :: "string \<Rightarrow> int option" where
  "parse_i64 s =
    (case parse_signed s of None \<Rightarrow> None | Some k \<Rightarrow> if in_i64 k then Some k else None)"

section \<open>The range gate\<close>

definition invalid_arg :: "string \<Rightarrow> string \<Rightarrow> helper_error" where
  "invalid_arg c a = InvalidArgument (c @ '' argument out of range or invalid: '' @ a)"

definition parse_int_arg :: "string \<Rightarrow> int option" where
  "parse_int_arg a = parse_i64 (trim a)"

definition parse_float_arg :: "string \<Rightarrow> f64 option" where
  "parse_float_arg a =
    (case parse_f64 (trim a) of
       None \<Rightarrow> None
     | Some v \<Rightarrow> if f64_is_finite v then Some v else None)"

definition is_alpha :: "char \<Rightarrow> bool" where
  "is_alpha c = (is_upper c \<or> is_lower c)"

definition strip_unit :: "string \<Rightarrow> string \<times> char option" where
  "strip_unit a =
    (let t = trim a
     in if t \<noteq> [] \<and> is_alpha (last t) then (butlast t, Some (last t)) else (t, None))"

definition first_arg :: "string \<Rightarrow> string list \<Rightarrow> (helper_error, string) result" where
  "first_arg c as =
    (case as of
       [] \<Rightarrow> Inl (InvalidArgument (c @ '' requires a numeric argument''))
     | a # _ \<Rightarrow> Inr a)"

definition int_in_range ::
    "string \<Rightarrow> string list \<Rightarrow> int \<Rightarrow> int \<Rightarrow> (helper_error, unit) result" where
  "int_in_range c as lo hi =
    and_then (first_arg c as) (\<lambda>a.
      case parse_int_arg a of
        None \<Rightarrow> Inl (InvalidArgument (c @ '' argument must be an integer: '' @ a))
      | Some v \<Rightarrow>
          ensure (lo \<le> v \<and> v \<le> hi)
            (InvalidArgument (c @ '' argument '' @ int_str v @ '' out of range ['' @ int_str lo
               @ '', '' @ int_str hi @ '']'')))"

definition float_in_range ::
    "string \<Rightarrow> string \<Rightarrow> string \<Rightarrow> rat \<Rightarrow> rat \<Rightarrow> (helper_error, unit) result" where
  "float_in_range c shown num lo hi =
    (case parse_float_arg num of
       None \<Rightarrow> Inl (invalid_arg c shown)
     | Some v \<Rightarrow> ensure (f64_within lo hi v) (invalid_arg c shown))"

definition gate_schedule :: "string \<Rightarrow> string list \<Rightarrow> (helper_error, unit) result" where
  "gate_schedule c as =
    and_then (first_arg c as) (\<lambda>a.
      case parse_int_arg a of
        None \<Rightarrow> Inl (invalid_arg c a)
      | Some v \<Rightarrow> ensure (0 \<le> v \<and> v \<le> 1439) (invalid_arg c a))"

definition gate_temp :: "string \<Rightarrow> string list \<Rightarrow> (helper_error, unit) result" where
  "gate_temp c as =
    and_then (first_arg c as) (\<lambda>a.
      let (num, u) = strip_unit a;
          (lo, hi) = (if map_option ascii_upper u = Some (CHR ''F'') then (59, 82) else (15, 28))
      in float_in_range c a num lo hi)"

definition gate_update :: "string \<Rightarrow> string list \<Rightarrow> (helper_error, unit) result" where
  "gate_update c as =
    and_then (first_arg c as) (\<lambda>a.
      if prefix ''-'' (trim a) then Inl (invalid_arg c a)
      else
        let (num, u) = strip_unit a
        in if u = None \<or> map_option ascii_lower u = Some (CHR ''s'') then
             (case parse_int_arg (if u = None then a else num) of
                None \<Rightarrow> Inl (invalid_arg c a)
              | Some v \<Rightarrow> ensure (0 \<le> v \<and> v \<le> 3600) (invalid_arg c a))
           else Inr ())"

definition gate_coord ::
    "string \<Rightarrow> string list \<Rightarrow> nat \<Rightarrow> rat \<Rightarrow> rat \<Rightarrow> (helper_error, unit) result" where
  "gate_coord c as i lo hi =
    (if i < length as then float_in_range c (as ! i) (as ! i) lo hi else Inr ())"

definition validate_arg_ranges :: "string \<Rightarrow> string list \<Rightarrow> (helper_error, unit) result" where
  "validate_arg_ranges c as =
    (if c = ''charging-set-limit'' then int_in_range c as 50 100
     else if c = ''charging-set-amps'' then int_in_range c as 1 48
     else if c = ''charging-schedule'' then gate_schedule c as
     else if c = ''media-set-volume'' then
       and_then (first_arg c as) (\<lambda>a. float_in_range c a a 0 10)
     else if c = ''climate-set-temp'' then gate_temp c as
     else if c = ''software-update-start'' then gate_update c as
     else if c = ''charging-schedule-add'' \<or> c = ''precondition-schedule-add'' then
       and_then (gate_coord c as 2 (- 90) 90) (\<lambda>_. gate_coord c as 3 (- 180) 180)
     else Inr ())"

section \<open>Lemmas: printed numbers\<close>

definition plain :: "char \<Rightarrow> bool" where
  "plain c = (33 \<le> byte c \<and> byte c \<le> 126)"

lemma ws_codes_not_plain [table_simps]:
  "list_all (\<lambda>w. w \<noteq> [] \<and> \<not> plain (hd w)) ws_codes"
  "list_all (\<lambda>w. w \<noteq> [] \<and> \<not> plain (hd w)) (map rev ws_codes)"
  by (simp_all add: ws_codes_def plain_def byte_def upt_rec)

lemma strip_codes_plain:
  assumes "list_all (\<lambda>w. w \<noteq> [] \<and> \<not> plain (hd w)) ws" "list_all plain s"
  shows "strip_codes ws n s = s"
proof (cases n)
  case (Suc m)
  have "\<not> prefix w s" if "w \<in> set ws" for w
    using assms that by (cases w; cases s) (auto simp: list_all_iff)
  then have "find (\<lambda>w. prefix w s) ws = None" by (auto simp: find_None_iff)
  then show ?thesis by (simp add: Suc)
qed simp

lemma trim_plain: "list_all plain s \<Longrightarrow> trim s = s"
  using strip_codes_plain [OF ws_codes_not_plain(1)] strip_codes_plain [OF ws_codes_not_plain(2)]
  by (simp add: trim_def trim_start_def trim_end_def list_all_rev)

lemma digit_plain: "is_digit c \<Longrightarrow> plain c"
  by (simp add: is_digit_def plain_def)

lemma nat_digits_digits: "list_all is_digit (nat_digits n)"
  using all_digits_nat_digits [of n] by (simp add: all_digits_def)

lemma nat_digits_nonempty [simp]: "nat_digits n \<noteq> []"
  using all_digits_nat_digits [of n] by (simp add: all_digits_def)

lemma int_str_plain: "list_all plain (int_str k)"
  using nat_digits_digits digit_plain by (auto simp: int_str_def list_all_iff plain_def byte_def)

lemma sign_not_digit [simp]: "\<not> is_digit (CHR ''-'')" "\<not> is_digit (CHR ''+'')"
  by (simp_all add: is_digit_def byte_def)

lemma parse_signed_digit:
  "is_digit c \<Longrightarrow> parse_signed (c # t) = parse_digits (c # t)"
  using sign_not_digit by (auto simp: parse_signed_def starts_with_def)

lemma parse_signed_int_str [simp]: "parse_signed (int_str k) = Some k"
proof (cases "k < 0")
  case True
  then show ?thesis by (simp add: int_str_def parse_signed_def parse_digits_def starts_with_def)
next
  case False
  obtain c t where ct: "nat_digits (nat k) = c # t" by (meson list.exhaust nat_digits_nonempty)
  then have "is_digit c" using nat_digits_digits [of "nat k"] by simp
  then have "parse_signed (nat_digits (nat k)) = parse_digits (nat_digits (nat k))"
    unfolding ct by (rule parse_signed_digit)
  with False show ?thesis by (simp add: int_str_def parse_digits_def)
qed

lemma parse_int_arg_int_str: "in_i64 k \<Longrightarrow> parse_int_arg (int_str k) = Some k"
  by (simp add: parse_int_arg_def trim_plain int_str_plain parse_i64_def)

text \<open>
  What the script engine's number printing is relied on for: a printable literal that ends in no
  letter and that the core's parser reads back as the same number, an integer being printed plainly.
\<close>

definition number_text :: "f64 \<Rightarrow> string \<Rightarrow> bool" where
  "number_text x t =
    (list_all plain t \<and> t \<noteq> [] \<and> \<not> is_alpha (last t) \<and> parse_f64 t = Some x
     \<and> (\<forall>k. x = F_Fin (of_int k) \<longrightarrow> t = int_str k))"

lemma strip_unit_suffix:
  "list_all plain t \<Longrightarrow> plain u \<Longrightarrow> is_alpha u \<Longrightarrow> strip_unit (t @ [u]) = (t, Some u)"
  by (simp add: strip_unit_def trim_plain)

lemma strip_unit_none: "number_text x t \<Longrightarrow> strip_unit t = (t, None)"
  by (simp add: strip_unit_def trim_plain number_text_def)

lemma parse_float_arg_text:
  "number_text x t \<Longrightarrow> f64_is_finite x \<Longrightarrow> parse_float_arg t = Some x"
  by (simp add: parse_float_arg_def trim_plain number_text_def)

text \<open>Integers up to \<open>2 ^ 52\<close> are printed and read back exactly.\<close>

lemma parse_number_digits:
  "list_all is_digit s \<Longrightarrow> s \<noteq> [] \<Longrightarrow> parse_number s = Some (of_nat (digits_val s))"
proof -
  assume "list_all is_digit s" "s \<noteq> []"
  then have tw: "takeWhile is_digit s = s" "dropWhile is_digit s = []"
    by (auto simp: list_all_iff takeWhile_eq_all_conv dropWhile_eq_Nil_conv)
  show ?thesis
    unfolding parse_number_def Let_def tw using \<open>s \<noteq> []\<close>
    by (simp add: parse_exponent_def pow10_def starts_with_def)
qed

lemma digit_lower: "is_digit c \<Longrightarrow> ascii_lower c = c"
  by (simp add: is_digit_def ascii_lower_def is_upper_def)

lemma parse_f64_digits:
  assumes "list_all is_digit s" "s \<noteq> []"
  shows "parse_f64_body s = Some (round64 (of_nat (digits_val s)))" "parse_f64 s = parse_f64_body s"
proof -
  obtain c t where s: "s = c # t" using assms(2) by (cases s) auto
  have d: "is_digit c" using assms s by simp
  then have h: "hd (to_lower s) = c" by (simp add: s to_lower_def digit_lower)
  have "\<not> is_digit (CHR ''n'')" "\<not> is_digit (CHR ''i'')" by (simp_all add: is_digit_def byte_def)
  then have "c \<noteq> CHR ''n''" "c \<noteq> CHR ''i''" using d by auto
  then have "to_lower s \<noteq> ''nan''" "to_lower s \<noteq> ''inf''" "to_lower s \<noteq> ''infinity''"
    using h by auto
  then show "parse_f64_body s = Some (round64 (of_nat (digits_val s)))"
    by (simp add: parse_f64_body_def Let_def parse_number_digits [OF assms])
  have "c \<noteq> CHR ''-''" "c \<noteq> CHR ''+''" using d sign_not_digit by auto
  then show "parse_f64 s = parse_f64_body s"
    by (simp add: parse_f64_def s starts_with_def)
qed

lemma parse_f64_nat_digits:
  "parse_f64_body (nat_digits n) = Some (round64 (of_nat n))"
  "parse_f64 (nat_digits n) = Some (round64 (of_nat n))"
  using parse_f64_digits [OF nat_digits_digits nat_digits_nonempty, of n] by simp_all

lemma parse_f64_int_str:
  assumes "\<bar>k\<bar> \<le> 2 ^ 52" shows "parse_f64 (int_str k) = Some (F_Fin (of_int k))"
proof (cases "k < 0")
  case True
  then have n: "rat_of_nat (nat (- k)) = of_int (- k)" by simp
  have "parse_f64 (int_str k) = Some (f64_neg (round64 (of_int (- k))))"
    using True by (simp only: int_str_def parse_f64_def starts_with_def if_True list.sel
        list.distinct simp_thms parse_f64_nat_digits n option.map)
  also have "round64 (of_int (- k)) = F_Fin (of_int (- k))"
    by (rule round64_of_int) (use assms in simp)
  finally show ?thesis by (simp add: f64_neg_def)
next
  case False
  then have "rat_of_nat (nat k) = of_int k" by simp
  with False show ?thesis
    by (simp only: int_str_def if_False parse_f64_nat_digits round64_of_int [OF assms])
qed

lemma number_text_int_str:
  assumes "\<bar>k\<bar> \<le> 2 ^ 52" shows "number_text (F_Fin (of_int k)) (int_str k)"
proof -
  have "int_str k \<noteq> []" by (simp add: int_str_def)
  moreover have "is_digit (last (nat_digits n))" for n
    using nat_digits_digits [of n] last_in_set [OF nat_digits_nonempty, of n]
    by (simp add: list_all_iff)
  then have "is_digit (last (int_str k))" by (simp add: int_str_def)
  then have "\<not> is_alpha (last (int_str k))"
    by (simp add: is_alpha_def is_digit_def is_upper_def is_lower_def)
  ultimately show ?thesis
    using assms by (simp add: number_text_def int_str_plain parse_f64_int_str)
qed

section \<open>Lemmas: the gate and the catalogue\<close>

type_synonym range_sig = "nat \<times> arg_type \<times> rat \<times> rat \<times> string"

text \<open>The ranges the gate enforces on what the form sends: position, kind, bounds and unit.\<close>

definition gate_sig :: "string \<Rightarrow> range_sig list" where
  "gate_sig c =
    (if c = ''charging-set-limit'' then [(0, AT_int, 50, 100, [])]
     else if c = ''charging-set-amps'' then [(0, AT_int, 1, 48, [])]
     else if c = ''charging-schedule'' then [(0, AT_int, 0, 1439, [])]
     else if c = ''media-set-volume'' then [(0, AT_float, 0, 10, [])]
     else if c = ''climate-set-temp'' then [(0, AT_float, 15, 28, ''C'')]
     else if c = ''software-update-start'' then [(0, AT_int, 0, 3600, ''s'')]
     else if c = ''charging-schedule-add'' \<or> c = ''precondition-schedule-add'' then
       [(2, AT_float, - 90, 90, []), (3, AT_float, - 180, 180, [])]
     else [])"

fun slider_sig :: "nat \<Rightarrow> arg_spec list \<Rightarrow> (nat \<times> arg_type \<times> rat option \<times> rat option \<times> string) list"
where
  "slider_sig i [] = []"
| "slider_sig i (a # as) =
    (if (a_type a = AT_int \<or> a_type a = AT_float) \<and> a_min a \<noteq> None \<and> a_max a \<noteq> None
     then (i, a_type a, a_min a, a_max a, a_sendSuffix a) # slider_sig (Suc i) as
     else slider_sig (Suc i) as)"

definition sig_opt :: "range_sig \<Rightarrow> nat \<times> arg_type \<times> rat option \<times> rat option \<times> string" where
  "sig_opt s = (case s of (i, t, lo, hi, u) \<Rightarrow> (i, t, Some lo, Some hi, u))"

text \<open>A value the form sends for a range: a number in it, printed, with the unit glued on.\<close>

definition sends_in_range :: "string list \<Rightarrow> range_sig \<Rightarrow> bool" where
  "sends_in_range as s =
    (case s of (i, t, lo, hi, u) \<Rightarrow>
       i < length as \<and>
       (\<exists>x q. number_text q x \<and> f64_within lo hi q
          \<and> (t = AT_int \<longrightarrow> (\<exists>k. q = F_Fin (of_int k))) \<and> as ! i = x @ u))"

lemma first_arg_Cons [simp]: "first_arg c (a # as) = Inr a"
  by (simp add: first_arg_def)

lemma sends_int:
  assumes "sends_in_range as (0, AT_int, of_int lo, of_int hi, u)"
  obtains k rest where "as = (int_str k @ u) # rest" "lo \<le> k" "k \<le> hi"
proof -
  obtain x q where *: "0 < length as" "number_text q x" "f64_within (of_int lo) (of_int hi) q"
    "\<exists>k. q = F_Fin (of_int k)" "as ! 0 = x @ u"
    using assms by (auto simp: sends_in_range_def)
  then obtain k where k: "q = F_Fin (of_int k)" by blast
  then have "x = int_str k" using * by (simp add: number_text_def)
  moreover have "lo \<le> k" "k \<le> hi" using *(3) k by (auto simp: f64_within_iff)
  ultimately show thesis using * that by (cases as) auto
qed

lemma sends_float:
  assumes "sends_in_range as (i, AT_float, lo, hi, u)"
  obtains x q where "i < length as" "number_text q x" "f64_within lo hi q" "as ! i = x @ u"
  using assms by (auto simp: sends_in_range_def)

lemma float_in_range_text:
  "number_text q x \<Longrightarrow> f64_within lo hi q \<Longrightarrow> float_in_range c s x lo hi = Inr ()"
  by (simp add: float_in_range_def parse_float_arg_text f64_within_finite)

lemma in_i64_small: "0 \<le> k \<Longrightarrow> k \<le> 4000 \<Longrightarrow> in_i64 k"
  by (simp add: in_i64_def)

lemma int_str_head: "0 \<le> k \<Longrightarrow> \<not> prefix ''-'' (int_str k @ u)"
proof -
  assume "0 \<le> k"
  obtain c t where ct: "nat_digits (nat k) = c # t" by (meson list.exhaust nat_digits_nonempty)
  then have "c \<noteq> CHR ''-''" using nat_digits_digits [of "nat k"] sign_not_digit by auto
  with ct \<open>0 \<le> k\<close> show ?thesis by (simp add: int_str_def)
qed

text \<open>One lemma for each branch of the gate.\<close>

lemma int_in_range_sends:
  assumes "sends_in_range as (0, AT_int, of_int lo, of_int hi, [])" "0 \<le> lo" "hi \<le> 4000"
  shows "int_in_range c as lo hi = Inr ()"
proof -
  obtain k rest where "as = (int_str k @ []) # rest" "lo \<le> k" "k \<le> hi"
    using assms(1) by (rule sends_int)
  then show ?thesis using assms(2,3)
    by (simp add: int_in_range_def parse_int_arg_int_str in_i64_small)
qed

lemmas limit_sends = int_in_range_sends [of _ 50 100, simplified]
lemmas amps_sends = int_in_range_sends [of _ 1 48, simplified]

lemma schedule_sends:
  assumes "sends_in_range as (0, AT_int, 0, 1439, [])" shows "gate_schedule c as = Inr ()"
proof -
  have "sends_in_range as (0, AT_int, of_int 0, of_int 1439, [])" using assms by simp
  then obtain k rest where "as = (int_str k @ []) # rest" "0 \<le> k" "k \<le> 1439" by (rule sends_int)
  then show ?thesis by (simp add: gate_schedule_def parse_int_arg_int_str in_i64_small)
qed

lemma volume_sends:
  assumes "sends_in_range as (0, AT_float, 0, 10, [])"
  shows "and_then (first_arg c as) (\<lambda>a. float_in_range c a a 0 10) = Inr ()"
proof -
  obtain x q where "0 < length as" "number_text q x" "f64_within 0 10 q" "as ! 0 = x @ []"
    using assms by (rule sends_float)
  then show ?thesis by (cases as) (auto simp: float_in_range_text)
qed

lemma temp_sends:
  assumes "sends_in_range as (0, AT_float, 15, 28, ''C'')" shows "gate_temp c as = Inr ()"
proof -
  obtain x q where *: "0 < length as" "number_text q x" "f64_within 15 28 q" "as ! 0 = x @ ''C''"
    using assms by (rule sends_float)
  have "strip_unit (x @ ''C'') = (x, Some (CHR ''C''))"
    using *(2) by (intro strip_unit_suffix)
      (simp_all add: number_text_def plain_def is_alpha_def is_upper_def byte_def)
  moreover have "ascii_upper (CHR ''C'') \<noteq> CHR ''F''"
    by (simp add: ascii_upper_def is_lower_def byte_def)
  ultimately show ?thesis using * by (cases as) (auto simp: gate_temp_def float_in_range_text)
qed

lemma update_sends:
  assumes "sends_in_range as (0, AT_int, 0, 3600, ''s'')" shows "gate_update c as = Inr ()"
proof -
  have "sends_in_range as (0, AT_int, of_int 0, of_int 3600, ''s'')" using assms by simp
  then obtain k rest where *: "as = (int_str k @ ''s'') # rest" "0 \<le> k" "k \<le> 3600"
    by (rule sends_int)
  have p: "plain (CHR ''s'')" "is_alpha (CHR ''s'')" "ascii_lower (CHR ''s'') = CHR ''s''"
    by (simp_all add: plain_def is_alpha_def is_lower_def is_upper_def byte_def ascii_lower_def)
  have "strip_unit (int_str k @ ''s'') = (int_str k, Some (CHR ''s''))"
    using p int_str_plain by (intro strip_unit_suffix) simp_all
  moreover have "trim (int_str k @ ''s'') = int_str k @ ''s''"
    using p int_str_plain by (intro trim_plain) simp
  ultimately show ?thesis using * p int_str_head [OF *(2), of "''s''"]
    by (simp add: gate_update_def parse_int_arg_int_str in_i64_small)
qed

lemma coord_sends:
  assumes "sends_in_range as (i, AT_float, lo, hi, [])" shows "gate_coord c as i lo hi = Inr ()"
proof -
  obtain x q where "i < length as" "number_text q x" "f64_within lo hi q" "as ! i = x @ []"
    using assms by (rule sends_float)
  then show ?thesis by (simp add: gate_coord_def float_in_range_text)
qed

text \<open>The gated commands and what the gate is for each of them.\<close>

definition gated :: "string list" where
  "gated = [''charging-set-limit'', ''charging-set-amps'', ''charging-schedule'',
    ''media-set-volume'', ''climate-set-temp'', ''software-update-start'',
    ''charging-schedule-add'', ''precondition-schedule-add'']"

lemma gate_sig_eval [table_simps]:
  "gate_sig ''charging-set-limit'' = [(0, AT_int, 50, 100, [])]"
  "gate_sig ''charging-set-amps'' = [(0, AT_int, 1, 48, [])]"
  "gate_sig ''charging-schedule'' = [(0, AT_int, 0, 1439, [])]"
  "gate_sig ''media-set-volume'' = [(0, AT_float, 0, 10, [])]"
  "gate_sig ''climate-set-temp'' = [(0, AT_float, 15, 28, ''C'')]"
  "gate_sig ''software-update-start'' = [(0, AT_int, 0, 3600, ''s'')]"
  "gate_sig ''charging-schedule-add'' = [(2, AT_float, - 90, 90, []), (3, AT_float, - 180, 180, [])]"
  "gate_sig ''precondition-schedule-add''
     = [(2, AT_float, - 90, 90, []), (3, AT_float, - 180, 180, [])]"
  by (simp_all add: gate_sig_def)

lemma validate_eval [table_simps]:
  "validate_arg_ranges ''charging-set-limit'' as = int_in_range ''charging-set-limit'' as 50 100"
  "validate_arg_ranges ''charging-set-amps'' as = int_in_range ''charging-set-amps'' as 1 48"
  "validate_arg_ranges ''charging-schedule'' as = gate_schedule ''charging-schedule'' as"
  "validate_arg_ranges ''media-set-volume'' as
     = and_then (first_arg ''media-set-volume'' as)
         (\<lambda>a. float_in_range ''media-set-volume'' a a 0 10)"
  "validate_arg_ranges ''climate-set-temp'' as = gate_temp ''climate-set-temp'' as"
  "validate_arg_ranges ''software-update-start'' as = gate_update ''software-update-start'' as"
  "validate_arg_ranges ''charging-schedule-add'' as
     = and_then (gate_coord ''charging-schedule-add'' as 2 (- 90) 90)
         (\<lambda>_. gate_coord ''charging-schedule-add'' as 3 (- 180) 180)"
  "validate_arg_ranges ''precondition-schedule-add'' as
     = and_then (gate_coord ''precondition-schedule-add'' as 2 (- 90) 90)
         (\<lambda>_. gate_coord ''precondition-schedule-add'' as 3 (- 180) 180)"
  by (simp_all add: validate_arg_ranges_def)

lemma validate_ungated:
  assumes "c \<notin> set gated" shows "validate_arg_ranges c as = Inr ()"
proof -
  have "c \<noteq> g" if "g \<in> set gated" for g using assms that by blast
  note n = this [unfolded gated_def list.set insert_iff]
  show ?thesis
    unfolding validate_arg_ranges_def by (simp only: n simp_thms if_False)
qed

lemma gate_accepts_sig:
  assumes "\<forall>s \<in> set (gate_sig c). sends_in_range as s"
  shows "validate_arg_ranges c as = Inr ()"
proof (cases "c \<in> set gated")
  case True
  have "\<forall>c \<in> set gated. (\<forall>s \<in> set (gate_sig c). sends_in_range as s)
      \<longrightarrow> validate_arg_ranges c as = Inr ()"
    by (simp add: gated_def table_simps limit_sends amps_sends schedule_sends volume_sends
        temp_sends update_sends coord_sends del: and_then_Inr)
  with True assms show ?thesis by blast
qed (rule validate_ungated)

text \<open>What the integer gates have established when they accept.\<close>

lemma int_in_range_ok:
  "int_in_range c as lo hi = Inr () \<Longrightarrow>
   \<exists>k. as \<noteq> [] \<and> parse_int_arg (hd as) = Some k \<and> lo \<le> k \<and> k \<le> hi"
  by (cases as) (auto simp: int_in_range_def first_arg_def split: option.splits)

lemma gate_schedule_ok:
  "gate_schedule c as = Inr () \<Longrightarrow>
   \<exists>k. as \<noteq> [] \<and> parse_int_arg (hd as) = Some k \<and> 0 \<le> k \<and> k \<le> 1439"
  by (cases as) (auto simp: gate_schedule_def first_arg_def split: option.splits)

lemma catalog_gate:
  "\<forall>c \<in> set (concat (map cat_commands CATEGORIES)).
     slider_sig 0 (c_args c) = map sig_opt (gate_sig (c_id c)) \<and> is_known_command (c_id c)"
proof -
  have "list_all (\<lambda>c. slider_sig 0 (c_args c) = map sig_opt (gate_sig (c_id c))
      \<and> is_known_command (c_id c)) (concat (map cat_commands CATEGORIES))"
    by code_simp
  then show ?thesis by (simp only: list_all_iff)
qed

section \<open>Properties\<close>

text \<open>
  The core's range gate and the catalogue agree.  For every command of the catalogue the numeric
  arguments the form shows as sliders are exactly the ones the gate bounds, at the same positions
  and with the same minimum, maximum and unit; and the core knows every command of the catalogue.
\<close>

theorem gate_agrees_with_catalog:
  "\<forall>c \<in> set (concat (map cat_commands CATEGORIES)).
     slider_sig 0 (c_args c) = map sig_opt (gate_sig (c_id c)) \<and> is_known_command (c_id c)"
  by (rule catalog_gate)

theorem gate_agrees_with_catalog_witness:
  "slider_sig 0 chargeScheduleAddArgs = map sig_opt (gate_sig ''charging-schedule-add'')"
proof -
  have "cmd ''charging-schedule-add'' ''Add Charge Schedule'' chargeScheduleAddArgs None
      \<in> set (concat (map cat_commands CATEGORIES))"
    by (simp add: CATEGORIES_def cat_charging_def)
  then show ?thesis using gate_agrees_with_catalog by (fastforce simp: cmd_def)
qed

text \<open>
  The gate refuses nothing the form offers.  For any command, when every bounded argument is a
  number inside its bounds as the script engine prints it, with its unit, the gate accepts.
\<close>

theorem gate_accepts_form_values:
  assumes "\<forall>s \<in> set (gate_sig c). sends_in_range as s"
  shows "validate_arg_ranges c as = Inr ()"
  using assms by (rule gate_accepts_sig)

theorem gate_accepts_form_values_witness:
  "validate_arg_ranges ''software-update-start'' [int_str 600 @ ''s''] = Inr ()"
proof (rule gate_accepts_form_values)
  have "number_text (F_Fin (of_int 600)) (int_str 600)" by (rule number_text_int_str) simp
  then have "sends_in_range [int_str 600 @ ''s''] (0, AT_int, 0, 3600, ''s'')"
    by (auto simp: sends_in_range_def f64_within_def intro!: exI [of _ "int_str 600"]
        exI [of _ "F_Fin 600"] exI [of _ "600::int"])
  then show "\<forall>s \<in> set (gate_sig ''software-update-start''). sends_in_range [int_str 600 @ ''s''] s"
    by (simp add: gate_sig_eval)
qed

text \<open>
  Nothing out of range passes the gate, whatever the text is.  If the gate accepts, a charge
  limit, charge current or schedule time is an integer in its range (so the 32-bit value the session
  sends does not wrap), a volume, latitude or longitude is a finite number in its range, and a
  temperature lies in the range of its unit.
\<close>

theorem gate_sound:
  assumes "validate_arg_ranges c as = Inr ()"
  shows "(c = ''charging-set-limit'' \<longrightarrow>
      (\<exists>k. as \<noteq> [] \<and> parse_int_arg (hd as) = Some k \<and> 50 \<le> k \<and> k \<le> 100))
    \<and> (c = ''charging-set-amps'' \<longrightarrow>
      (\<exists>k. as \<noteq> [] \<and> parse_int_arg (hd as) = Some k \<and> 1 \<le> k \<and> k \<le> 48))
    \<and> (c = ''charging-schedule'' \<longrightarrow>
      (\<exists>k. as \<noteq> [] \<and> parse_int_arg (hd as) = Some k \<and> 0 \<le> k \<and> k \<le> 1439))
    \<and> (c = ''media-set-volume'' \<longrightarrow>
      (\<exists>q. as \<noteq> [] \<and> parse_float_arg (hd as) = Some (F_Fin q) \<and> 0 \<le> q \<and> q \<le> 10))
    \<and> (c = ''climate-set-temp'' \<longrightarrow>
      (\<exists>q. as \<noteq> [] \<and> parse_float_arg (fst (strip_unit (hd as))) = Some (F_Fin q)
         \<and> (15 \<le> q \<and> q \<le> 28 \<or> 59 \<le> q \<and> q \<le> 82
              \<and> map_option ascii_upper (snd (strip_unit (hd as))) = Some (CHR ''F''))))
    \<and> (c = ''charging-schedule-add'' \<or> c = ''precondition-schedule-add'' \<longrightarrow>
      (\<forall>(i, b) \<in> {(2, 90), (3, 180)}. i < length as \<longrightarrow>
         (\<exists>q. parse_float_arg (as ! i) = Some (F_Fin q) \<and> - b \<le> q \<and> q \<le> b)))"
proof -
  have float: "\<exists>q. parse_float_arg x = Some (F_Fin q) \<and> lo \<le> q \<and> q \<le> hi"
    if "float_in_range c s x lo hi = Inr ()" for c s x lo hi
    using that by (auto simp: float_in_range_def f64_within_iff split: option.splits)
  have vol: "\<exists>q. as \<noteq> [] \<and> parse_float_arg (hd as) = Some (F_Fin q) \<and> 0 \<le> q \<and> q \<le> 10"
    if "and_then (first_arg c as) (\<lambda>a. float_in_range c a a 0 10) = Inr ()" for c
    using that float by (cases as) (auto simp: first_arg_def)
  have temp: "\<exists>q. as \<noteq> [] \<and> parse_float_arg (fst (strip_unit (hd as))) = Some (F_Fin q)
         \<and> (15 \<le> q \<and> q \<le> 28 \<or> 59 \<le> q \<and> q \<le> 82
              \<and> map_option ascii_upper (snd (strip_unit (hd as))) = Some (CHR ''F''))"
    if "gate_temp c as = Inr ()" for c
    using that float
    by (cases as) (fastforce simp: gate_temp_def first_arg_def split: prod.splits if_splits)+
  have coord: "\<exists>q. parse_float_arg (as ! i) = Some (F_Fin q) \<and> lo \<le> q \<and> q \<le> hi"
    if "gate_coord c as i lo hi = Inr ()" "i < length as" for c i lo hi
    using that float by (auto simp: gate_coord_def)
  have coords: "\<forall>(i, b) \<in> {(2, 90), (3, 180)}. i < length as \<longrightarrow>
         (\<exists>q. parse_float_arg (as ! i) = Some (F_Fin q) \<and> - b \<le> q \<and> q \<le> b)"
    if "gate_coord c as 2 (- 90) 90 = Inr ()" "gate_coord c as 3 (- 180) 180 = Inr ()" for c
    using coord [OF that(1)] coord [OF that(2)] by simp
  show ?thesis
  proof (intro conjI impI)
    assume "c = ''charging-set-limit''"
    with assms show "\<exists>k. as \<noteq> [] \<and> parse_int_arg (hd as) = Some k \<and> 50 \<le> k \<and> k \<le> 100"
      by (intro int_in_range_ok) (simp only: validate_eval)
  next
    assume "c = ''charging-set-amps''"
    with assms show "\<exists>k. as \<noteq> [] \<and> parse_int_arg (hd as) = Some k \<and> 1 \<le> k \<and> k \<le> 48"
      by (intro int_in_range_ok) (simp only: validate_eval)
  next
    assume "c = ''charging-schedule''"
    with assms show "\<exists>k. as \<noteq> [] \<and> parse_int_arg (hd as) = Some k \<and> 0 \<le> k \<and> k \<le> 1439"
      by (intro gate_schedule_ok) (simp only: validate_eval)
  next
    assume "c = ''media-set-volume''"
    with assms show "\<exists>q. as \<noteq> [] \<and> parse_float_arg (hd as) = Some (F_Fin q) \<and> 0 \<le> q \<and> q \<le> 10"
      by (intro vol) (simp only: validate_eval)
  next
    assume "c = ''climate-set-temp''"
    with assms show "\<exists>q. as \<noteq> [] \<and> parse_float_arg (fst (strip_unit (hd as))) = Some (F_Fin q)
         \<and> (15 \<le> q \<and> q \<le> 28 \<or> 59 \<le> q \<and> q \<le> 82
              \<and> map_option ascii_upper (snd (strip_unit (hd as))) = Some (CHR ''F''))"
      by (intro temp) (simp only: validate_eval)
  next
    assume "c = ''charging-schedule-add'' \<or> c = ''precondition-schedule-add''"
    then have "gate_coord c as 2 (- 90) 90 = Inr () \<and> gate_coord c as 3 (- 180) 180 = Inr ()"
      using assms by (elim disjE) (simp_all only: validate_eval and_then_Inr, auto)
    then show "\<forall>(i, b) \<in> {(2, 90), (3, 180)}. i < length as \<longrightarrow>
         (\<exists>q. parse_float_arg (as ! i) = Some (F_Fin q) \<and> - b \<le> q \<and> q \<le> b)"
      using coords by blast
  qed
qed

theorem gate_sound_witness:
  "\<exists>k. parse_int_arg (int_str 80) = Some k \<and> 50 \<le> k \<and> k \<le> 100"
proof -
  have "validate_arg_ranges ''charging-set-limit'' [int_str 80] = Inr ()"
    by (simp add: validate_eval int_in_range_def parse_int_arg_int_str in_i64_small)
  from gate_sound [OF this] show ?thesis by simp
qed

end
