(* ===== verification/Vendor_Table.thy ===== *)
theory Vendor_Table
  imports Command_Gate Argument_Form
begin

text \<open>
  The command table of the session process, \<^verbatim>\<open>session/commands_vendor.go\<close>: the entry of every
  command, the readiness and arity checks of \<^verbatim>\<open>execute\<close>, the keyword map handed to a handler, and
  the handlers themselves as functions from keywords to the one call they make on the vehicle.  The
  call's own client-side check and the vehicle subsystem it addresses come from the vendored SDK
  (\<^verbatim>\<open>thirdparty/vehicle-command/pkg/vehicle\<close>, \<^verbatim>\<open>internal/dispatcher\<close>).  Go's 32-bit floats and
  durations, the reading of a public key file and the clock are the fields of \<^verbatim>\<open>go_env\<close>; what the
  handlers print and the wording of their error texts are not modelled.
\<close>

section \<open>Errors and subsystems\<close>

datatype gerr =
    E_args
  | E_unknown_command
  | E_needs_oauth
  | E_needs_vin
  | E_needs_key
  | E_no_session
  | E_not_connected
  | E_canceled
  | E_deadline
  | E_dbus string
  | E_command string bool bool
  | E_plain string

datatype domain = VCSEC | Infotainment

section \<open>The command table\<close>

record vcommand =
  vc_auth :: bool
  vc_fleet :: bool
  vc_args :: "string list"
  vc_optional :: "string list"
  vc_domain :: "domain option"

definition vcmd ::
    "bool \<Rightarrow> bool \<Rightarrow> string list \<Rightarrow> string list \<Rightarrow> domain option \<Rightarrow> vcommand" where
  "vcmd auth fleet as os d =
    \<lparr>vc_auth = auth, vc_fleet = fleet, vc_args = as, vc_optional = os, vc_domain = d\<rparr>"

definition vendor_commands :: "(string \<times> vcommand) list" where
  "vendor_commands =
   [(''valet-mode-on'', vcmd True False [''PIN''] [] None),
    (''valet-mode-off'', vcmd True False [] [] None),
    (''unlock'', vcmd True False [] [] None),
    (''lock'', vcmd True False [] [] None),
    (''drive'', vcmd True False [] [] None),
    (''climate-on'', vcmd True False [] [] None),
    (''climate-off'', vcmd True False [] [] None),
    (''climate-set-temp'', vcmd True False [''TEMP''] [] None),
    (''add-key'', vcmd True False [''PUBLIC_KEY'', ''ROLE'', ''FORM_FACTOR''] [] None),
    (''add-key-request'', vcmd False False [''PUBLIC_KEY'', ''ROLE'', ''FORM_FACTOR''] [] None),
    (''remove-key'', vcmd True False [''PUBLIC_KEY''] [] None),
    (''rename-key'', vcmd False True [''PUBLIC_KEY'', ''NAME''] [] None),
    (''get'', vcmd False True [''ENDPOINT''] [] None),
    (''post'', vcmd False True [''ENDPOINT''] [''FILE''] None),
    (''list-keys'', vcmd False False [] [] None),
    (''honk'', vcmd True False [] [] None),
    (''ping'', vcmd True False [] [] None),
    (''flash-lights'', vcmd True False [] [] None),
    (''keep-accessory-power'', vcmd True False [''STATE''] [] None),
    (''low-power-mode'', vcmd True False [''STATE''] [] None),
    (''charging-set-limit'', vcmd True False [''PERCENT''] [] None),
    (''charging-set-amps'', vcmd True False [''AMPS''] [] None),
    (''charging-start'', vcmd True False [] [] None),
    (''charging-stop'', vcmd True False [] [] None),
    (''charging-schedule'', vcmd True False [''MINS''] [] None),
    (''charging-schedule-cancel'', vcmd True False [] [] None),
    (''media-set-volume'', vcmd True False [''VOLUME''] [] None),
    (''media-volume-up'', vcmd True False [] [] None),
    (''media-volume-down'', vcmd True False [] [] None),
    (''media-next-favorite'', vcmd True False [] [] None),
    (''media-next-track'', vcmd True False [] [] None),
    (''media-previous-track'', vcmd True False [] [] None),
    (''media-previous-favorite'', vcmd True False [] [] None),
    (''media-toggle-playback'', vcmd True False [] [] None),
    (''software-update-start'', vcmd True False [''DELAY''] [] None),
    (''software-update-cancel'', vcmd True False [] [] None),
    (''sentry-mode'', vcmd True False [''STATE''] [] None),
    (''wake'', vcmd False False [] [] None),
    (''tonneau-open'', vcmd True False [] [] None),
    (''tonneau-close'', vcmd True False [] [] None),
    (''tonneau-stop'', vcmd True False [] [] None),
    (''trunk-open'', vcmd True False [] [] None),
    (''trunk-move'', vcmd True False [] [] None),
    (''trunk-close'', vcmd True False [] [] None),
    (''frunk-open'', vcmd True False [] [] None),
    (''charge-port-open'', vcmd True False [] [] None),
    (''charge-port-close'', vcmd True False [] [] None),
    (''autosecure-modelx'', vcmd True False [] [] None),
    (''session-info'', vcmd False False [''PUBLIC_KEY'', ''DOMAIN''] [] None),
    (''seat-heater'', vcmd True False [''SEAT'', ''LEVEL''] [] None),
    (''steering-wheel-heater'', vcmd True False [''STATE''] [] None),
    (''product-info'', vcmd False True [] [] None),
    (''auto-seat-and-climate'', vcmd True False [''POSITIONS''] [''STATE''] None),
    (''windows-vent'', vcmd True False [] [] None),
    (''windows-close'', vcmd True False [] [] None),
    (''body-controller-state'', vcmd False False [] [] (Some VCSEC)),
    (''guest-mode-on'', vcmd True False [] [] None),
    (''guest-mode-off'', vcmd True False [] [] None),
    (''erase-guest-data'', vcmd True False [] [] None),
    (''charging-schedule-add'', vcmd True False [''DAYS'', ''TIME'', ''LATITUDE'', ''LONGITUDE'']
       [''REPEAT'', ''ID'', ''ENABLED''] None),
    (''charging-schedule-remove'', vcmd True False [''TYPE''] [''ID''] None),
    (''precondition-schedule-add'', vcmd True False [''DAYS'', ''TIME'', ''LATITUDE'',
       ''LONGITUDE''] [''REPEAT'', ''ID'', ''ENABLED''] None),
    (''precondition-schedule-remove'', vcmd True False [''TYPE''] [''ID''] None),
    (''state'', vcmd True False [''CATEGORY''] [] None)]"

definition vendor :: "string \<Rightarrow> vcommand option" where
  "vendor c = map_of vendor_commands c"

section \<open>Checks before a handler runs\<close>

text \<open>\<^verbatim>\<open>checkReadiness(name, havePrivateKey, haveOAuth, haveVIN)\<close>.\<close>

definition checkReadiness ::
    "string \<Rightarrow> bool \<Rightarrow> bool \<Rightarrow> bool \<Rightarrow> (gerr, vcommand) result" where
  "checkReadiness c key oauth vin =
    (case vendor c of
       None \<Rightarrow> Inl E_unknown_command
     | Some info \<Rightarrow>
         if vc_fleet info \<and> \<not> oauth then Inl E_needs_oauth
         else if \<not> vc_fleet info \<and> \<not> vin then Inl E_needs_vin
         else if vc_auth info \<and> \<not> key then Inl E_needs_key
         else Inr info)"

type_synonym kwargs = "string \<rightharpoonup> string"

fun required_keywords :: "nat \<Rightarrow> string list \<Rightarrow> string list \<Rightarrow> kwargs \<Rightarrow> kwargs" where
  "required_keywords i [] as m = m"
| "required_keywords i (n # ns) as m = required_keywords (i + 1) ns as (m(n \<mapsto> as ! i))"

fun optional_keywords :: "nat \<Rightarrow> string list \<Rightarrow> string list \<Rightarrow> kwargs \<Rightarrow> kwargs" where
  "optional_keywords i [] as m = m"
| "optional_keywords i (n # ns) as m =
    (if length as \<le> i then m
     else optional_keywords (i + 1) ns as (if as ! i \<noteq> [] then m(n \<mapsto> as ! i) else m))"

definition keywordArguments :: "vcommand \<Rightarrow> string list \<Rightarrow> kwargs" where
  "keywordArguments info as =
    optional_keywords (length (vc_args info)) (vc_optional info) as
      (required_keywords 0 (vc_args info) as Map.empty)"

definition arity_ok :: "vcommand \<Rightarrow> string list \<Rightarrow> bool" where
  "arity_ok info as =
    (length (vc_args info) \<le> length as
     \<and> length as \<le> length (vc_args info) + length (vc_optional info))"

text \<open>A missing key of a Go string map reads as the empty string.\<close>

definition kw :: "kwargs \<Rightarrow> string \<Rightarrow> string" where
  "kw m k = (case m k of None \<Rightarrow> [] | Some v \<Rightarrow> v)"

section \<open>Parsing of argument texts\<close>

text \<open>
  Go's \<^verbatim>\<open>strings.ToUpper\<close> and \<^verbatim>\<open>ToLower\<close>, exact for comparison with ASCII texts: besides the
  ASCII letters only four code points have an ASCII counterpart (the dotless i and the long s going
  up, the dotted I and the Kelvin sign going down).
\<close>

fun go_upper :: "string \<Rightarrow> string" where
  "go_upper [] = []"
| "go_upper [c] = [ascii_upper c]"
| "go_upper (c # d # cs) =
    (if byte c = 196 \<and> byte d = 177 then CHR ''I'' # go_upper cs
     else if byte c = 197 \<and> byte d = 191 then CHR ''S'' # go_upper cs
     else ascii_upper c # go_upper (d # cs))"

fun go_lower :: "string \<Rightarrow> string" where
  "go_lower [] = []"
| "go_lower [c] = [ascii_lower c]"
| "go_lower (c # d # cs) =
    (if byte c = 196 \<and> byte d = 176 then CHR ''i'' # go_lower cs
     else if byte c = 226 \<and> byte d = 132 \<and> cs \<noteq> [] \<and> byte (hd cs) = 170
       then CHR ''k'' # go_lower (tl cs)
     else ascii_lower c # go_lower (d # cs))"

text \<open>\<^verbatim>\<open>strconv.Atoi\<close> on a 64-bit \<^verbatim>\<open>int\<close>, and \<^verbatim>\<open>strconv.ParseUint(s, 10, 64)\<close>.\<close>

definition atoi :: "string \<Rightarrow> int option" where
  "atoi s = parse_i64 s"

definition parse_u64 :: "string \<Rightarrow> int option" where
  "parse_u64 s =
    (case parse_digits s of None \<Rightarrow> None | Some k \<Rightarrow> if k < 2 ^ 64 then Some k else None)"

definition int32 :: "int \<Rightarrow> int" where
  "int32 k = sint (word_of_int k :: 32 word)"

definition int64 :: "int \<Rightarrow> int" where
  "int64 k = sint (word_of_int k :: 64 word)"

definition dayNamesBitMask :: "(string \<times> 32 word) list" where
  "dayNamesBitMask =
    [(''SUN'', 1), (''SUNDAY'', 1), (''MON'', 2), (''MONDAY'', 2), (''TUES'', 4), (''TUESDAY'', 4),
     (''WED'', 8), (''WEDNESDAY'', 8), (''THURS'', 16), (''THURSDAY'', 16), (''FRI'', 32),
     (''FRIDAY'', 32), (''SAT'', 64), (''SATURDAY'', 64), (''ALL'', 127), (''WEEKDAYS'', 62)]"

fun days_mask :: "string list \<Rightarrow> 32 word \<Rightarrow> 32 word option" where
  "days_mask [] acc = Some acc"
| "days_mask (d # ds) acc =
    (case map_of dayNamesBitMask (trim (go_upper d)) of
       Some v \<Rightarrow> days_mask ds (or acc v)
     | None \<Rightarrow> None)"

definition GetDays :: "string \<Rightarrow> (gerr, int) result" where
  "GetDays days =
    (case days_mask (split_on (CHR '','') days) 0 of
       Some m \<Rightarrow> Inr (sint m)
     | None \<Rightarrow> Inl (E_plain ''unrecognized day name''))"

definition MinutesAfterMidnight :: "string \<Rightarrow> (gerr, int) result" where
  "MinutesAfterMidnight s =
    (case split_on (CHR '':'') s of
       [hh, mm] \<Rightarrow>
         (case (atoi hh, atoi mm) of
            (Some h, Some m) \<Rightarrow>
              if h > 23 \<or> h < 0 \<or> m > 59 \<or> m < 0 then Inl (E_plain ''invalid time'')
              else Inr (int32 (60 * h + m))
          | _ \<Rightarrow> Inl (E_plain ''invalid time''))
     | _ \<Rightarrow> Inl (E_plain ''invalid time''))"

definition categoriesByName :: "string list" where
  "categoriesByName = [''charge'', ''climate'', ''drive'', ''location'', ''closures'',
     ''charge-schedule'', ''precondition-schedule'', ''tire-pressure'', ''media'',
     ''media-detail'', ''software-update'', ''parental-controls'']"

definition GetCategory :: "string \<Rightarrow> (gerr, string) result" where
  "GetCategory s =
    (if go_lower s \<in> set categoriesByName then Inr (go_lower s)
     else Inl (E_plain ''unrecognized state category''))"

definition on_off :: "string \<Rightarrow> (gerr, bool) result" where
  "on_off s =
    (if s = ''on'' then Inr True else if s = ''off'' then Inr False
     else Inl (E_plain ''state must be on or off''))"

section \<open>The handlers\<close>

text \<open>What a handler takes from outside the table.\<close>

record go_env =
  g_f32 :: "string \<Rightarrow> f64 option"
  g_scan :: "string \<Rightarrow> (f64 \<times> string) option"
  g_celsius :: "f64 \<Rightarrow> f64"
  g_duration :: "string \<Rightarrow> int option"
  g_key_file :: "string \<Rightarrow> (string \<times> bool) option"
  g_unix :: int

text \<open>A call on \<^verbatim>\<open>*vehicle.Vehicle\<close>: the method and its arguments.\<close>

datatype carg = CA_bool bool | CA_int int | CA_str string | CA_num f64 | CA_key string bool

datatype car_call = Car string "carg list"

definition f64_lt :: "f64 \<Rightarrow> f64 \<Rightarrow> bool" where
  "f64_lt x y = (f64_le x y \<and> \<not> f64_le y x)"

definition GetDegree :: "go_env \<Rightarrow> string \<Rightarrow> (gerr, f64) result" where
  "GetDegree g s =
    (case g_f32 g s of
       None \<Rightarrow> Inl (E_plain ''syntax'')
     | Some d \<Rightarrow>
         if f64_lt d (F_Fin (- 180)) \<or> f64_lt (F_Fin 180) d
         then Inl (E_plain ''latitude and longitude must both be in the range [-180, 180]'')
         else Inr d)"

definition plain_calls :: "(string \<times> car_call) list" where
  "plain_calls =
    [(''valet-mode-off'', Car ''DisableValetMode'' []),
     (''unlock'', Car ''Unlock'' []), (''lock'', Car ''Lock'' []),
     (''drive'', Car ''RemoteDrive'' []),
     (''climate-on'', Car ''ClimateOn'' []), (''climate-off'', Car ''ClimateOff'' []),
     (''list-keys'', Car ''KeySummary'' []),
     (''honk'', Car ''HonkHorn'' []), (''ping'', Car ''Ping'' []),
     (''flash-lights'', Car ''FlashLights'' []),
     (''charging-start'', Car ''ChargeStart'' []), (''charging-stop'', Car ''ChargeStop'' []),
     (''charging-schedule-cancel'', Car ''ScheduleCharging'' [CA_bool False, CA_int 0]),
     (''media-volume-up'', Car ''VolumeUp'' []), (''media-volume-down'', Car ''VolumeDown'' []),
     (''media-next-favorite'', Car ''MediaNextFavorite'' []),
     (''media-next-track'', Car ''MediaNextTrack'' []),
     (''media-previous-track'', Car ''MediaPreviousTrack'' []),
     (''media-previous-favorite'', Car ''MediaPreviousFavorite'' []),
     (''media-toggle-playback'', Car ''ToggleMediaPlayback'' []),
     (''software-update-cancel'', Car ''CancelSoftwareUpdate'' []),
     (''wake'', Car ''Wakeup'' []),
     (''tonneau-open'', Car ''OpenTonneau'' []), (''tonneau-close'', Car ''CloseTonneau'' []),
     (''tonneau-stop'', Car ''StopTonneau'' []),
     (''trunk-open'', Car ''OpenTrunk'' []), (''trunk-move'', Car ''ActuateTrunk'' []),
     (''trunk-close'', Car ''CloseTrunk'' []), (''frunk-open'', Car ''OpenFrunk'' []),
     (''charge-port-open'', Car ''OpenChargePort'' []),
     (''charge-port-close'', Car ''CloseChargePort'' []),
     (''autosecure-modelx'', Car ''AutoSecureVehicle'' []),
     (''windows-vent'', Car ''VentWindows'' []), (''windows-close'', Car ''CloseWindows'' []),
     (''body-controller-state'', Car ''BodyControllerState'' []),
     (''guest-mode-on'', Car ''SetGuestMode'' [CA_bool True]),
     (''guest-mode-off'', Car ''SetGuestMode'' [CA_bool False]),
     (''erase-guest-data'', Car ''EraseGuestData'' [])]"

definition state_calls :: "(string \<times> string) list" where
  "state_calls =
    [(''keep-accessory-power'', ''SetKeepAccessoryPowerMode''),
     (''low-power-mode'', ''SetLowPowerMode''),
     (''sentry-mode'', ''SetSentryMode''),
     (''steering-wheel-heater'', ''SetSteeringWheelHeater'')]"

definition h_temp :: "go_env \<Rightarrow> kwargs \<Rightarrow> (gerr, car_call) result" where
  "h_temp g m =
    (case g_scan g (kw m ''TEMP'') of
       None \<Rightarrow> Inl (E_plain ''failed to parse temperature: format as 22C or 72F'')
     | Some (d, u) \<Rightarrow>
         if u = ''F'' \<or> u = ''f'' then
           Inr (Car ''ChangeClimateTemp'' [CA_num (g_celsius g d), CA_num (g_celsius g d)])
         else if u \<noteq> ''C'' \<and> u \<noteq> ''c'' then Inl (E_plain ''temperature units must be C or F'')
         else Inr (Car ''ChangeClimateTemp'' [CA_num d, CA_num d]))"

definition key_roles :: "(string \<times> int) list" where
  "key_roles = [(''ROLE_NONE'', 0), (''ROLE_SERVICE'', 1), (''ROLE_OWNER'', 2), (''ROLE_DRIVER'', 3),
     (''ROLE_FM'', 4), (''ROLE_VEHICLE_MONITOR'', 5), (''ROLE_CHARGING_MANAGER'', 6),
     (''ROLE_GUEST'', 8)]"

definition key_forms :: "(string \<times> int) list" where
  "key_forms = [(''KEY_FORM_FACTOR_UNKNOWN'', 0), (''KEY_FORM_FACTOR_NFC_CARD'', 1),
     (''KEY_FORM_FACTOR_IOS_DEVICE'', 6), (''KEY_FORM_FACTOR_ANDROID_DEVICE'', 7),
     (''KEY_FORM_FACTOR_CLOUD_KEY'', 9)]"

definition public_key :: "go_env \<Rightarrow> kwargs \<Rightarrow> (gerr, carg) result" where
  "public_key g m =
    (case g_key_file g (kw m ''PUBLIC_KEY'') of
       None \<Rightarrow> Inl (E_plain ''invalid public key'')
     | Some (k, p256) \<Rightarrow> Inr (CA_key k p256))"

definition h_add_key :: "go_env \<Rightarrow> string \<Rightarrow> kwargs \<Rightarrow> (gerr, car_call) result" where
  "h_add_key g method m =
    (case map_of key_roles (''ROLE_'' @ go_upper (kw m ''ROLE'')) of
       None \<Rightarrow> Inl E_args
     | Some r \<Rightarrow>
         (case map_of key_forms (''KEY_FORM_FACTOR_'' @ go_upper (kw m ''FORM_FACTOR'')) of
            None \<Rightarrow> Inl E_args
          | Some f \<Rightarrow>
              and_then (public_key g m) (\<lambda>k. Inr (Car method [k, CA_int r, CA_int f]))))"

definition h_session_info :: "go_env \<Rightarrow> kwargs \<Rightarrow> (gerr, car_call) result" where
  "h_session_info g m =
    (if kw m ''DOMAIN'' \<notin> {''vcsec'', ''infotainment''} then Inl (E_plain ''invalid domain'')
     else and_then (public_key g m)
            (\<lambda>k. Inr (Car ''SessionInfo'' [k, CA_str (kw m ''DOMAIN'')])))"

definition seat_names :: "string list" where
  "seat_names = [''front-left'', ''front-right'', ''2nd-row-left'', ''2nd-row-center'',
     ''2nd-row-right'', ''3rd-row-left'', ''3rd-row-right'']"

definition level_names :: "string list" where
  "level_names = [''off'', ''low'', ''medium'', ''high'']"

definition h_seat_heater :: "kwargs \<Rightarrow> (gerr, car_call) result" where
  "h_seat_heater m =
    (if kw m ''SEAT'' \<notin> set seat_names then Inl (E_plain ''invalid seat position'')
     else if kw m ''LEVEL'' \<notin> set level_names then Inl (E_plain ''invalid seat heater level'')
     else Inr (Car ''SetSeatHeater'' [CA_str (kw m ''SEAT''), CA_str (kw m ''LEVEL'')]))"

definition h_auto_seat :: "kwargs \<Rightarrow> (gerr, car_call) result" where
  "h_auto_seat m =
    (let p = kw m ''POSITIONS'';
         seats = (if CHR ''L'' \<in> set p then [''front-left''] else [])
               @ (if CHR ''R'' \<in> set p then [''front-right''] else []);
         enabled = (case m ''STATE'' of None \<Rightarrow> True | Some s \<Rightarrow> go_upper s \<noteq> ''OFF'')
     in if length seats \<noteq> length p then Inl (E_plain ''invalid seat position'')
        else Inr (Car ''AutoSeatAndClimate'' (map CA_str seats @ [CA_bool enabled])))"

definition h_schedule_remove :: "string \<Rightarrow> string \<Rightarrow> kwargs \<Rightarrow> (gerr, car_call) result" where
  "h_schedule_remove one batch m =
    (let t = go_upper (kw m ''TYPE'')
     in if t = ''ID'' then
          (case m ''ID'' of
             None \<Rightarrow> Inl (E_plain ''missing schedule ID'')
           | Some s \<Rightarrow> (case parse_u64 s of
                         None \<Rightarrow> Inl (E_plain ''expected numeric ID'')
                       | Some i \<Rightarrow> Inr (Car one [CA_int i])))
        else if t \<in> {''HOME'', ''WORK'', ''OTHER''} then
          Inr (Car batch [CA_bool (t = ''HOME''), CA_bool (t = ''WORK''), CA_bool (t = ''OTHER'')])
        else Inl (E_plain ''TYPE must be home|work|other|id''))"

definition half_time :: "string \<Rightarrow> (gerr, bool \<times> int) result" where
  "half_time s =
    (if s = [] then Inr (False, 0)
     else and_then (MinutesAfterMidnight s) (\<lambda>k. Inr (True, k)))"

definition enabled_flag :: "kwargs \<Rightarrow> bool" where
  "enabled_flag m = (case m ''ENABLED'' of None \<Rightarrow> True | Some s \<Rightarrow> s = ''true'')"

definition one_time :: "kwargs \<Rightarrow> bool" where
  "one_time m = (m ''REPEAT'' = Some ''once'')"

definition h_charge_schedule :: "go_env \<Rightarrow> kwargs \<Rightarrow> (gerr, car_call) result" where
  "h_charge_schedule g m =
    and_then (GetDays (kw m ''DAYS'')) (\<lambda>days.
      case split_on (CHR ''-'') (kw m ''TIME'') of
        [a, b] \<Rightarrow>
          and_then (half_time a) (\<lambda>(se, st).
          and_then (half_time b) (\<lambda>(ee, et).
          and_then (GetDegree g (kw m ''LATITUDE'')) (\<lambda>lat.
          and_then (GetDegree g (kw m ''LONGITUDE'')) (\<lambda>lon.
            Inr (Car ''AddChargeSchedule''
              [CA_int (g_unix g), CA_bool (enabled_flag m), CA_int days, CA_bool se, CA_int st,
               CA_bool ee, CA_int et, CA_num lat, CA_num lon, CA_bool (one_time m)])))))
      | _ \<Rightarrow> Inl (E_plain ''invalid time range''))"

definition h_precondition_schedule :: "go_env \<Rightarrow> kwargs \<Rightarrow> (gerr, car_call) result" where
  "h_precondition_schedule g m =
    and_then (case m ''ID'' of
                None \<Rightarrow> Inr (g_unix g)
              | Some s \<Rightarrow> (case parse_u64 s of
                            None \<Rightarrow> Inl (E_plain ''expected numeric ID'')
                          | Some i \<Rightarrow> Inr i)) (\<lambda>i.
    and_then (GetDays (kw m ''DAYS'')) (\<lambda>days.
    and_then (case m ''TIME'' of
                None \<Rightarrow> Inl (E_plain ''expected TIME'')
              | Some t \<Rightarrow> MinutesAfterMidnight t) (\<lambda>t.
    and_then (GetDegree g (kw m ''LATITUDE'')) (\<lambda>lat.
    and_then (GetDegree g (kw m ''LONGITUDE'')) (\<lambda>lon.
      Inr (Car ''AddPreconditionSchedule''
        [CA_int i, CA_bool (enabled_flag m), CA_int days, CA_int t, CA_num lat, CA_num lon,
         CA_bool (one_time m)]))))))"

text \<open>
  \<^verbatim>\<open>commands[name].handler\<close>.  The four account commands never get here: this process has no
  account, so \<^const>\<open>checkReadiness\<close> refuses them.
\<close>

definition handler :: "go_env \<Rightarrow> string \<Rightarrow> kwargs \<Rightarrow> (gerr, car_call) result" where
  "handler g c m =
    (case map_of plain_calls c of Some call \<Rightarrow> Inr call | None \<Rightarrow>
     case map_of state_calls c of
       Some method \<Rightarrow> and_then (on_off (kw m ''STATE'')) (\<lambda>b. Inr (Car method [CA_bool b]))
     | None \<Rightarrow>
       if c = ''valet-mode-on'' then Inr (Car ''EnableValetMode'' [CA_str (kw m ''PIN'')])
       else if c = ''climate-set-temp'' then h_temp g m
       else if c = ''add-key'' then h_add_key g ''AddKeyWithRole'' m
       else if c = ''add-key-request'' then h_add_key g ''SendAddKeyRequestWithRole'' m
       else if c = ''remove-key'' then
         and_then (public_key g m) (\<lambda>k. Inr (Car ''RemoveKey'' [k]))
       else if c = ''charging-set-limit'' then
         (case atoi (kw m ''PERCENT'') of
            None \<Rightarrow> Inl (E_plain ''error parsing PERCENT'')
          | Some k \<Rightarrow> Inr (Car ''ChangeChargeLimit'' [CA_int (int32 k)]))
       else if c = ''charging-set-amps'' then
         (case atoi (kw m ''AMPS'') of
            None \<Rightarrow> Inl (E_plain ''error parsing AMPS'')
          | Some k \<Rightarrow> Inr (Car ''SetChargingAmps'' [CA_int (int32 k)]))
       else if c = ''charging-schedule'' then
         (case atoi (kw m ''MINS'') of
            None \<Rightarrow> Inl (E_plain ''error parsing minutes'')
          | Some k \<Rightarrow>
              Inr (Car ''ScheduleCharging'' [CA_bool True, CA_int (int64 (k * 60000000000))]))
       else if c = ''media-set-volume'' then
         (case g_f32 g (kw m ''VOLUME'') of
            None \<Rightarrow> Inl (E_plain ''failed to parse volume'')
          | Some v \<Rightarrow> Inr (Car ''SetVolume'' [CA_num v]))
       else if c = ''software-update-start'' then
         (case g_duration g (kw m ''DELAY'') of
            None \<Rightarrow> Inl (E_plain ''error parsing DELAY'')
          | Some d \<Rightarrow> Inr (Car ''ScheduleSoftwareUpdate'' [CA_int d]))
       else if c = ''session-info'' then h_session_info g m
       else if c = ''seat-heater'' then h_seat_heater m
       else if c = ''auto-seat-and-climate'' then h_auto_seat m
       else if c = ''charging-schedule-add'' then h_charge_schedule g m
       else if c = ''charging-schedule-remove'' then
         h_schedule_remove ''RemoveChargeSchedule'' ''BatchRemoveChargeSchedules'' m
       else if c = ''precondition-schedule-add'' then h_precondition_schedule g m
       else if c = ''precondition-schedule-remove'' then
         h_schedule_remove ''RemovePreconditionSchedule'' ''BatchRemovePreconditionSchedules'' m
       else if c = ''state'' then
         and_then (GetCategory (kw m ''CATEGORY'')) (\<lambda>cat. Inr (Car ''GetState'' [CA_str cat]))
       else Inl E_unknown_command)"

section \<open>The vehicle call\<close>

text \<open>
  The subsystem a call is authenticated to, or none for the calls sent without authentication, and
  the check the SDK makes before it sends.
\<close>

definition call_domain :: "car_call \<Rightarrow> domain option" where
  "call_domain call =
    (case call of Car method as \<Rightarrow>
       if method \<in> {''Unlock'', ''Lock'', ''RemoteDrive'', ''AddKeyWithRole'', ''RemoveKey'',
           ''Wakeup'', ''OpenTonneau'', ''CloseTonneau'', ''StopTonneau'', ''OpenTrunk'',
           ''ActuateTrunk'', ''CloseTrunk'', ''OpenFrunk'', ''AutoSecureVehicle''} then Some VCSEC
       else if method \<in> {''SendAddKeyRequestWithRole'', ''KeySummary'', ''SessionInfo'',
           ''BodyControllerState''} then None
       else Some Infotainment)"

definition valid_pin :: "string \<Rightarrow> bool" where
  "valid_pin p = (length p = 4 \<and> list_all is_digit p)"

definition call_check :: "car_call \<Rightarrow> gerr option" where
  "call_check call =
    (case call of
       Car method [CA_str p] \<Rightarrow>
         if method = ''EnableValetMode'' \<and> \<not> valid_pin p
         then Some (E_plain ''PIN codes must be four digits'')
         else if method = ''NavigateToDestination'' \<and> (p = [] \<or> 2000 < length p)
         then Some (E_plain ''destination must be 1..2000 characters'') else None
     | Car method [CA_num v] \<Rightarrow>
         if method = ''SetVolume'' \<and> (f64_lt v (F_Fin 0) \<or> f64_lt (F_Fin 10) v)
         then Some (E_plain ''invalid volume (should be in [0, 10])'') else None
     | Car method [CA_num lat, CA_num lon, CA_int order] \<Rightarrow>
         if method \<noteq> ''NavigateToGPS'' then None
         else if \<not> f64_within (- 90) 90 lat then Some (E_plain ''invalid latitude'')
         else if \<not> f64_within (- 180) 180 lon then Some (E_plain ''invalid longitude'')
         else if order < 0 \<or> 3 < order then Some (E_plain ''invalid order'') else None
     | Car method (CA_key k p256 # _) \<Rightarrow>
         if method \<in> {''AddKeyWithRole'', ''SendAddKeyRequestWithRole'', ''RemoveKey''}
            \<and> \<not> p256
         then Some (E_plain ''invalid public key'') else None
     | _ \<Rightarrow> None)"

text \<open>
  \<^verbatim>\<open>dispatcher.Send\<close> refuses an authenticated message for a subsystem whose session is not ready;
  otherwise the vehicle's answer (\<^verbatim>\<open>reply\<close>) decides.
\<close>

definition call_car ::
    "domain list \<Rightarrow> (car_call \<Rightarrow> (gerr, string) result) \<Rightarrow> car_call \<Rightarrow> (gerr, string) result" where
  "call_car ready reply call =
    (case call_check call of
       Some e \<Rightarrow> Inl e
     | None \<Rightarrow>
         (case call_domain call of
            Some d \<Rightarrow> if d \<in> set ready then reply call else Inl E_no_session
          | None \<Rightarrow> reply call))"

text \<open>\<^verbatim>\<open>execute(ctx, nil, car, args)\<close> with a car whose private key is loaded.\<close>

definition vendor_call :: "go_env \<Rightarrow> string \<Rightarrow> string list \<Rightarrow> (gerr, car_call) result" where
  "vendor_call g c as =
    and_then (checkReadiness c True False True) (\<lambda>info.
      if arity_ok info as then handler g c (keywordArguments info as) else Inl E_args)"

definition execute ::
    "go_env \<Rightarrow> domain list \<Rightarrow> (car_call \<Rightarrow> (gerr, string) result) \<Rightarrow> string \<Rightarrow> string list
     \<Rightarrow> (gerr, string) result" where
  "execute g ready reply c as = and_then (vendor_call g c as) (call_car ready reply)"

section \<open>Lemmas: keywords\<close>

lemma required_keywords_other:
  "k \<notin> set ns \<Longrightarrow> required_keywords i ns as m k = m k"
  by (induction ns arbitrary: i m) auto

lemma required_keywords_nth:
  "distinct ns \<Longrightarrow> j < length ns \<Longrightarrow> required_keywords i ns as m (ns ! j) = Some (as ! (i + j))"
  by (induction ns arbitrary: i j m)
     (auto simp: required_keywords_other nth_Cons less_Suc_eq_0_disj split: nat.splits)

lemma optional_keywords_other:
  "k \<notin> set ns \<Longrightarrow> optional_keywords i ns as m k = m k"
  by (induction ns arbitrary: i m) auto

lemma optional_keywords_nth:
  "distinct ns \<Longrightarrow> j < length ns \<Longrightarrow> m (ns ! j) = None \<Longrightarrow>
   optional_keywords i ns as m (ns ! j) =
     (if i + j < length as \<and> as ! (i + j) \<noteq> [] then Some (as ! (i + j)) else None)"
proof (induction ns arbitrary: i j m)
  case (Cons n ns)
  show ?case
  proof (cases j)
    case 0
    then show ?thesis using Cons.prems by (simp add: optional_keywords_other)
  next
    case (Suc l)
    then have l: "l < length ns" "(n # ns) ! j = ns ! l" "ns ! l \<noteq> n"
      using Cons.prems(1,2) by auto
    show ?thesis
      using Cons.IH [of l "if as ! i \<noteq> [] then m(n \<mapsto> as ! i) else m" "i + 1"] Cons.prems l Suc
      by auto
  qed
qed simp

lemma keywordArguments_nth:
  assumes "distinct (vc_args info @ vc_optional info)"
    and "j < length (vc_args info @ vc_optional info)"
  shows "keywordArguments info as ((vc_args info @ vc_optional info) ! j) =
    (if j < length (vc_args info) \<or> j < length as \<and> as ! j \<noteq> [] then Some (as ! j) else None)"
proof (cases "j < length (vc_args info)")
  case True
  then have "vc_args info ! j \<notin> set (vc_optional info)"
    using assms(1) by (metis disjoint_iff distinct_append nth_mem)
  with True assms(1) show ?thesis
    by (simp add: keywordArguments_def nth_append optional_keywords_other required_keywords_nth)
next
  case False
  let ?l = "j - length (vc_args info)"
  have l: "?l < length (vc_optional info)" using assms(2) False by simp
  then have "vc_optional info ! ?l \<notin> set (vc_args info)"
    using assms(1) by (metis disjoint_iff distinct_append nth_mem)
  then have "required_keywords 0 (vc_args info) as Map.empty (vc_optional info ! ?l) = None"
    by (simp add: required_keywords_other)
  from optional_keywords_nth [OF _ l, of "required_keywords 0 (vc_args info) as Map.empty", OF _ this] assms(1) False
  show ?thesis by (simp add: keywordArguments_def nth_append)
qed

lemma keywordArguments_other:
  "k \<notin> set (vc_args info @ vc_optional info) \<Longrightarrow> keywordArguments info as k = None"
  by (simp add: keywordArguments_def optional_keywords_other required_keywords_other)

section \<open>Lemmas: the two tables agree\<close>

definition same_signature :: "vcommand \<Rightarrow> command_def \<Rightarrow> bool" where
  "same_signature info c =
    (\<not> vc_fleet info
     \<and> vc_args info @ vc_optional info = map a_name (c_args c)
     \<and> map a_optional (c_args c)
         = replicate (length (vc_args info)) False @ replicate (length (vc_optional info)) True
     \<and> distinct (map a_name (c_args c)))"

lemma catalog_signatures:
  "list_all (\<lambda>c. case vendor (c_id c) of None \<Rightarrow> False | Some info \<Rightarrow> same_signature info c)
     catalog_commands"
  by code_simp

lemma catalog_vendor:
  assumes "c \<in> set catalog_commands"
  obtains info where "checkReadiness (c_id c) True False True = Inr info" "same_signature info c"
proof -
  obtain info where "vendor (c_id c) = Some info" "same_signature info c"
    using catalog_signatures assms by (auto simp: list_all_iff split: option.splits)
  then show thesis by (intro that [of info]) (simp_all add: checkReadiness_def same_signature_def)
qed

lemma same_signature_optional:
  assumes "same_signature info c" "i < length (c_args c)"
  shows "a_optional (c_args c ! i) \<longleftrightarrow> length (vc_args info) \<le> i"
proof -
  have m: "map a_optional (c_args c)
      = replicate (length (vc_args info)) False @ replicate (length (vc_optional info)) True"
    using assms(1) by (simp add: same_signature_def)
  then have "length (c_args c) = length (vc_args info) + length (vc_optional info)"
    by (metis length_append length_map length_replicate)
  then show ?thesis
    using assms(2) arg_cong [OF m, of "\<lambda>l. l ! i"] by (auto simp: nth_append)
qed

lemma same_signature_length:
  "same_signature info c \<Longrightarrow> length (vc_args info @ vc_optional info) = length (c_args c)"
  by (metis length_map same_signature_def)

lemma pop_trailing_length: "length (pop_trailing xs) \<le> length xs"
  by (induction xs rule: pop_trailing.induct) auto

lemma accepted_length: "length (accepted_values f) \<le> length f"
  using pop_trailing_length [of "rev (map (\<lambda>(a, v). (a, field_out v)) f)"]
  by (simp add: accepted_values_def)

section \<open>Lemmas: numbers the gate has passed\<close>

lemma parse_digits_plain: "parse_digits s = Some k \<Longrightarrow> list_all plain s"
  using digit_plain by (auto simp: parse_digits_def all_digits_def list_all_iff split: if_splits)

lemma parse_signed_plain: "parse_signed s = Some k \<Longrightarrow> list_all plain s"
proof (cases s)
  case (Cons c t)
  assume p: "parse_signed s = Some k"
  have sign: "plain (CHR ''-'')" "plain (CHR ''+'')" by (simp_all add: plain_def byte_def)
  show ?thesis
    using p parse_digits_plain sign unfolding Cons
    by (fastforce simp: parse_signed_def starts_with_def split: if_splits)
qed simp

lemma atoi_parse_int: "atoi s = Some k \<Longrightarrow> parse_int_arg s = Some k"
proof -
  assume a: "atoi s = Some k"
  then have "list_all plain s"
    by (auto simp: atoi_def parse_i64_def intro: parse_signed_plain split: option.splits if_splits)
  with a show ?thesis by (simp add: atoi_def parse_int_arg_def trim_plain)
qed

lemma int32_small: "- (2 ^ 31) \<le> k \<Longrightarrow> k < 2 ^ 31 \<Longrightarrow> int32 k = k"
  by (simp add: int32_def sint_sbintrunc' signed_take_bit_int_eq_self)

lemma int64_small: "- (2 ^ 63) \<le> k \<Longrightarrow> k < 2 ^ 63 \<Longrightarrow> int64 k = k"
  by (simp add: int64_def sint_sbintrunc' signed_take_bit_int_eq_self)

lemma vendor_numeric [table_simps]:
  "vendor ''charging-set-limit'' = Some (vcmd True False [''PERCENT''] [] None)"
  "vendor ''charging-set-amps'' = Some (vcmd True False [''AMPS''] [] None)"
  "vendor ''charging-schedule'' = Some (vcmd True False [''MINS''] [] None)"
  by code_simp+

lemma handler_numeric [table_simps]:
  "handler g ''charging-set-limit'' m =
     (case atoi (kw m ''PERCENT'') of
        None \<Rightarrow> Inl (E_plain ''error parsing PERCENT'')
      | Some k \<Rightarrow> Inr (Car ''ChangeChargeLimit'' [CA_int (int32 k)]))"
  "handler g ''charging-set-amps'' m =
     (case atoi (kw m ''AMPS'') of
        None \<Rightarrow> Inl (E_plain ''error parsing AMPS'')
      | Some k \<Rightarrow> Inr (Car ''SetChargingAmps'' [CA_int (int32 k)]))"
  "handler g ''charging-schedule'' m =
     (case atoi (kw m ''MINS'') of
        None \<Rightarrow> Inl (E_plain ''error parsing minutes'')
      | Some k \<Rightarrow> Inr (Car ''ScheduleCharging'' [CA_bool True, CA_int (int64 (k * 60000000000))]))"
  by (simp_all add: handler_def plain_calls_def state_calls_def)

lemma one_argument:
  assumes "arity_ok (vcmd a b [n] [] d) as"
  shows "\<exists>x. as = [x] \<and> kw (keywordArguments (vcmd a b [n] [] d) as) n = x"
  using assms
  by (cases as) (auto simp: arity_ok_def vcmd_def keywordArguments_def kw_def)

lemma one_number_call:
  assumes "vendor c = Some (vcmd True False [n] [] None)"
    and "\<And>m. handler g c m = (case atoi (kw m n) of None \<Rightarrow> Inl e | Some k \<Rightarrow> Inr (F k))"
    and "vendor_call g c as = Inr call" and "parse_int_arg (hd as) = Some k"
  shows "call = F k"
proof -
  let ?info = "vcmd True False [n] [] None"
  have "arity_ok ?info as" and h: "handler g c (keywordArguments ?info as) = Inr call"
    using assms(1,3) by (simp_all add: vendor_call_def checkReadiness_def vcmd_def split: if_splits)
  then obtain x where x: "as = [x]" "kw (keywordArguments ?info as) n = x"
    using one_argument by blast
  then obtain l where "atoi x = Some l" "call = F l"
    using h assms(2) by (auto split: option.splits)
  with x assms(4) show ?thesis by (auto dest: atoi_parse_int)
qed

lemmas vendor_call_simps = vendor_call_def checkReadiness_def table_simps

section \<open>Lemmas: forms of choices\<close>

definition choice_command :: "command_def \<Rightarrow> bool" where
  "choice_command c = (c_args c \<noteq> [] \<and> list_all (\<lambda>a. field_of a = Enum_field) (c_args c))"

definition choice_forms :: "command_def \<Rightarrow> form list" where
  "choice_forms c =
    map (\<lambda>vs. zip (c_args c) (map Some vs)) (product_lists (map choices (c_args c)))"

lemma choice_table:
  "list_all (\<lambda>c. list_all (\<lambda>f. is_ok (vendor_call g (c_id c) (accepted_values f))) (choice_forms c))
     (filter choice_command catalog_commands)"
  by code_simp

lemma choice_forms_complete:
  assumes "map fst f = c_args c" "list_all (\<lambda>(a, v). \<exists>x \<in> set (choices a). v = Some x) f"
  shows "f \<in> set (choice_forms c)"
proof -
  let ?vs = "map (the \<circ> snd) f"
  have "f = zip (c_args c) (map Some ?vs)"
  proof (rule nth_equalityI)
    show "length f = length (zip (c_args c) (map Some ?vs))" using assms(1) by (simp flip: assms(1))
    show "f ! i = zip (c_args c) (map Some ?vs) ! i" if "i < length f" for i
    proof (cases "f ! i")
      case (Pair a v)
      then have "\<exists>x. v = Some x" using assms(2) that by (fastforce simp: list_all_length)
      with Pair that show ?thesis by (auto simp flip: assms(1))
    qed
  qed
  moreover have "?vs \<in> set (product_lists (map choices (c_args c)))"
  proof -
    have "list_all2 (\<lambda>x ys. x \<in> set ys) ?vs (map choices (c_args c))"
      using assms(2) by (auto simp: list_all2_conv_all_nth list_all_length simp flip: assms(1))
    then show ?thesis by (simp add: product_lists_set)
  qed
  ultimately show ?thesis unfolding choice_forms_def by (metis (no_types, lifting) image_eqI list.set_map)
qed

lemma choice_unseeded:
  assumes "c \<in> set catalog_commands" "choice_command c"
  shows "commandWithStateDefaults n vs c = c"
proof -
  have "seed_arg n s a = a" if "a \<in> set (c_args c)" for s a
    using catalog_arg [OF assms(1) that] assms(2) that
    by (simp add: seed_arg_def arg_in_order_def choice_command_def list_all_iff)
  then have "map (seed_arg n s) (c_args c) = c_args c" for s by (simp add: map_idI)
  then show ?thesis by (simp add: commandWithStateDefaults_def split: option.splits)
qed

lemma choice_visible:
  "list_all (\<lambda>c. choice_command c \<longrightarrow> list_all (\<lambda>a. \<not> a_hidden a) (c_args c))
     catalog_commands"
  by code_simp

text \<open>A library environment for examples.\<close>

definition sample_go :: go_env where
  "sample_go = \<lparr>g_f32 = (\<lambda>_. None), g_scan = (\<lambda>_. None), g_celsius = id, g_duration = (\<lambda>_. None),
     g_key_file = (\<lambda>_. Some (''K'', True)), g_unix = 0\<rparr>"

section \<open>Properties\<close>

text \<open>
  C11: The child reads a form exactly as the app filled it.  For every catalogue command and every
  valid form on it, the child knows the command, accepts the number of arguments, and hands its
  handler precisely the named values of the form: each required one, each optional one that is not
  empty, and nothing else.
\<close>

theorem vendor_reads_form:
  assumes c: "c \<in> set catalog_commands"
    and f: "map (a_name \<circ> fst) f = map a_name (c_args c)"
      "map (a_optional \<circ> fst) f = map a_optional (c_args c)"
    and valid: "formValid f"
  shows "\<exists>info. checkReadiness (c_id c) True False True = Inr info
    \<and> arity_ok info (accepted_values f)
    \<and> (\<forall>i < length f.
         keywordArguments info (accepted_values f) (a_name (fst (f ! i))) =
           (if a_optional (fst (f ! i)) \<and> field_out (snd (f ! i)) = [] then None
            else Some (field_out (snd (f ! i)))))
    \<and> dom (keywordArguments info (accepted_values f)) \<subseteq> set (map (a_name \<circ> fst) f)"
proof -
  let ?as = "accepted_values f"
  obtain info where info: "checkReadiness (c_id c) True False True = Inr info" "same_signature info c"
    using c by (rule catalog_vendor)
  let ?ns = "vc_args info @ vc_optional info"
  let ?r = "length (vc_args info)"
  have ns: "map (a_name \<circ> fst) f = ?ns" "distinct ?ns" using info(2) f(1) by (simp_all add: same_signature_def)
  then have len: "length f = length ?ns" by (metis length_map)
  have name: "?ns ! i = a_name (fst (f ! i))" if "i < length f" for i
    using that by (simp flip: ns(1))
  have opt: "a_optional (fst (f ! i)) \<longleftrightarrow> ?r \<le> i" if "i < length f" for i
  proof -
    have "length (c_args c) = length f" using f(1) by (metis length_map)
    moreover have "a_optional (fst (f ! i)) = a_optional (c_args c ! i)"
      using arg_cong [OF f(2), of "\<lambda>l. l ! i"] that calculation by simp
    ultimately show ?thesis using same_signature_optional [OF info(2)] that by simp
  qed
  have given: "i < length ?as \<and> ?as ! i = field_out (snd (f ! i)) \<and> ?as ! i \<noteq> []"
    if i: "i < length f" "\<not> a_optional (fst (f ! i))" for i
  proof -
    have "snd (f ! i) \<noteq> None \<and> snd (f ! i) \<noteq> Some []"
      using valid i unfolding formValid_def list_all_length case_prod_beta by blast
    then have "field_out (snd (f ! i)) \<noteq> []" by (auto simp: field_out_def)
    then show ?thesis using accepted_nth [OF i(1)] i(2) by (auto split: if_splits)
  qed
  have "?r \<le> length ?as"
  proof (cases ?r)
    case (Suc n)
    then have "n < length f" "\<not> a_optional (fst (f ! n))" using len opt [of n] by auto
    from given [OF this] Suc show ?thesis by simp
  qed simp
  then have "arity_ok info ?as" using accepted_length [of f] len by (simp add: arity_ok_def)
  moreover have "keywordArguments info ?as (a_name (fst (f ! i))) =
      (if a_optional (fst (f ! i)) \<and> field_out (snd (f ! i)) = [] then None
       else Some (field_out (snd (f ! i))))" if i: "i < length f" for i
    using keywordArguments_nth [OF ns(2), of i ?as] accepted_nth [OF i] given [OF i] opt [OF i] len i
    by (auto simp: name split: if_splits)
  moreover have "dom (keywordArguments info ?as) \<subseteq> set (map (a_name \<circ> fst) f)"
    using keywordArguments_other [of _ info ?as] unfolding ns(1) by fastforce
  ultimately show ?thesis using info(1) by blast
qed

theorem vendor_reads_form_witness:
  "\<exists>info. arity_ok info [''home''] \<and> keywordArguments info [''home''] ''TYPE'' = Some ''home''
        \<and> keywordArguments info [''home''] ''ID'' = None"
proof -
  let ?c = "cmd ''charging-schedule-remove'' ''Remove Charge Schedule'' scheduleRemoveArgs None"
  let ?f = "zip scheduleRemoveArgs [Some ''home'', Some []]"
  have c: "?c \<in> set catalog_commands"
    by (simp add: catalog_commands_def CATEGORIES_def cat_charging_def)
  have f: "map (a_name \<circ> fst) ?f = map a_name (c_args ?c)"
    "map (a_optional \<circ> fst) ?f = map a_optional (c_args ?c)"
    by (simp_all add: cmd_def scheduleRemoveArgs_def)
  have v: "formValid ?f" and as: "accepted_values ?f = [''home'']" and len: "length ?f = 2"
    by code_simp+
  have n: "a_name (fst (?f ! 0)) = ''TYPE''" "snd (?f ! 0) = Some ''home''"
    "a_name (fst (?f ! 1)) = ''ID''" "snd (?f ! 1) = Some []" "a_optional (fst (?f ! 1))"
    by (simp_all add: scheduleRemoveArgs_def arg_def)
  from vendor_reads_form [OF c f v] obtain info where info: "arity_ok info [''home'']"
    "\<And>i. i < 2 \<Longrightarrow> keywordArguments info [''home''] (a_name (fst (?f ! i))) =
        (if a_optional (fst (?f ! i)) \<and> field_out (snd (?f ! i)) = [] then None
         else Some (field_out (snd (?f ! i))))"
    unfolding as len by blast
  show ?thesis using info(1) info(2) [of 0] info(2) [of 1] unfolding n
    by (intro exI [of _ info]) (simp add: field_out_def n(5) [simplified])
qed

text \<open>
  C24: What the gate let through reaches the car unchanged.  Whatever the text is, if the core's gate
  accepts a charge limit, charge current or schedule time and the child makes a call of it, the call
  carries the very integer the gate read, in its range, with no wrap of the 32-bit value or of the
  nanoseconds.
\<close>

theorem gated_numbers_exact:
  assumes "validate_arg_ranges c as = Inr ()" and "vendor_call g c as = Inr call"
  shows "(c = ''charging-set-limit'' \<longrightarrow>
      (\<exists>k. parse_int_arg (hd as) = Some k \<and> 50 \<le> k \<and> k \<le> 100
           \<and> call = Car ''ChangeChargeLimit'' [CA_int k]))
    \<and> (c = ''charging-set-amps'' \<longrightarrow>
      (\<exists>k. parse_int_arg (hd as) = Some k \<and> 1 \<le> k \<and> k \<le> 48
           \<and> call = Car ''SetChargingAmps'' [CA_int k]))
    \<and> (c = ''charging-schedule'' \<longrightarrow>
      (\<exists>k. parse_int_arg (hd as) = Some k \<and> 0 \<le> k \<and> k \<le> 1439
           \<and> call = Car ''ScheduleCharging'' [CA_bool True, CA_int (k * 60000000000)]))"
proof (intro conjI impI)
  assume c: "c = ''charging-set-limit''"
  then obtain k where k: "parse_int_arg (hd as) = Some k" "50 \<le> k" "k \<le> 100"
    using assms(1) int_in_range_ok by (metis validate_eval(1))
  moreover have "call = Car ''ChangeChargeLimit'' [CA_int (int32 k)]"
    using one_number_call [OF vendor_numeric(1) handler_numeric(1)] assms(2) k(1) c by blast
  ultimately show "\<exists>k. parse_int_arg (hd as) = Some k \<and> 50 \<le> k \<and> k \<le> 100
      \<and> call = Car ''ChangeChargeLimit'' [CA_int k]" by (simp add: int32_small)
next
  assume c: "c = ''charging-set-amps''"
  then obtain k where k: "parse_int_arg (hd as) = Some k" "1 \<le> k" "k \<le> 48"
    using assms(1) int_in_range_ok by (metis validate_eval(2))
  moreover have "call = Car ''SetChargingAmps'' [CA_int (int32 k)]"
    using one_number_call [OF vendor_numeric(2) handler_numeric(2)] assms(2) k(1) c by blast
  ultimately show "\<exists>k. parse_int_arg (hd as) = Some k \<and> 1 \<le> k \<and> k \<le> 48
      \<and> call = Car ''SetChargingAmps'' [CA_int k]" by (simp add: int32_small)
next
  assume c: "c = ''charging-schedule''"
  then obtain k where k: "parse_int_arg (hd as) = Some k" "0 \<le> k" "k \<le> 1439"
    using assms(1) gate_schedule_ok by (metis validate_eval(3))
  moreover have "call = Car ''ScheduleCharging'' [CA_bool True, CA_int (int64 (k * 60000000000))]"
    using one_number_call [OF vendor_numeric(3) handler_numeric(3)] assms(2) k(1) c by blast
  ultimately show "\<exists>k. parse_int_arg (hd as) = Some k \<and> 0 \<le> k \<and> k \<le> 1439
      \<and> call = Car ''ScheduleCharging'' [CA_bool True, CA_int (k * 60000000000)]"
    by (simp add: int64_small)
qed

theorem gated_numbers_exact_witness:
  "vendor_call sample_go ''charging-set-limit'' [int_str 80] = Inr (Car ''ChangeChargeLimit'' [CA_int 80])"
proof -
  have "atoi (int_str 80) = Some 80" by (simp add: atoi_def parse_i64_def in_i64_small)
  then obtain call where call: "vendor_call sample_go ''charging-set-limit'' [int_str 80] = Inr call"
    by (simp add: vendor_call_simps vcmd_def arity_ok_def keywordArguments_def kw_def)
  moreover have "validate_arg_ranges ''charging-set-limit'' [int_str 80] = Inr ()"
    by (simp add: validate_eval int_in_range_def parse_int_arg_int_str in_i64_small)
  ultimately show ?thesis
    using gated_numbers_exact [of "''charging-set-limit''" "[int_str 80]" sample_go call]
    by (simp add: parse_int_arg_int_str in_i64_small)
qed

text \<open>
  A form of choices never fails in the child.  For a catalogue command whose arguments are all
  enumerations, whatever the user picks, the child turns the accepted values into one call on the
  vehicle and raises no argument error.
\<close>

theorem choices_always_run:
  assumes "c \<in> set catalog_commands" and "choice_command c"
    and "f0 = open_form to_str (commandWithStateDefaults to_num vs c)"
    and "legal_edits to_str f0 es"
  shows "is_ok (vendor_call g (c_id c) (accepted_values (run_edits to_str es f0)))"
proof -
  let ?f = "run_edits to_str es f0"
  have f0: "f0 = open_form to_str c" using assms(3) choice_unseeded [OF assms(1,2)] by simp
  then have shape: "map fst ?f = c_args c" by (simp add: run_edits_shape open_form_def comp_def)
  have "form_inv to_num to_str f0" using form_inv_open [OF assms(1)] assms(3) by blast
  then have "form_inv to_num to_str ?f" using assms(4) by (rule form_inv_run)
  moreover have "field_of a = Enum_field \<and> \<not> a_hidden a" if "(a, v) \<in> set ?f" for a v
  proof -
    have "a \<in> set (c_args c)" using that unfolding shape [symmetric] by force
    then show ?thesis using assms(1,2) choice_visible by (auto simp: choice_command_def list_all_iff)
  qed
  ultimately have "list_all (\<lambda>(a, v). \<exists>x \<in> set (choices a). v = Some x) ?f"
    by (fastforce simp: form_inv_def list_all_iff field_inv_def)
  then have "?f \<in> set (choice_forms c)" by (rule choice_forms_complete [OF shape])
  then show ?thesis using choice_table assms(1,2) by (simp add: list_all_iff)
qed

theorem choices_always_run_witness:
  "is_ok (vendor_call sample_go ''seat-heater'' (accepted_values (run_edits (\<lambda>_. [])
     [(0, Pick 3), (1, Pick 2)] (open_form (\<lambda>_. []) (cat_commands cat_climate ! 3)))))"
proof -
  let ?c = "cat_commands cat_climate ! 3"
  have "?c \<in> set catalog_commands"
    by (simp add: catalog_commands_def CATEGORIES_def cat_climate_def)
  moreover have "choice_command ?c" by code_simp
  moreover have "legal_edits (\<lambda>_. []) f [(0, Pick 3), (1, Pick 2)]" for f
    by (simp add: legal_edit_def)
  moreover have "c_id ?c = ''seat-heater''" by (simp add: cat_climate_def cmd_def)
  ultimately show ?thesis
    using choices_always_run [of ?c _ "\<lambda>_. []" "\<lambda>_. F_NaN" None "[(0, Pick 3), (1, Pick 2)]" sample_go]
    by (simp add: commandWithStateDefaults_def)
qed

end
