(* ===== verification/Form_To_Vehicle.thy ===== *)
theory Form_To_Vehicle
  imports Vendor_Table
begin

text \<open>
  From the thumb of a slider to the vehicle: the argument form of the app, the range gate of the core
  and the command table of the session process put together.
\<close>

section \<open>Slider values\<close>

text \<open>
  A number a slider can show: inside its bounds, whole for an integer argument (the widget moves in
  steps of one there), and printed by the script engine as a literal of that number.
\<close>

definition slider_number :: "(js \<Rightarrow> string) \<Rightarrow> arg_spec \<Rightarrow> js \<Rightarrow> bool" where
  "slider_number to_str a d =
    (\<exists>x. d = J_num x \<and> in_arg_range x a \<and> number_text x (to_str d)
         \<and> (a_type a = AT_int \<longrightarrow> (\<exists>k. x = F_Fin (of_int k))))"

definition slider_edit :: "(js \<Rightarrow> string) \<Rightarrow> form \<Rightarrow> nat \<times> edit \<Rightarrow> bool" where
  "slider_edit to_str f ie =
    (case ie of
       (i, Slide x) \<Rightarrow> i < length f \<longrightarrow> slider_number to_str (fst (f ! i)) (J_num x)
     | _ \<Rightarrow> True)"

definition slider_args :: "(js \<Rightarrow> string) \<Rightarrow> arg_spec list \<Rightarrow> bool" where
  "slider_args to_str as =
    list_all (\<lambda>a. field_of a = Slider_field \<longrightarrow>
      (\<exists>d. a_def a = Some d \<and> slider_number to_str a d)) as"

text \<open>What a required slider holds at any time.\<close>

definition slider_inv :: "(js \<Rightarrow> string) \<Rightarrow> arg_spec \<Rightarrow> string option \<Rightarrow> bool" where
  "slider_inv to_str a v =
    (field_of a = Slider_field \<longrightarrow> \<not> a_hidden a \<longrightarrow>
       (\<exists>d. slider_number to_str a d \<and> v = Some (to_str d @ a_sendSuffix a)))"

definition sliders_inv :: "(js \<Rightarrow> string) \<Rightarrow> form \<Rightarrow> bool" where
  "sliders_inv to_str f = list_all (\<lambda>(a, v). slider_inv to_str a v) f"

lemma slider_inv_loaded:
  assumes "field_of a = Slider_field \<longrightarrow> (\<exists>d. a_def a = Some d \<and> slider_number t a d)"
  shows "slider_inv t a (loaded_value t a)"
proof -
  have "\<not> a_optional a \<and> (a_type a = AT_int \<or> a_type a = AT_float)" if "field_of a = Slider_field"
    using that by (auto simp: field_of_def split: if_splits)
  then show ?thesis using assms
    by (auto simp: slider_inv_def loaded_value_def Let_def field_of_def)
qed

lemma slider_inv_edit:
  assumes "slider_inv t a v" "\<And>x. e = Slide x \<Longrightarrow> slider_number t a (J_num x)"
  shows "slider_inv t a (edit_value t a e v)"
  using assms by (cases e) (auto simp: slider_inv_def edit_value_def split: field.splits)

lemma sliders_inv_edit:
  assumes "sliders_inv t f" "slider_edit t f ie" shows "sliders_inv t (edit_form t ie f)"
proof (cases ie)
  case (Pair i e)
  show ?thesis
  proof (cases "i < length f")
    case True
    have v: "slider_inv t (fst (f ! i)) (snd (f ! i))"
      using assms(1) True by (force simp: sliders_inv_def list_all_length split: prod.splits)
    have e: "slider_number t (fst (f ! i)) (J_num x)" if "e = Slide x" for x
      using assms(2) True that Pair by (simp add: slider_edit_def)
    have "slider_inv t (fst (f ! i)) (edit_value t (fst (f ! i)) e (snd (f ! i)))"
      using slider_inv_edit [OF v] e by blast
    then show ?thesis using assms(1) True Pair
      by (auto simp: sliders_inv_def edit_form_def list_all_length nth_list_update)
  qed (use assms Pair in \<open>simp add: edit_form_def\<close>)
qed

fun slider_edits :: "(js \<Rightarrow> string) \<Rightarrow> form \<Rightarrow> (nat \<times> edit) list \<Rightarrow> bool" where
  "slider_edits t f [] = True"
| "slider_edits t f (e # es) = (slider_edit t f e \<and> slider_edits t (edit_form t e f) es)"

lemma sliders_inv_run:
  "sliders_inv t f \<Longrightarrow> slider_edits t f es \<Longrightarrow> sliders_inv t (run_edits t es f)"
  by (induction es arbitrary: f) (auto simp: run_edits_def intro: sliders_inv_edit)

lemma sliders_inv_open: "slider_args t (c_args c) \<Longrightarrow> sliders_inv t (open_form t c)"
  using slider_inv_loaded by (auto simp: sliders_inv_def open_form_def slider_args_def list_all_iff)

section \<open>The gated arguments are required sliders\<close>

lemma slider_sig_nth:
  "(i, t, lo, hi, u) \<in> set (slider_sig n as) \<Longrightarrow>
   n \<le> i \<and> i - n < length as \<and> a_type (as ! (i - n)) = t \<and> (t = AT_int \<or> t = AT_float)
   \<and> a_min (as ! (i - n)) = lo \<and> a_max (as ! (i - n)) = hi \<and> a_sendSuffix (as ! (i - n)) = u"
proof (induction as arbitrary: n)
  case (Cons a as)
  show ?case
  proof (cases "(i, t, lo, hi, u) \<in> set (slider_sig (Suc n) as)")
    case True
    note IH = Cons.IH [OF True]
    define j where "j = i - Suc n"
    have "Suc n \<le> i" using IH by blast
    then have "i - n = Suc j" by (simp add: j_def Suc_diff_Suc)
    with \<open>Suc n \<le> i\<close> show ?thesis using IH unfolding j_def [symmetric] by simp
  next
    case False
    then have "(a_type a = AT_int \<or> a_type a = AT_float)"
      "(i, t, lo, hi, u) = (n, a_type a, a_min a, a_max a, a_sendSuffix a)"
      using Cons.prems by (simp_all split: if_splits)
    then show ?thesis by simp
  qed
qed simp

lemma catalog_ranges_required:
  "\<forall>c \<in> set catalog_commands. \<forall>a \<in> set (c_args c).
     (a_type a = AT_int \<or> a_type a = AT_float) \<and> a_min a \<noteq> None \<and> a_max a \<noteq> None \<longrightarrow>
     \<not> a_optional a \<and> \<not> a_hidden a"
proof -
  have "list_all (\<lambda>c. list_all (\<lambda>a.
      (a_type a = AT_int \<or> a_type a = AT_float) \<and> a_min a \<noteq> None \<and> a_max a \<noteq> None \<longrightarrow>
      \<not> a_optional a \<and> \<not> a_hidden a) (c_args c)) catalog_commands"
    by code_simp
  then show ?thesis by (simp only: list_all_iff)
qed

lemma gated_slider:
  assumes "c \<in> set catalog_commands" "(i, t, lo, hi, u) \<in> set (gate_sig (c_id c))"
  shows "i < length (c_args c) \<and> a_type (c_args c ! i) = t \<and> a_min (c_args c ! i) = Some lo
    \<and> a_max (c_args c ! i) = Some hi \<and> a_sendSuffix (c_args c ! i) = u
    \<and> field_of (c_args c ! i) = Slider_field \<and> \<not> a_hidden (c_args c ! i)"
proof -
  have "slider_sig 0 (c_args c) = map sig_opt (gate_sig (c_id c))"
    using assms(1) catalog_gate by (auto simp: catalog_commands_def)
  then have "(i, t, Some lo, Some hi, u) \<in> set (slider_sig 0 (c_args c))"
    using assms(2) by (force simp: sig_opt_def)
  from slider_sig_nth [OF this] have s: "i < length (c_args c)" "a_type (c_args c ! i) = t"
    "t = AT_int \<or> t = AT_float" "a_min (c_args c ! i) = Some lo" "a_max (c_args c ! i) = Some hi"
    "a_sendSuffix (c_args c ! i) = u" by simp_all
  then have "\<not> a_optional (c_args c ! i) \<and> \<not> a_hidden (c_args c ! i)"
    using catalog_ranges_required assms(1) nth_mem [OF s(1)] by fastforce
  then show ?thesis using s by (auto simp: field_of_def)
qed


text \<open>The sliders of the form on a catalogue command, opened from any status and edited.\<close>

lemma form_sliders:
  assumes "c \<in> set catalog_commands" and "sc = commandWithStateDefaults to_num vs c"
    and "slider_args to_str (c_args sc)"
    and "slider_edits to_str (open_form to_str sc) es"
    and "(i, t, lo, hi, u) \<in> set (gate_sig (c_id c))"
  shows "\<exists>x. number_text x (to_str (J_num x)) \<and> f64_within lo hi x
    \<and> (t = AT_int \<longrightarrow> (\<exists>k. x = F_Fin (of_int k)))
    \<and> i < length (accepted_values (run_edits to_str es (open_form to_str sc)))
    \<and> accepted_values (run_edits to_str es (open_form to_str sc)) ! i = to_str (J_num x) @ u
    \<and> snd (run_edits to_str es (open_form to_str sc) ! i) = Some (to_str (J_num x) @ u)"
proof -
  let ?f = "run_edits to_str es (open_form to_str sc)"
  have args: "map fst ?f = c_args sc" by (simp add: run_edits_shape open_form_def comp_def)
  have len: "length (c_args sc) = length (c_args c)"
    using assms(2) by (simp add: commandWithStateDefaults_def split: option.splits)
  note g = gated_slider [OF assms(1,5)]
  have i: "i < length ?f" using g len arg_cong [OF args, of length] by simp
  have a: "fst (?f ! i) = c_args sc ! i" using args i by (metis nth_map)
  have "c_args sc ! i = c_args c ! i \<or> (\<exists>s. c_args sc ! i = seed_arg to_num s (c_args c ! i))"
    using assms(2) g by (cases vs) (auto simp: commandWithStateDefaults_def)
  then have same: "a_type (fst (?f ! i)) = t" "a_min (fst (?f ! i)) = Some lo"
    "a_max (fst (?f ! i)) = Some hi" "a_sendSuffix (fst (?f ! i)) = u"
    "field_of (fst (?f ! i)) = Slider_field" "\<not> a_hidden (fst (?f ! i))"
    using g a by auto
  have "sliders_inv to_str ?f"
    using sliders_inv_run [OF sliders_inv_open [OF assms(3)] assms(4)] .
  then have "slider_inv to_str (fst (?f ! i)) (snd (?f ! i))"
    using i by (force simp: sliders_inv_def list_all_length split: prod.splits)
  then obtain x where x: "in_arg_range x (fst (?f ! i))" "number_text x (to_str (J_num x))"
    "t = AT_int \<longrightarrow> (\<exists>k. x = F_Fin (of_int k))" "snd (?f ! i) = Some (to_str (J_num x) @ u)"
    using same by (auto simp: slider_inv_def slider_number_def)
  have w: "f64_within lo hi x" using x(1) same by (simp add: in_arg_range_def f64_within_def)
  have "to_str (J_num x) \<noteq> []" using x(2) by (simp add: number_text_def)
  then have "field_out (snd (?f ! i)) \<noteq> []" using x(4) by (simp add: field_out_def)
  then have "i < length (accepted_values ?f) \<and> accepted_values ?f ! i = to_str (J_num x) @ u"
    using accepted_nth [OF i] x(4) by (simp add: field_out_def split: if_splits)
  then show ?thesis using x w by blast
qed

lemma form_passes:
  assumes "c \<in> set catalog_commands" and "sc = commandWithStateDefaults to_num vs c"
    and "slider_args to_str (c_args sc)"
    and "slider_edits to_str (open_form to_str sc) es"
  shows "validate_arg_ranges (c_id c) (accepted_values (run_edits to_str es (open_form to_str sc))) = Inr ()"
proof (rule gate_accepts_sig, rule ballI)
  fix s assume "s \<in> set (gate_sig (c_id c))"
  moreover obtain i t lo hi u where s: "s = (i, t, lo, hi, u)" by (cases s) auto
  ultimately show "sends_in_range (accepted_values (run_edits to_str es (open_form to_str sc))) s"
    using form_sliders [OF assms, of i t lo hi u]
    unfolding s sends_in_range_def prod.case by blast
qed

lemma atoi_int_str: "in_i64 k \<Longrightarrow> atoi (int_str k) = Some k"
  by (simp add: atoi_def parse_i64_def)

lemma one_slider:
  assumes "c \<in> set catalog_commands" and "sc = commandWithStateDefaults to_num vs c"
    and "slider_args to_str (c_args sc)"
    and "slider_edits to_str (open_form to_str sc) es"
    and "gate_sig (c_id c) = [(0, AT_int, of_int lo, of_int hi, [])]"
    and "length (c_args c) = 1"
  obtains k where "lo \<le> k" "k \<le> hi"
    "accepted_values (run_edits to_str es (open_form to_str sc)) = [int_str k]"
    "snd (run_edits to_str es (open_form to_str sc) ! 0) = Some (int_str k)"
proof -
  let ?f = "run_edits to_str es (open_form to_str sc)"
  obtain x where x: "number_text x (to_str (J_num x))" "f64_within (of_int lo) (of_int hi) x"
    "\<exists>k. x = F_Fin (of_int k)" "0 < length (accepted_values ?f)"
    "accepted_values ?f ! 0 = to_str (J_num x)" "snd (?f ! 0) = Some (to_str (J_num x))"
    using form_sliders [OF assms(1-4), of 0 AT_int "of_int lo" "of_int hi" "[]"] assms(5) by auto
  then obtain k where k: "x = F_Fin (of_int k)" by blast
  then have t: "to_str (J_num x) = int_str k" using x(1) by (simp add: number_text_def)
  have "map fst ?f = c_args sc" by (simp add: run_edits_shape open_form_def comp_def)
  moreover have "length (c_args sc) = 1"
    using assms(2,6) by (auto simp: commandWithStateDefaults_def split: option.splits)
  ultimately have "length ?f = 1" by (metis length_map)
  then have "length (accepted_values ?f) \<le> 1" using accepted_length [of ?f] by simp
  then have "accepted_values ?f = [int_str k]"
    using x(4,5) t by (cases "accepted_values ?f") auto
  moreover have "lo \<le> k" "k \<le> hi" using x(2) k by (auto simp: f64_within_iff)
  ultimately show thesis using that x(6) t by simp
qed

lemma single_slider:
  "c \<in> set catalog_commands \<Longrightarrow>
   c_id c \<in> {''charging-set-limit'', ''charging-set-amps'', ''charging-schedule''} \<Longrightarrow>
   length (c_args c) = 1"
proof -
  have "list_all (\<lambda>c. c_id c \<in> set [''charging-set-limit'', ''charging-set-amps'', ''charging-schedule'']
      \<longrightarrow> length (c_args c) = 1) catalog_commands"
    by code_simp
  then show "c \<in> set catalog_commands \<Longrightarrow>
      c_id c \<in> {''charging-set-limit'', ''charging-set-amps'', ''charging-schedule''} \<Longrightarrow>
      length (c_args c) = 1"
    by (auto simp: list_all_iff)
qed

lemma vendor_call_number:
  "vendor_call g ''charging-set-limit'' [x] =
    (case atoi x of None \<Rightarrow> Inl (E_plain ''error parsing PERCENT'')
     | Some k \<Rightarrow> Inr (Car ''ChangeChargeLimit'' [CA_int (int32 k)]))"
  "vendor_call g ''charging-set-amps'' [x] =
    (case atoi x of None \<Rightarrow> Inl (E_plain ''error parsing AMPS'')
     | Some k \<Rightarrow> Inr (Car ''SetChargingAmps'' [CA_int (int32 k)]))"
  "vendor_call g ''charging-schedule'' [x] =
    (case atoi x of None \<Rightarrow> Inl (E_plain ''error parsing minutes'')
     | Some k \<Rightarrow> Inr (Car ''ScheduleCharging'' [CA_bool True, CA_int (int64 (k * 60000000000))]))"
  by (simp_all add: vendor_call_simps vcmd_def arity_ok_def keywordArguments_def kw_def)

lemmas number_call_simps = vendor_call_number atoi_int_str in_i64_small int32_small int64_small gate_sig_eval

lemma slider_call:
  assumes "c \<in> set catalog_commands" and "sc = commandWithStateDefaults to_num vs c"
    and "slider_args to_str (c_args sc)"
    and "slider_edits to_str (open_form to_str sc) es"
    and "gate_sig (c_id c) = [(0, AT_int, of_int lo, of_int hi, [])]"
    and "length (c_args c) = 1"
    and "\<And>k. lo \<le> k \<Longrightarrow> k \<le> hi \<Longrightarrow> vendor_call g (c_id c) [int_str k] = Inr (F k)"
  shows "\<exists>k. lo \<le> k \<and> k \<le> hi \<and> snd (run_edits to_str es (open_form to_str sc) ! 0) = Some (int_str k)
    \<and> vendor_call g (c_id c) (accepted_values (run_edits to_str es (open_form to_str sc))) = Inr (F k)"
  using one_slider [OF assms(1-6)] assms(7) by metis

section \<open>Examples\<close>

definition whole_text :: "js \<Rightarrow> string" where
  "whole_text d = (case d of J_num (F_Fin q) \<Rightarrow> int_str \<lfloor>q\<rfloor> | _ \<Rightarrow> [])"

definition sample_limit :: command_def where
  "sample_limit = cmd ''charging-set-limit'' ''Set Charge Limit''
     [arg ''PERCENT'' AT_int ((range_opts 50 100)\<lparr>a_unit := ''%'', a_def := Some (j_rat 80),
        a_stateDefault := ''chargeLimitSoc''\<rparr>)] None"

section \<open>Properties\<close>



end
