(* ===== verification/App_Config.thy ===== *)
theory App_Config
  imports Vehicle_State Command_Gate
begin

text \<open>
  The persisted configuration, \<^verbatim>\<open>helper/src/config.rs\<close>: schema versions and enrolment state,
  validation of a settings request, sanitising of what was read, the migration of older files, and
  loading and saving.  \<^verbatim>\<open>serde_json\<close> is the pair of parameters \<^verbatim>\<open>parse\<close> and
  \<^verbatim>\<open>print\<close> between bytes and JSON values; what the derived deserialiser does with the value is
  written out.  A file is its bytes; a write can fail before or after the rename.
\<close>

section \<open>JSON values as serde sees them\<close>

text \<open>An integer literal that fits 64 bits is an integer; every other number is a float.\<close>

datatype json =
    JN_null
  | JN_bool bool
  | JN_int int
  | JN_float f64
  | JN_str string
  | JN_arr "json list"
  | JN_obj "(string \<times> json) list"

section \<open>Schema versions\<close>

type_synonym u8 = "8 word"

datatype config_version = V0 | V1 | V2 | Unknown_version u8

fun version_rank :: "config_version \<Rightarrow> nat" where
  "version_rank V0 = 0"
| "version_rank V1 = 1"
| "version_rank V2 = 2"
| "version_rank (Unknown_version w) = 3 + unat w"

lemma version_rank_inj: "version_rank a = version_rank b \<Longrightarrow> a = b"
  by (cases a; cases b) (auto simp: word_unat_eq_iff)

instantiation config_version :: linorder
begin

definition less_eq_config_version :: "config_version \<Rightarrow> config_version \<Rightarrow> bool" where
  "less_eq_config_version a b = (version_rank a \<le> version_rank b)"

definition less_config_version :: "config_version \<Rightarrow> config_version \<Rightarrow> bool" where
  "less_config_version a b = (version_rank a < version_rank b)"

instance
  by standard (auto simp: less_eq_config_version_def less_config_version_def
      dest: version_rank_inj)

end

definition CURRENT :: config_version where
  "CURRENT = V2"

definition version_from_u8 :: "u8 \<Rightarrow> config_version" where
  "version_from_u8 v = (if v = 0 then V0 else if v = 1 then V1 else if v = 2 then V2
                        else Unknown_version v)"

fun version_to_u8 :: "config_version \<Rightarrow> u8" where
  "version_to_u8 V0 = 0"
| "version_to_u8 V1 = 1"
| "version_to_u8 V2 = 2"
| "version_to_u8 (Unknown_version v) = v"

datatype vin_state = Unpaired | Paired

section \<open>The configuration\<close>

record config =
  version :: config_version
  vin :: string
  model :: string
  key_name :: string
  connect_timeout_sec :: int
  command_timeout_sec :: int
  vin_state :: vin_state

definition MAX_TIMEOUT_SEC :: int where
  "MAX_TIMEOUT_SEC = 300"

definition MAX_KEY_NAME_LEN :: nat where
  "MAX_KEY_NAME_LEN = 64"

definition VALID_MODELS :: "string list" where
  "VALID_MODELS = ['''', ''model3'', ''models'', ''modelx'', ''modely'', ''cybertruck'']"

definition default_config :: config where
  "default_config =
    \<lparr>version = CURRENT, vin = [], model = [], key_name = ''harbour-electric-eel'',
     connect_timeout_sec = 20, command_timeout_sec = 5, vin_state = Unpaired\<rparr>"

text \<open>\<^verbatim>\<open>^[A-HJ-NPR-Z0-9]{17}$\<close> and \<^verbatim>\<open>^[A-Za-z0-9 ._-]*$\<close>.\<close>

definition vin_char :: "char \<Rightarrow> bool" where
  "vin_char c = ((is_upper c \<and> c \<noteq> CHR ''I'' \<and> c \<noteq> CHR ''O'' \<and> c \<noteq> CHR ''Q'') \<or> is_digit c)"

definition vin_re :: "string \<Rightarrow> bool" where
  "vin_re s = (length s = 17 \<and> list_all vin_char s)"

definition key_name_re :: "string \<Rightarrow> bool" where
  "key_name_re s =
    list_all (\<lambda>c. is_alpha c \<or> is_digit c \<or> c = CHR '' '' \<or> c = CHR ''.'' \<or> c = CHR ''_''
                  \<or> c = CHR ''-'') s"

datatype config_error = PositiveTimeout | MaxTimeout | InvalidVin | InvalidKeyName | InvalidModel

definition validate_config ::
    "string \<Rightarrow> string \<Rightarrow> string \<Rightarrow> int \<Rightarrow> int \<Rightarrow> (config_error, unit) result" where
  "validate_config v m k connect command =
    (if connect \<le> 0 \<or> command \<le> 0 then Inl PositiveTimeout
     else if connect > MAX_TIMEOUT_SEC \<or> command > MAX_TIMEOUT_SEC then Inl MaxTimeout
     else if trim v \<noteq> [] \<and> \<not> vin_re (trim v) then Inl InvalidVin
     else if to_lower (trim m) \<notin> set VALID_MODELS then Inl InvalidModel
     else if length (trim k) > MAX_KEY_NAME_LEN \<or> \<not> key_name_re (trim k)
     then Inl InvalidKeyName
     else Inr ())"

definition sane_timeout :: "int \<Rightarrow> int \<Rightarrow> int" where
  "sane_timeout t d = (if t \<le> 0 \<or> t > MAX_TIMEOUT_SEC then d else t)"

definition sanitize :: "config \<Rightarrow> config" where
  "sanitize c =
    c\<lparr>connect_timeout_sec :=
         sane_timeout (connect_timeout_sec c) (connect_timeout_sec default_config),
      command_timeout_sec :=
         sane_timeout (command_timeout_sec c) (command_timeout_sec default_config),
      vin := (let t = trim (vin c) in if t \<noteq> [] \<and> \<not> vin_re t then [] else t),
      model := (let t = to_lower (trim (model c))
                in if t \<in> set VALID_MODELS then t else model default_config),
      key_name := (let t = trim (key_name c)
                   in if length t > MAX_KEY_NAME_LEN \<or> \<not> key_name_re t
                      then key_name default_config else t)\<rparr>"

section \<open>Deserialising\<close>

definition in_i32 :: "int \<Rightarrow> bool" where
  "in_i32 k = (- (2 ^ 31) \<le> k \<and> k < 2 ^ 31)"

definition de_str :: "json \<Rightarrow> string option" where
  "de_str j = (case j of JN_str s \<Rightarrow> Some s | _ \<Rightarrow> None)"

definition de_i32 :: "json \<Rightarrow> int option" where
  "de_i32 j = (case j of JN_int k \<Rightarrow> if in_i32 k then Some k else None | _ \<Rightarrow> None)"

definition de_version :: "json \<Rightarrow> config_version option" where
  "de_version j =
    (case j of
       JN_int k \<Rightarrow> if 0 \<le> k \<and> k < 256 then Some (version_from_u8 (word_of_int k)) else None
     | _ \<Rightarrow> None)"

text \<open>A unit variant is its name, or an object with that one member set to null.\<close>

definition vin_state_of_name :: "string \<Rightarrow> vin_state option" where
  "vin_state_of_name s =
    (if s = ''unpaired'' then Some Unpaired else if s = ''paired'' then Some Paired else None)"

definition de_vin_state :: "json \<Rightarrow> vin_state option" where
  "de_vin_state j =
    (case j of
       JN_str s \<Rightarrow> vin_state_of_name s
     | JN_obj ms \<Rightarrow>
         (if length ms = 1 \<and> snd (hd ms) = JN_null then vin_state_of_name (fst (hd ms)) else None)
     | _ \<Rightarrow> None)"

text \<open>\<^verbatim>\<open>Option<T>\<close>: null is \<^const>\<open>None\<close>; the outer option is failure.\<close>

definition de_option :: "(json \<Rightarrow> 'a option) \<Rightarrow> json \<Rightarrow> 'a option option" where
  "de_option f j = (if j = JN_null then Some None else map_option Some (f j))"

datatype 'a enrollment_field = Missing | Present 'a

definition present_optional ::
    "'a \<Rightarrow> (json \<Rightarrow> 'a option) \<Rightarrow> json option \<Rightarrow> 'a enrollment_field option" where
  "present_optional d f jo =
    (case jo of
       None \<Rightarrow> Some Missing
     | Some j \<Rightarrow> map_option (\<lambda>o'. Present (case o' of None \<Rightarrow> d | Some x \<Rightarrow> x)) (de_option f j))"

definition legacy_fields :: "string list" where
  "legacy_fields = [''version'', ''vin'', ''model'', ''key_name'', ''connect_timeout_sec'',
     ''command_timeout_sec'', ''vin_state'', ''paired_vin'']"

text \<open>
  The derived visitor: an object may hold unknown members but no known one twice; an array gives the
  fields in declaration order and may be short but not long.
\<close>

definition fields_from :: "string list \<Rightarrow> json \<Rightarrow> (string \<Rightarrow> json option) option" where
  "fields_from names j =
    (case j of
       JN_obj ms \<Rightarrow>
         if distinct (filter (\<lambda>k. k \<in> set names) (map fst ms)) then Some (map_of ms) else None
     | JN_arr xs \<Rightarrow>
         if length xs \<le> length names then Some (map_of (zip names xs)) else None
     | _ \<Rightarrow> None)"

definition struct_fields :: "json \<Rightarrow> (string \<Rightarrow> json option) option" where
  "struct_fields j = fields_from legacy_fields j"

definition required :: "(json \<Rightarrow> 'a option) \<Rightarrow> json option \<Rightarrow> 'a option" where
  "required f jo = Option.bind jo f"

definition defaulted :: "'a \<Rightarrow> (json \<Rightarrow> 'a option) \<Rightarrow> json option \<Rightarrow> 'a option" where
  "defaulted d f jo = (case jo of None \<Rightarrow> Some d | Some j \<Rightarrow> f j)"

definition enrollment ::
    "string \<Rightarrow> config_version option \<Rightarrow> vin_state enrollment_field \<Rightarrow> string enrollment_field
     \<Rightarrow> vin_state \<times> config_version" where
  "enrollment v ver st pv =
    (case st of
       Present s \<Rightarrow> (s, case ver of Some w \<Rightarrow> w | None \<Rightarrow> V2)
     | Missing \<Rightarrow>
         (case pv of
            Present p \<Rightarrow>
              (if p \<noteq> [] \<and> p = v then Paired else Unpaired,
               case ver of Some w \<Rightarrow> w | None \<Rightarrow> V1)
          | Missing \<Rightarrow> (Unpaired, case ver of Some w \<Rightarrow> w | None \<Rightarrow> V0)))"

definition deserialize :: "json \<Rightarrow> config option" where
  "deserialize j =
    Option.bind (struct_fields j) (\<lambda>f.
    Option.bind (defaulted None (de_option de_version) (f ''version'')) (\<lambda>ver.
    Option.bind (required de_str (f ''vin'')) (\<lambda>v.
    Option.bind (defaulted [] de_str (f ''model'')) (\<lambda>m.
    Option.bind (required de_str (f ''key_name'')) (\<lambda>k.
    Option.bind (required de_i32 (f ''connect_timeout_sec'')) (\<lambda>ct.
    Option.bind (required de_i32 (f ''command_timeout_sec'')) (\<lambda>mt.
    Option.bind (present_optional Unpaired de_vin_state (f ''vin_state'')) (\<lambda>st.
    Option.bind (present_optional [] de_str (f ''paired_vin'')) (\<lambda>pv.
      let (s, w) = enrollment v ver st pv
      in Some \<lparr>version = w, vin = v, model = m, key_name = k, connect_timeout_sec = ct,
               command_timeout_sec = mt, vin_state = s\<rparr>)))))))))"

definition vin_state_name :: "vin_state \<Rightarrow> string" where
  "vin_state_name s = (case s of Unpaired \<Rightarrow> ''unpaired'' | Paired \<Rightarrow> ''paired'')"

definition config_json :: "config \<Rightarrow> json" where
  "config_json c =
    JN_obj [(''version'', JN_int (uint (version_to_u8 (version c)))),
            (''vin'', JN_str (vin c)),
            (''model'', JN_str (model c)),
            (''key_name'', JN_str (key_name c)),
            (''connect_timeout_sec'', JN_int (connect_timeout_sec c)),
            (''command_timeout_sec'', JN_int (command_timeout_sec c)),
            (''vin_state'', JN_str (vin_state_name (vin_state c)))]"

section \<open>Loading and saving\<close>

text \<open>
  An error of the system with its text, the refusal to write a newer schema and the refusal to read
  one (whose text ends in the JSON library's).
\<close>

datatype io_error = Os_error string | Newer_schema u8 | Unsupported_schema

datatype read_result = R_missing | R_data string | R_error string

text \<open>\<^verbatim>\<open>json.get("version").and_then(as_u64)\<close>; of a repeated member the last one counts.\<close>

definition version_as_u64 :: "json \<Rightarrow> int option" where
  "version_as_u64 j =
    (case j of
       JN_obj ms \<Rightarrow>
         (case map_of (rev ms) ''version'' of
            Some (JN_int k) \<Rightarrow> if 0 \<le> k \<and> k < 2 ^ 64 then Some k else None
          | _ \<Rightarrow> None)
     | _ \<Rightarrow> None)"

text \<open>The configuration read, and the bytes put aside in a backup file, if any.\<close>

definition load ::
    "(string \<Rightarrow> json option) \<Rightarrow> read_result \<Rightarrow> (io_error, config) result \<times> string option" where
  "load parse r =
    (case r of
       R_missing \<Rightarrow> (Inr default_config, None)
     | R_error e \<Rightarrow> (Inl (Os_error e), None)
     | R_data d \<Rightarrow>
         (case Option.bind (parse d) deserialize of
            Some c \<Rightarrow> (Inr (sanitize c), None)
          | None \<Rightarrow>
              (case Option.bind (parse d) version_as_u64 of
                 Some k \<Rightarrow> if k > uint (version_to_u8 CURRENT) then (Inl Unsupported_schema, None)
                           else (Inr default_config, Some d)
               | None \<Rightarrow> (Inr default_config, Some d))))"

text \<open>A write fails with the file as it was, or after the rename with the new contents in place.\<close>

datatype write_fault = W_none | W_before_rename string | W_after_rename string

definition write_atomic ::
    "write_fault \<Rightarrow> string \<Rightarrow> string option \<Rightarrow> (io_error, unit) result \<times> string option" where
  "write_atomic w data old =
    (case w of
       W_none \<Rightarrow> (Inr (), Some data)
     | W_before_rename e \<Rightarrow> (Inl (Os_error e), old)
     | W_after_rename e \<Rightarrow> (Inl (Os_error e), Some data))"

definition ensure_writable :: "config \<Rightarrow> (io_error, unit) result" where
  "ensure_writable c =
    (case version c of Unknown_version v \<Rightarrow> Inl (Newer_schema v) | _ \<Rightarrow> Inr ())"

definition save ::
    "(json \<Rightarrow> string) \<Rightarrow> write_fault \<Rightarrow> config \<Rightarrow> string option
     \<Rightarrow> (io_error, unit) result \<times> string option" where
  "save print w c old =
    (case ensure_writable c of
       Inl e \<Rightarrow> (Inl e, old)
     | Inr _ \<Rightarrow> write_atomic w (print (config_json c)) old)"

definition read_file :: "string option \<Rightarrow> read_result" where
  "read_file f = (case f of None \<Rightarrow> R_missing | Some d \<Rightarrow> R_data d)"

section \<open>Lemmas\<close>

definition valid_vin :: "string \<Rightarrow> bool" where
  "valid_vin v = (v = [] \<or> vin_re v)"

text \<open>A configuration the gate of \<^verbatim>\<open>SetConfig\<close> lets through, in its stored form.\<close>

definition wf_config :: "config \<Rightarrow> bool" where
  "wf_config c =
    (0 < connect_timeout_sec c \<and> connect_timeout_sec c \<le> MAX_TIMEOUT_SEC
     \<and> 0 < command_timeout_sec c \<and> command_timeout_sec c \<le> MAX_TIMEOUT_SEC
     \<and> trim (vin c) = vin c \<and> valid_vin (vin c)
     \<and> model c \<in> set VALID_MODELS
     \<and> trim (key_name c) = key_name c \<and> length (key_name c) \<le> MAX_KEY_NAME_LEN
     \<and> key_name_re (key_name c))"

lemma wf_default [simp]: "wf_config default_config"
proof -
  let ?k = "key_name default_config"
  have "list_all (\<lambda>c. plain c \<and> (is_alpha c \<or> is_digit c \<or> c = CHR ''-'')) ?k"
    by (simp add: default_config_def plain_def byte_def is_alpha_def is_digit_def is_lower_def is_upper_def)
  then have "trim ?k = ?k" "key_name_re ?k"
    by (auto simp: key_name_re_def list_all_iff intro: trim_plain)
  then show ?thesis
  by (simp add: wf_config_def default_config_def MAX_TIMEOUT_SEC_def valid_vin_def VALID_MODELS_def
      MAX_KEY_NAME_LEN_def)
qed

lemma default_key_name [table_simps]:
  "trim (key_name default_config) = key_name default_config"
  "length (key_name default_config) \<le> MAX_KEY_NAME_LEN" "key_name_re (key_name default_config)"
  using wf_default by (simp_all add: wf_config_def)

lemma wf_sanitize: "wf_config (sanitize c)"
proof -
  have "0 < sane_timeout t d \<and> sane_timeout t d \<le> MAX_TIMEOUT_SEC"
    if "0 < d" "d \<le> MAX_TIMEOUT_SEC" for t d
    using that by (simp add: sane_timeout_def)
  then have "0 < connect_timeout_sec (sanitize c) \<and> connect_timeout_sec (sanitize c) \<le> MAX_TIMEOUT_SEC
      \<and> 0 < command_timeout_sec (sanitize c) \<and> command_timeout_sec (sanitize c) \<le> MAX_TIMEOUT_SEC"
    by (simp add: sanitize_def default_config_def MAX_TIMEOUT_SEC_def sane_timeout_def)
  moreover have "trim (vin (sanitize c)) = vin (sanitize c) \<and> valid_vin (vin (sanitize c))"
    by (simp add: sanitize_def valid_vin_def Let_def)
  moreover have "model (sanitize c) \<in> set VALID_MODELS"
    by (simp add: sanitize_def Let_def default_config_def VALID_MODELS_def)
  moreover have "trim (key_name (sanitize c)) = key_name (sanitize c)
      \<and> length (key_name (sanitize c)) \<le> MAX_KEY_NAME_LEN \<and> key_name_re (key_name (sanitize c))"
    using default_key_name by (simp add: sanitize_def Let_def)
  ultimately show ?thesis by (simp add: wf_config_def)
qed

lemma model_canonical [table_simps]: "m \<in> set VALID_MODELS \<Longrightarrow> to_lower (trim m) = m"
proof -
  have "list_all (\<lambda>m. list_all (\<lambda>c. plain c \<and> ascii_lower c = c) m) VALID_MODELS"
    by (simp add: VALID_MODELS_def plain_def byte_def ascii_lower_def is_upper_def)
  moreover assume "m \<in> set VALID_MODELS"
  ultimately have "list_all (\<lambda>c. plain c \<and> ascii_lower c = c) m" by (auto simp: list_all_iff)
  then have "trim m = m" "map ascii_lower m = m"
    by (auto simp: list_all_iff map_idI intro: trim_plain)
  then show ?thesis by (simp add: to_lower_def)
qed

lemma sanitize_wf: "wf_config c \<Longrightarrow> sanitize c = c"
  by (cases c) (auto simp: wf_config_def sanitize_def sane_timeout_def valid_vin_def Let_def
      model_canonical)

lemma writable_iff: "ensure_writable c = Inr () \<longleftrightarrow> (\<forall>w. version c \<noteq> Unknown_version w)"
  by (auto simp: ensure_writable_def split: config_version.splits)

lemma de_version_print:
  assumes "ensure_writable c = Inr ()"
  shows "de_version (JN_int (uint (version_to_u8 (version c)))) = Some (version c)"
  using assms by (cases "version c") (auto simp: writable_iff de_version_def version_from_u8_def)

lemma deserialize_config_json:
  assumes "ensure_writable c = Inr ()"
    and "in_i32 (connect_timeout_sec c)" "in_i32 (command_timeout_sec c)"
  shows "deserialize (config_json c) = Some c"
proof -
  have v: "de_vin_state (JN_str (vin_state_name (vin_state c))) = Some (vin_state c)"
    by (cases "vin_state c") (simp_all add: de_vin_state_def vin_state_name_def vin_state_of_name_def)
  show ?thesis using assms v de_version_print [OF assms(1)]
    by (simp add: deserialize_def config_json_def struct_fields_def fields_from_def legacy_fields_def required_def
        defaulted_def de_str_def de_i32_def de_option_def present_optional_def enrollment_def)
qed

lemma wf_in_i32:
  "wf_config c \<Longrightarrow> in_i32 (connect_timeout_sec c) \<and> in_i32 (command_timeout_sec c)"
  by (simp add: wf_config_def in_i32_def MAX_TIMEOUT_SEC_def)

lemma load_wf [inv_intros]: "fst (load parse r) = Inr c \<Longrightarrow> wf_config c"
  by (auto simp: load_def wf_sanitize split: read_result.splits option.splits if_splits)

lemma save_unknown: "version c = Unknown_version w \<Longrightarrow> save pr f c old = (Inl (Newer_schema w), old)"
  by (simp add: save_def ensure_writable_def)

lemma save_file:
  "save pr f c old = (r, new) \<Longrightarrow> new = old \<or> new = Some (pr (config_json c))"
  by (auto simp: save_def write_atomic_def split: sum.splits write_fault.splits)

lemma save_ok: "fst (save pr f c old) = Inr () \<Longrightarrow> snd (save pr f c old) = Some (pr (config_json c))"
  by (auto simp: save_def write_atomic_def split: sum.splits write_fault.splits)

lemma applied_validated:
  "validate_config v m k ct mt = Inr () \<longleftrightarrow>
   wf_config (c\<lparr>vin := trim v, model := to_lower (trim m), key_name := trim k,
                connect_timeout_sec := ct, command_timeout_sec := mt\<rparr>)"
  by (auto simp: validate_config_def wf_config_def valid_vin_def MAX_TIMEOUT_SEC_def)

section \<open>Properties\<close>

text \<open>
  C36: What is saved is what is loaded.  A well-formed configuration of a schema this build knows is
  written, and reading the file back gives the same configuration, with nothing put aside, for any
  JSON printer and parser that are inverse on it.
\<close>

theorem config_save_load:
  assumes "wf_config c" "ensure_writable c = Inr ()"
    and "parse (print (config_json c)) = Some (config_json c)"
  shows "save print W_none c old = (Inr (), Some (print (config_json c)))
    \<and> load parse (read_file (snd (save print W_none c old))) = (Inr c, None)"
  using assms wf_in_i32 [OF assms(1)] deserialize_config_json [OF assms(2)] sanitize_wf [OF assms(1)]
  by (simp add: save_def write_atomic_def load_def read_file_def)

theorem config_save_load_witness:
  "load (\<lambda>_. Some (config_json (default_config\<lparr>vin_state := Paired\<rparr>)))
     (read_file (snd (save (\<lambda>_. ''file'') W_none (default_config\<lparr>vin_state := Paired\<rparr>) None)))
   = (Inr (default_config\<lparr>vin_state := Paired\<rparr>), None)"
proof -
  let ?c = "default_config\<lparr>vin_state := Paired\<rparr>"
  have "wf_config ?c" using wf_default by (simp add: wf_config_def)
  moreover have "ensure_writable ?c = Inr ()"
    by (simp add: ensure_writable_def default_config_def CURRENT_def)
  ultimately have "save (\<lambda>_. ''file'') W_none ?c None = (Inr (), Some ''file'')
    \<and> load (\<lambda>_. Some (config_json ?c)) (read_file (snd (save (\<lambda>_. ''file'') W_none ?c None)))
        = (Inr ?c, None)"
    by (rule config_save_load) simp
  then show ?thesis by (rule conjunct2)
qed

text \<open>
  Validation accepts exactly the settings that are well formed once trimmed: timeouts from 1 to
  300 seconds, an empty VIN or 17 letters and digits without I, O and Q, a known model, and a key
  name of at most 64 allowed characters; and such settings are a fixed point of the sanitiser that
  reads them back.
\<close>

theorem validate_exact:
  defines "applied \<equiv> \<lambda>c v m k ct mt. c\<lparr>vin := trim v, model := to_lower (trim m),
      key_name := trim k, connect_timeout_sec := ct, command_timeout_sec := mt\<rparr>"
  shows "(validate_config v m k ct mt = Inr () \<longleftrightarrow> wf_config (applied c v m k ct mt))
    \<and> (validate_config v m k ct mt = Inr () \<longrightarrow>
         sanitize (applied c v m k ct mt) = applied c v m k ct mt)"
  using applied_validated [of v m k ct mt c] sanitize_wf unfolding applied_def by blast

theorem validate_exact_witness:
  "sanitize (default_config\<lparr>vin := trim [], model := to_lower (trim []), key_name := trim [],
     connect_timeout_sec := 30, command_timeout_sec := 300\<rparr>)
   = default_config\<lparr>vin := trim [], model := to_lower (trim []), key_name := trim [],
     connect_timeout_sec := 30, command_timeout_sec := 300\<rparr>"
proof -
  have "validate_config [] [] [] 30 300 = Inr ()"
    by (simp add: validate_config_def MAX_TIMEOUT_SEC_def VALID_MODELS_def to_lower_def
        key_name_re_def)
  then show ?thesis using validate_exact [of "[]" "[]" "[]" 30 300 default_config] by blast
qed

text \<open>
  Whatever a configuration file holds, what the core starts from is well formed.  Sanitising
  repairs each bad field on its own: a field that is good by itself is kept, so one bad value never
  costs the VIN, and the enrolment state and the version are never touched.
\<close>

theorem load_well_formed:
  assumes "fst (load parse r) = Inr c"
  shows "wf_config c
    \<and> (\<forall>d raw. r = R_data d \<and> Option.bind (parse d) deserialize = Some raw \<longrightarrow>
         vin_state c = vin_state raw \<and> version c = version raw
         \<and> (vin_re (trim (vin raw)) \<longrightarrow> vin c = trim (vin raw))
         \<and> (0 < connect_timeout_sec raw \<and> connect_timeout_sec raw \<le> 300 \<longrightarrow>
              connect_timeout_sec c = connect_timeout_sec raw)
         \<and> (0 < command_timeout_sec raw \<and> command_timeout_sec raw \<le> 300 \<longrightarrow>
              command_timeout_sec c = command_timeout_sec raw))"
  using assms load_wf [OF assms]
  by (auto simp: load_def sanitize_def sane_timeout_def MAX_TIMEOUT_SEC_def Let_def)

theorem load_well_formed_witness:
  "wf_config (sanitize (default_config\<lparr>connect_timeout_sec := - 5, vin := ''bad''\<rparr>))
   \<and> command_timeout_sec (sanitize (default_config\<lparr>connect_timeout_sec := - 5, vin := ''bad''\<rparr>)) = 5"
proof -
  let ?raw = "default_config\<lparr>connect_timeout_sec := - 5, vin := ''bad''\<rparr>"
  have d: "deserialize (config_json ?raw) = Some ?raw"
    by (rule deserialize_config_json)
      (simp_all add: ensure_writable_def default_config_def CURRENT_def in_i32_def)
  then have "fst (load (\<lambda>_. Some (config_json ?raw)) (R_data ''x'')) = Inr (sanitize ?raw)"
    by (simp add: load_def)
  from load_well_formed [OF this] d show ?thesis by (simp add: default_config_def)
qed

text \<open>
  A file of a newer schema is never overwritten.  If the file is a JSON object whose version is
  an integer above the current one, then either it is not loaded at all, or every later save of the
  configuration loaded from it fails and leaves the bytes as they are; it is never set aside as
  corrupt.
\<close>

theorem newer_schema_kept:
  assumes "parse d = Some (JN_obj ms)" "distinct (map fst ms)"
    and "(''version'', JN_int k) \<in> set ms" "2 < k" "k < 2 ^ 64"
  shows "snd (load parse (R_data d)) = None
    \<and> (\<forall>c c'. fst (load parse (R_data d)) = Inr c \<and> version c' = version c \<longrightarrow>
         (\<exists>v. save print w c' (Some d) = (Inl (Newer_schema v), Some d)))"
proof -
  have m: "map_of ms ''version'' = Some (JN_int k)" using assms(2,3) by simp
  have r: "map_of (rev ms) ''version'' = Some (JN_int k)"
    using assms(2,3) by (simp add: rev_map [symmetric])
  have u: "version_as_u64 (JN_obj ms) = Some k" using r assms(4,5) by (simp add: version_as_u64_def)
  have v: "\<exists>x. version raw = Unknown_version x" if "deserialize (JN_obj ms) = Some raw" for raw
  proof -
    have "struct_fields (JN_obj ms) = Some (map_of ms)"
      using assms(2) by (simp add: struct_fields_def fields_from_def)
    with that m obtain ver v st pv where ver: "de_option de_version (JN_int k) = Some ver"
      and raw: "version raw = snd (enrollment v ver st pv)"
      by (auto simp: deserialize_def defaulted_def bind_eq_Some_conv case_prod_beta Let_def)
    then have k: "k < 256" "ver = Some (version_from_u8 (word_of_int k))"
      using assms(4) by (auto simp: de_option_def de_version_def split: if_splits)
    then have "uint (word_of_int k :: u8) = k" using assms(4) by (simp add: uint_word_of_int)
    then have "version_from_u8 (word_of_int k) = Unknown_version (word_of_int k)"
      using assms(4) by (auto simp: version_from_u8_def)
    then show ?thesis using raw k by (auto simp: enrollment_def split: enrollment_field.splits)
  qed
  show ?thesis
  proof (cases "deserialize (JN_obj ms)")
    case None
    then show ?thesis using assms(1,4) u by (simp add: load_def CURRENT_def)
  next
    case (Some raw)
    obtain x where "version raw = Unknown_version x" using v [OF Some] by blast
    then have "version (sanitize raw) = Unknown_version x" by (simp add: sanitize_def)
    then show ?thesis using assms(1) Some save_unknown by (auto simp: load_def)
  qed
qed

theorem newer_schema_kept_witness:
  "snd (load (\<lambda>_. Some (JN_obj [(''version'', JN_int 300)])) (R_data ''v300'')) = None"
  using newer_schema_kept [of "\<lambda>_. Some (JN_obj [(''version'', JN_int 300)])" "''v300''"
      "[(''version'', JN_int 300)]" 300 "\<lambda>_. []" W_none]
  by simp

text \<open>
  The model lists of the app and of the core agree: the ids the picker offers are exactly the
  accepted values in the same order, the picker's index function inverts the list, and the VIN guess
  is always one of them.
\<close>

theorem models_in_sync:
  "map m_id MODELS = VALID_MODELS
   \<and> map modelIndex VALID_MODELS = [0..<6]
   \<and> guessModel v \<in> set VALID_MODELS"
proof -
  have ids: "map m_id MODELS = VALID_MODELS" by (simp add: MODELS_def VALID_MODELS_def)
  have index: "map modelIndex VALID_MODELS = [0..<6]"
    by (simp add: VALID_MODELS_def modelIndex_def MODELS_def upt_rec)
  have "list_all (\<lambda>m. m \<in> set VALID_MODELS) ('''' # map snd vin_table)" by code_simp
  then have sub: "insert '''' (snd ` set vin_table) \<subseteq> set VALID_MODELS"
    unfolding list_all_iff list.set set_map by blast
  have "first_prefix vin_table u \<in> set VALID_MODELS" for u
    using first_prefix_range sub by blast
  moreover have "'''' \<in> set VALID_MODELS" using sub by blast
  ultimately have "guessModel v \<in> set VALID_MODELS"
    by (simp only: guessModel_def Let_def split: if_split) blast
  with ids index show ?thesis by blast
qed

end
