(* ===== verification/Link_Contracts.thy ===== *)
theory Link_Contracts
  imports EE_Prelude
begin

text \<open>
  The interfaces several components rely on, as locales: a bounded buffer that drops its oldest
  element, a capped doubling delay, and the service a caller gets from a session that owns at most
  one child process.  Their lemmas are proved here once; the components that provide the operations
  interpret them on their own definitions.
\<close>

section \<open>A bounded buffer that drops its oldest element\<close>

locale drop_oldest =
  fixes push :: "'a \<Rightarrow> 'q \<Rightarrow> 'q" and items :: "'q \<Rightarrow> 'a list" and cap :: nat
  assumes cap_pos: "0 < cap"
    and push_items: "length (items q) \<le> cap \<Longrightarrow> items (push x q) = last_n cap (items q @ [x])"
begin

lemma push_length: "length (items q) \<le> cap \<Longrightarrow> length (items (push x q)) \<le> cap"
  by (simp add: push_items)

lemma push_newest: "length (items q) \<le> cap \<Longrightarrow> items (push x q) \<noteq> [] \<and> last (items (push x q)) = x"
  using cap_pos by (simp add: push_items last_n_def)

lemma fold_items:
  "length (items q) \<le> cap \<Longrightarrow> items (fold push xs q) = last_n cap (items q @ xs)"
proof (induction xs arbitrary: q)
  case (Cons x xs)
  then have "items (fold push xs (push x q)) = last_n cap (items (push x q) @ xs)"
    using push_length by blast
  also have "\<dots> = last_n cap (last_n cap (items q @ [x]) @ xs)"
    using Cons.prems by (simp add: push_items)
  also have "\<dots> = last_n cap (items q @ x # xs)" by (simp add: last_n_last_n_append)
  finally show ?case by simp
qed simp

lemma fold_length: "length (items q) \<le> cap \<Longrightarrow> length (items (fold push xs q)) \<le> cap"
  by (simp add: fold_items)

text \<open>What the buffer shows is in order and nothing is made up or repeated.\<close>

lemma fold_suffix: "items q = [] \<Longrightarrow> suffix (items (fold push xs q)) xs"
  by (simp add: fold_items last_n_def suffix_drop)

end

section \<open>A doubling delay with a ceiling\<close>

locale capped_backoff =
  fixes next_delay :: "int \<Rightarrow> int" and base :: int and ceiling :: int
  assumes base_pos: "0 < base" and base_le: "base \<le> ceiling"
    and next_double: "base \<le> d \<Longrightarrow> d \<le> ceiling \<Longrightarrow> next_delay d = min (2 * d) ceiling"
begin

lemma delay_bounds: "base \<le> d \<Longrightarrow> d \<le> ceiling \<Longrightarrow> base \<le> next_delay d \<and> next_delay d \<le> ceiling"
  using base_pos base_le by (simp add: next_double)

lemma delay_mono: "base \<le> d \<Longrightarrow> d \<le> ceiling \<Longrightarrow> d \<le> next_delay d"
  using base_pos by (simp add: next_double)

lemma delay_power: "(next_delay ^^ n) base = min (2 ^ n * base) ceiling"
proof (induction n)
  case (Suc n)
  have "base \<le> 2 ^ n * base" using base_pos mult_right_mono [of 1 "2 ^ n" base] by simp
  then have "next_delay (min (2 ^ n * base) ceiling) = min (2 * min (2 ^ n * base) ceiling) ceiling"
    using base_le by (intro next_double) auto
  then show ?case using Suc base_pos base_le by (auto simp: min_def)
qed (use base_le in simp)

lemma delay_always_bounded: "base \<le> (next_delay ^^ n) base \<and> (next_delay ^^ n) base \<le> ceiling"
proof -
  have "base \<le> 2 ^ n * base" using base_pos mult_right_mono [of 1 "2 ^ n" base] by simp
  then show ?thesis using base_le by (simp add: delay_power)
qed

lemma delay_reaches_ceiling:
  assumes "ceiling \<le> 2 ^ n * base" shows "(next_delay ^^ n) base = ceiling"
  using assms by (simp add: delay_power)

end

section \<open>A session with at most one child\<close>

text \<open>
  \<^verbatim>\<open>request\<close> performs one exchange named by its command and returns whether it succeeded,
  \<^verbatim>\<open>drop_child\<close> kills the child, \<^verbatim>\<open>environment\<close> is what the child and its reader do on their
  own, \<^verbatim>\<open>active\<close> says that presence runs, and \<^verbatim>\<open>good\<close> is the provider's invariant.
\<close>

locale session_service =
  fixes request :: "'e \<Rightarrow> string \<Rightarrow> 's \<Rightarrow> bool \<times> 's"
    and drop_child :: "'s \<Rightarrow> 's"
    and environment :: "'f \<Rightarrow> 's \<Rightarrow> 's"
    and active :: "'s \<Rightarrow> bool"
    and good :: "'s \<Rightarrow> bool"
  assumes request_good: "good s \<Longrightarrow> good (snd (request e c s))"
    and drop_good: "good s \<Longrightarrow> good (drop_child s)"
    and environment_good: "good s \<Longrightarrow> good (environment f s)"
    and drop_inactive: "\<not> active (drop_child s)"
    and environment_active: "active (environment f s) \<Longrightarrow> active s"
    and start_active: "good s \<Longrightarrow> fst (request e ''presence-start'' s) \<Longrightarrow>
           active (snd (request e ''presence-start'' s))"
    and stop_inactive: "fst (request e ''presence-stop'' s) \<Longrightarrow>
           \<not> active (snd (request e ''presence-stop'' s))"
    and only_start_activates: "good s \<Longrightarrow> c \<noteq> ''presence-start'' \<Longrightarrow> active (snd (request e c s)) \<Longrightarrow> active s"
begin

definition run_steps :: "('e \<times> string + 'f) list \<Rightarrow> 's \<Rightarrow> 's" where
  "run_steps xs s = fold (\<lambda>x s. case x of Inl (e, c) \<Rightarrow> snd (request e c s) | Inr f \<Rightarrow> environment f s) xs s"

lemma run_steps_good: "good s \<Longrightarrow> good (run_steps xs s)"
  unfolding run_steps_def
proof (induction xs arbitrary: s)
  case (Cons x xs)
  have "good (case x of Inl (e, c) \<Rightarrow> snd (request e c s) | Inr f \<Rightarrow> environment f s)"
    using Cons.prems request_good environment_good by (auto split: sum.splits prod.splits)
  then show ?case using Cons.IH by simp
qed simp

lemma step_good:
  "good s \<Longrightarrow> good (case x of Inl (e, c) \<Rightarrow> snd (request e c s) | Inr f \<Rightarrow> environment f s)"
  using request_good environment_good by (auto split: sum.splits prod.splits)

text \<open>Once presence is off, only a start request can turn it on again.\<close>

lemma run_steps_inactive:
  "good s \<Longrightarrow> \<not> active s \<Longrightarrow> (\<forall>e c. Inl (e, c) \<in> set xs \<longrightarrow> c \<noteq> ''presence-start'') \<Longrightarrow>
   \<not> active (run_steps xs s)"
  unfolding run_steps_def
proof (induction xs arbitrary: s)
  case (Cons x xs)
  have "\<not> active (case x of Inl (e, c) \<Rightarrow> snd (request e c s) | Inr f \<Rightarrow> environment f s)"
  proof (cases x)
    case (Inl y)
    obtain e c where "y = (e, c)" by fastforce
    then have "c \<noteq> ''presence-start''" using Inl Cons.prems(3) by auto
    then show ?thesis
      using only_start_activates [OF Cons.prems(1)] Cons.prems(2) Inl \<open>y = (e, c)\<close> by (simp, blast)
  next
    case (Inr f)
    then show ?thesis using Cons.prems(2) environment_active by auto
  qed
  then show ?case using Cons.IH [OF step_good [OF Cons.prems(1)]] Cons.prems(3) by simp
qed simp

lemma dropped_stays_inactive:
  "good s \<Longrightarrow> (\<forall>e c. Inl (e, c) \<in> set xs \<longrightarrow> c \<noteq> ''presence-start'') \<Longrightarrow>
   \<not> active (run_steps xs (drop_child s))"
  by (rule run_steps_inactive [OF drop_good drop_inactive])

end

section \<open>A register and where its content comes from\<close>

text \<open>
  Events write a register or clear it; under an invariant of the state, a step shows a value only
  when the event has just written it or it was there and the event does not clear it.
\<close>

locale last_write =
  fixes step :: "'e \<Rightarrow> 's \<Rightarrow> 's" and content :: "'s \<Rightarrow> 'v option"
    and puts :: "'e \<Rightarrow> 's \<Rightarrow> 'v option" and clears :: "'e \<Rightarrow> bool" and ok :: "'s \<Rightarrow> bool"
  assumes ok_step: "ok s \<Longrightarrow> ok (step e s)"
    and content_step: "ok s \<Longrightarrow> content (step e s) = Some v \<Longrightarrow>
      puts e s = Some v \<or> content s = Some v \<and> \<not> clears e"
begin

lemma ok_run: "ok s \<Longrightarrow> ok (fold step es s)"
  by (induction es arbitrary: s) (simp_all add: ok_step)

lemma origin_or_kept:
  assumes "ok s" "content (fold step es s) = Some v"
  shows "content s = Some v \<or>
    (\<exists>pre e post. es = pre @ e # post \<and> puts e (fold step pre s) = Some v
      \<and> (\<forall>x \<in> set post. \<not> clears x))"
  using assms(2)
proof (induction es rule: rev_induct)
  case (snoc x xs)
  have "puts x (fold step xs s) = Some v \<or> content (fold step xs s) = Some v \<and> \<not> clears x"
    using snoc.prems by (intro content_step ok_run assms) simp
  then show ?case
  proof
    assume "puts x (fold step xs s) = Some v"
    then show ?thesis by (intro disjI2 exI [of _ xs] exI [of _ x] exI [of _ "[]"]) simp
  next
    assume *: "content (fold step xs s) = Some v \<and> \<not> clears x"
    then consider "content s = Some v" | pre e post where "xs = pre @ e # post"
        "puts e (fold step pre s) = Some v" "\<forall>y \<in> set post. \<not> clears y"
      using snoc.IH by blast
    then show ?thesis
    proof cases
      case 2
      then show ?thesis using *
        by (intro disjI2 exI [of _ pre] exI [of _ e] exI [of _ "post @ [x]"]) auto
    qed simp
  qed
qed simp

lemma origin:
  assumes "ok s" "content s = None" "content (fold step es s) = Some v"
  shows "\<exists>pre e post. es = pre @ e # post \<and> puts e (fold step pre s) = Some v
      \<and> (\<forall>x \<in> set post. \<not> clears x)"
  using origin_or_kept [OF assms(1,3)] assms(2) by simp

end

end
