(* ===== verification/Session_Link.thy ===== *)
theory Session_Link
  imports App_Config Link_Contracts
begin

text \<open>
  The client of the persistent session process, \<^verbatim>\<open>helper/src/session_client.rs\<close>: the tagged
  frames of its socket, the reader thread that diverts events into a bounded queue, the spawn and
  handshake of a child, and one exchange with its deadline.  The child and the reader run beside the
  caller: what arrives while a call waits is the list of lines in the call's environment, what
  arrives between calls is a step of its own.
\<close>

section \<open>Frames\<close>

record session_event =
  ev_kind :: string
  ev_vin :: string
  ev_time :: string
  ev_error :: string

record response =
  r_id :: string
  r_ok :: bool
  r_stdout :: string
  r_stderr :: string
  r_exit_code :: int

datatype frame =
    F_response response
  | F_event session_event
  | F_heartbeat int
  | F_hello int

definition PROTOCOL_VERSION :: int where
  "PROTOCOL_VERSION = 1"

definition IDLE_TIMEOUT_SEC :: nat where
  "IDLE_TIMEOUT_SEC = 90"

definition de_bool :: "json \<Rightarrow> bool option" where
  "de_bool j = (case j of JN_bool b \<Rightarrow> Some b | _ \<Rightarrow> None)"

definition de_i64 :: "json \<Rightarrow> int option" where
  "de_i64 j = (case j of JN_int k \<Rightarrow> if in_i64 k then Some k else None | _ \<Rightarrow> None)"

definition de_u32 :: "json \<Rightarrow> int option" where
  "de_u32 j = (case j of JN_int k \<Rightarrow> if 0 \<le> k \<and> k < 2 ^ 32 then Some k else None | _ \<Rightarrow> None)"

definition de_response :: "(string \<Rightarrow> json option) \<Rightarrow> response option" where
  "de_response f =
    Option.bind (required de_str (f ''id'')) (\<lambda>i.
    Option.bind (required de_bool (f ''ok'')) (\<lambda>k.
    Option.bind (required de_str (f ''stdout'')) (\<lambda>out.
    Option.bind (required de_str (f ''stderr'')) (\<lambda>err.
    Option.bind (required de_i32 (f ''exit_code'')) (\<lambda>c.
      Some \<lparr>r_id = i, r_ok = k, r_stdout = out, r_stderr = err, r_exit_code = c\<rparr>)))))"

definition de_event :: "(string \<Rightarrow> json option) \<Rightarrow> session_event option" where
  "de_event f =
    Option.bind (required de_str (f ''kind'')) (\<lambda>k.
    Option.bind (defaulted [] de_str (f ''vin'')) (\<lambda>v.
    Option.bind (defaulted [] de_str (f ''time'')) (\<lambda>t.
    Option.bind (defaulted [] de_str (f ''error'')) (\<lambda>e.
      Some \<lparr>ev_kind = k, ev_vin = v, ev_time = t, ev_error = e\<rparr>))))"

text \<open>
  The internally tagged enum: an object whose \<^verbatim>\<open>type\<close> member names the variant, or an
  array that starts with the tag.
\<close>

definition frame_of_tag :: "string \<Rightarrow> json \<Rightarrow> frame option" where
  "frame_of_tag tag content =
    (if tag = ''response'' then
       map_option F_response (Option.bind
         (fields_from [''id'', ''ok'', ''stdout'', ''stderr'', ''exit_code''] content) de_response)
     else if tag = ''event'' then
       map_option F_event (Option.bind
         (fields_from [''kind'', ''vin'', ''time'', ''error''] content) de_event)
     else if tag = ''heartbeat'' then
       map_option F_heartbeat (Option.bind (fields_from [''unix''] content)
         (\<lambda>f. required de_i64 (f ''unix'')))
     else if tag = ''hello'' then
       map_option F_hello (Option.bind (fields_from [''v''] content)
         (\<lambda>f. required de_u32 (f ''v'')))
     else None)"

definition frame_of_json :: "json \<Rightarrow> frame option" where
  "frame_of_json j =
    (case j of
       JN_obj ms \<Rightarrow>
         Option.bind (fields_from [''type''] j) (\<lambda>f.
         Option.bind (required de_str (f ''type'')) (\<lambda>tag. frame_of_tag tag j))
     | JN_arr (JN_str tag # xs) \<Rightarrow> frame_of_tag tag (JN_arr xs)
     | _ \<Rightarrow> None)"

definition decode_line :: "(string \<Rightarrow> json option) \<Rightarrow> string \<Rightarrow> frame option" where
  "decode_line parse line = Option.bind (parse (trim_end line)) frame_of_json"

definition request_json :: "string \<Rightarrow> string \<Rightarrow> string list \<Rightarrow> json" where
  "request_json i c as =
    JN_obj [(''type'', JN_str ''request''), (''id'', JN_str i), (''cmd'', JN_str c),
            (''args'', JN_arr (map JN_str as))]"

section \<open>The client's state\<close>

record child =
  ch_alive :: bool
  ch_responses :: "response list"
  ch_argv :: "string list"
  ch_sent :: "json list"

record session =
  s_child :: "child option"
  s_next_id :: "64 word"
  s_events :: "session_event list"
  s_presence :: bool
  s_backend :: string

definition new_session :: "string \<Rightarrow> session" where
  "new_session backend = \<lparr>s_child = None, s_next_id = 1, s_events = [], s_presence = False,
     s_backend = backend\<rparr>"

definition EVENT_CAP :: nat where
  "EVENT_CAP = 64"

definition push_event :: "session_event \<Rightarrow> session_event list \<Rightarrow> session_event list" where
  "push_event e q = (if length q = EVENT_CAP then tl q @ [e] else q @ [e])"

definition stopped_event :: "string \<Rightarrow> session_event" where
  "stopped_event why = \<lparr>ev_kind = ''presence_stopped'', ev_vin = [], ev_time = [], ev_error = why\<rparr>"

section \<open>The reader thread\<close>

text \<open>The reader ends: the child is dead for the client and one stopped event replaces the queue.\<close>

definition reader_end :: "session \<Rightarrow> session" where
  "reader_end s =
    (case s_child s of
       None \<Rightarrow> s
     | Some c \<Rightarrow>
         if \<not> ch_alive c then s
         else s\<lparr>s_child := Some (c\<lparr>ch_alive := False\<rparr>),
                s_events := [stopped_event ''tesla-session transport closed'']\<rparr>)"

definition reader_frame :: "frame option \<Rightarrow> session \<Rightarrow> session" where
  "reader_frame fo s =
    (case s_child s of
       None \<Rightarrow> s
     | Some c \<Rightarrow>
         if \<not> ch_alive c then s
         else
           (case fo of
              Some (F_response r) \<Rightarrow>
                s\<lparr>s_child := Some (c\<lparr>ch_responses := ch_responses c @ [r]\<rparr>)\<rparr>
            | Some (F_event e) \<Rightarrow> s\<lparr>s_events := push_event e (s_events s)\<rparr>
            | Some (F_heartbeat u) \<Rightarrow> s
            | Some (F_hello v) \<Rightarrow> reader_end s
            | None \<Rightarrow> reader_end s))"

datatype wire = Line string | Closed

definition reader_step :: "(string \<Rightarrow> json option) \<Rightarrow> wire \<Rightarrow> session \<Rightarrow> session" where
  "reader_step parse w s =
    (case w of Line l \<Rightarrow> reader_frame (decode_line parse l) s | Closed \<Rightarrow> reader_end s)"

section \<open>Spawning\<close>

datatype session_error =
    Spawn_error string | Handshake_error string | BrokenPipe | Timeout_error | IdMismatch

text \<open>
  What spawning meets: the process cannot be started, never connects, or connects and sends a first
  line.
\<close>

datatype spawn_env = Spawn_fails string | No_connection | First_line string

definition spawn_argv :: "string \<Rightarrow> string \<Rightarrow> string \<Rightarrow> int \<Rightarrow> int \<Rightarrow> string list" where
  "spawn_argv backend v key ct mt =
    [''-vin'', v, ''-key-file'', key, ''-ble-backend'', backend,
     ''-connect-timeout'', int_str ct @ ''s'', ''-command-timeout'', int_str mt @ ''s'',
     ''-idle-timeout'', nat_digits IDLE_TIMEOUT_SEC @ ''s'']"

definition accept_and_handshake ::
    "(string \<Rightarrow> json option) \<Rightarrow> string list \<Rightarrow> spawn_env \<Rightarrow> (session_error, child) result" where
  "accept_and_handshake parse argv e =
    (case e of
       Spawn_fails e \<Rightarrow> Inl (Spawn_error e)
     | No_connection \<Rightarrow> Inl (Handshake_error ''tesla-session did not connect in time'')
     | First_line l \<Rightarrow>
         if decode_line parse l = Some (F_hello PROTOCOL_VERSION)
         then Inr \<lparr>ch_alive = True, ch_responses = [], ch_argv = argv, ch_sent = []\<rparr>
         else Inl (Handshake_error
           (''bad hello (want {\"type\":\"hello\",\"v\":1}): '' @ trim_end l)))"

section \<open>One exchange\<close>

definition transport_failed :: "session \<Rightarrow> session" where
  "transport_failed s =
    s\<lparr>s_presence := False, s_events := [stopped_event ''tesla-session transport failed'']\<rparr>"

definition kill_child :: "session \<Rightarrow> session" where
  "kill_child s = s\<lparr>s_child := None\<rparr>"

definition invalidate :: "session \<Rightarrow> session" where
  "invalidate s = (kill_child (s\<lparr>s_presence := False\<rparr>))\<lparr>s_events := []\<rparr>"

definition is_alive :: "session \<Rightarrow> bool" where
  "is_alive s = (case s_child s of None \<Rightarrow> False | Some c \<Rightarrow> ch_alive c)"

definition is_presence_active :: "session \<Rightarrow> bool" where
  "is_presence_active s = (s_presence s \<and> is_alive s)"

text \<open>The environment of a call: the spawn if one is needed, the write, the lines until the
  deadline.\<close>

record call_env =
  ce_spawn :: spawn_env
  ce_write_ok :: bool
  ce_lines :: "wire list"

text \<open>
  \<^verbatim>\<open>recv_timeout\<close>: a response already forwarded is taken at once; otherwise the reader goes on
  until a response comes, the reader ends or the deadline passes.
\<close>

fun await_response ::
    "(string \<Rightarrow> json option) \<Rightarrow> wire list \<Rightarrow> session \<Rightarrow> response option \<times> session" where
  "await_response parse ws s =
    (case s_child s of
       None \<Rightarrow> (None, s)
     | Some c \<Rightarrow>
         (case ch_responses c of
            r # rs \<Rightarrow> (Some r, s\<lparr>s_child := Some (c\<lparr>ch_responses := rs\<rparr>)\<rparr>)
          | [] \<Rightarrow>
              if \<not> ch_alive c then (None, s)
              else (case ws of
                      [] \<Rightarrow> (None, s)
                    | w # ws' \<Rightarrow> await_response parse ws' (reader_step parse w s))))"

declare await_response.simps [simp del]

type_synonym run_reply = "(session_error, response) result"

definition reap_dead :: "session \<Rightarrow> session" where
  "reap_dead s =
    (case s_child s of
       Some c \<Rightarrow> if \<not> ch_alive c then transport_failed (kill_child s) else s
     | None \<Rightarrow> s)"

definition ensure_child ::
    "(string \<Rightarrow> json option) \<Rightarrow> string list \<Rightarrow> spawn_env \<Rightarrow> session
     \<Rightarrow> (session_error, session) result" where
  "ensure_child parse argv e s =
    (case s_child s of
       Some c \<Rightarrow> Inr s
     | None \<Rightarrow>
         (case accept_and_handshake parse argv e of
            Inl err \<Rightarrow> Inl err
          | Inr c \<Rightarrow> Inr (s\<lparr>s_child := Some c\<rparr>)))"

definition fail_exchange :: "session_error \<Rightarrow> session \<Rightarrow> run_reply \<times> session" where
  "fail_exchange e s = (Inl e, transport_failed (kill_child s))"

definition send_request :: "json \<Rightarrow> session \<Rightarrow> session" where
  "send_request j s = s\<lparr>s_child := map_option (\<lambda>c. c\<lparr>ch_sent := ch_sent c @ [j]\<rparr>) (s_child s)\<rparr>"

definition exchange ::
    "(string \<Rightarrow> json option) \<Rightarrow> call_env \<Rightarrow> string \<Rightarrow> string list \<Rightarrow> session
     \<Rightarrow> run_reply \<times> session" where
  "exchange parse e c as s =
    (let i = nat_digits (unat (s_next_id s));
         s1 = s\<lparr>s_next_id := s_next_id s + 1\<rparr>
     in if \<not> ce_write_ok e then fail_exchange BrokenPipe s1
        else
          (case await_response parse (ce_lines e) (send_request (request_json i c as) s1) of
             (None, s2) \<Rightarrow> fail_exchange Timeout_error s2
           | (Some r, s2) \<Rightarrow>
               if r_id r \<noteq> i then fail_exchange IdMismatch s2
               else (Inr r,
                     if r_ok r \<and> (c = ''presence-start'' \<or> c = ''presence-stop'')
                     then s2\<lparr>s_presence := (c = ''presence-start'')\<rparr> else s2)))"

definition session_run ::
    "(string \<Rightarrow> json option) \<Rightarrow> call_env \<Rightarrow> string \<Rightarrow> string list \<Rightarrow> string list \<Rightarrow> session
     \<Rightarrow> run_reply \<times> session" where
  "session_run parse e c as argv s =
    (let s0 = reap_dead s
     in case ensure_child parse argv (ce_spawn e) s0 of
          Inl err \<Rightarrow> (Inl err, s0)
        | Inr s1 \<Rightarrow> exchange parse e c as s1)"

definition keygen_args :: "bool \<Rightarrow> string list" where
  "keygen_args force = (if force then [''-f''] else [])"

definition poll_event :: "session \<Rightarrow> session_event option \<times> session" where
  "poll_event s =
    (case s_events s of [] \<Rightarrow> (None, s) | e # q \<Rightarrow> (Some e, s\<lparr>s_events := q\<rparr>))"

definition clear_events :: "session \<Rightarrow> session" where
  "clear_events s = s\<lparr>s_events := []\<rparr>"

section \<open>Lemmas\<close>

lemma push_event_last_n:
  "length q \<le> EVENT_CAP \<Longrightarrow> push_event e q = last_n EVENT_CAP (q @ [e])"
  by (cases q) (auto simp: push_event_def last_n_def EVENT_CAP_def)

interpretation events: drop_oldest push_event "\<lambda>q. q" EVENT_CAP
  by unfold_locales (simp_all add: push_event_last_n, simp add: EVENT_CAP_def)

text \<open>What holds between calls, whatever the child does.\<close>

definition session_inv :: "session \<Rightarrow> bool" where
  "session_inv s = (length (s_events s) \<le> EVENT_CAP \<and> (s_presence s \<longrightarrow> s_child s \<noteq> None))"

lemma cap_ge_1 [simp]: "Suc 0 \<le> EVENT_CAP" "0 < EVENT_CAP"
  by (simp_all add: EVENT_CAP_def)

lemma inv_new [inv_intros]: "session_inv (new_session b)"
  by (simp add: session_inv_def new_session_def)

lemma inv_reader_end [inv_intros]: "session_inv s \<Longrightarrow> session_inv (reader_end s)"
  by (auto simp: session_inv_def reader_end_def split: option.splits)

lemma inv_reader_frame [inv_intros]: "session_inv s \<Longrightarrow> session_inv (reader_frame fo s)"
  using events.push_length inv_reader_end
  by (auto simp: reader_frame_def session_inv_def split: option.splits frame.splits)

lemma inv_reader_step [inv_intros]: "session_inv s \<Longrightarrow> session_inv (reader_step parse w s)"
  by (auto simp: reader_step_def inv_reader_end inv_reader_frame split: wire.splits)

lemma inv_transport_failed [inv_intros]: "session_inv (transport_failed s)"
  by (simp add: session_inv_def transport_failed_def)

lemma inv_invalidate [inv_intros]: "session_inv (invalidate s)"
  by (simp add: session_inv_def invalidate_def kill_child_def)

lemma inv_reap_dead [inv_intros]: "session_inv s \<Longrightarrow> session_inv (reap_dead s)"
  by (auto simp: reap_dead_def inv_transport_failed split: option.splits)

lemma inv_ensure_child [inv_intros]:
  "session_inv s \<Longrightarrow> ensure_child parse argv e s = Inr s' \<Longrightarrow> session_inv s'"
  by (auto simp: ensure_child_def session_inv_def split: option.splits sum.splits)

text \<open>One rule for each way a wait goes on or ends.\<close>

lemma await_none: "s_child s = None \<Longrightarrow> await_response parse ws s = (None, s)"
  by (subst await_response.simps) simp

lemma await_ready:
  "s_child s = Some c \<Longrightarrow> ch_responses c = r # rs \<Longrightarrow>
   await_response parse ws s = (Some r, s\<lparr>s_child := Some (c\<lparr>ch_responses := rs\<rparr>)\<rparr>)"
  by (subst await_response.simps) simp

lemma await_dead:
  "s_child s = Some c \<Longrightarrow> ch_responses c = [] \<Longrightarrow> \<not> ch_alive c \<Longrightarrow>
   await_response parse ws s = (None, s)"
  by (subst await_response.simps) simp

lemma await_deadline:
  "s_child s = Some c \<Longrightarrow> ch_responses c = [] \<Longrightarrow> await_response parse [] s = (None, s)"
  by (subst await_response.simps) simp

lemma await_line:
  "s_child s = Some c \<Longrightarrow> ch_responses c = [] \<Longrightarrow> ch_alive c \<Longrightarrow>
   await_response parse (w # ws) s = await_response parse ws (reader_step parse w s)"
  by (subst await_response.simps) simp

lemmas await_rules = await_none await_ready await_dead await_deadline await_line

lemma await_invariant:
  assumes step: "\<And>s w. P s \<Longrightarrow> P (reader_step parse w s)"
    and take: "\<And>s c. P s \<Longrightarrow> s_child s = Some c \<Longrightarrow>
                 P (s\<lparr>s_child := Some (c\<lparr>ch_responses := tl (ch_responses c)\<rparr>)\<rparr>)"
    and "P s"
  shows "P (snd (await_response parse ws s))"
  using assms(3)
proof (induction ws arbitrary: s)
  case Nil
  show ?case
  proof (cases "s_child s")
    case (Some c)
    then show ?thesis using take [OF Nil Some] Nil
      by (cases "ch_responses c") (simp_all add: await_rules)
  qed (simp add: await_rules Nil)
next
  case (Cons w ws)
  show ?case
  proof (cases "s_child s")
    case (Some c)
    then show ?thesis using take [OF Cons.prems Some] Cons step
      by (cases "ch_responses c"; cases "ch_alive c") (simp_all add: await_rules)
  qed (simp add: await_rules Cons)
qed

lemma inv_await [inv_intros]: "session_inv s \<Longrightarrow> session_inv (snd (await_response parse ws s))"
  by (rule await_invariant) (auto simp: inv_reader_step, simp add: session_inv_def)

lemma reader_step_idle:
  assumes "s_child s = Some c" "ch_responses c = []" "\<not> is_alive (reader_step parse w s)"
  shows "\<exists>d. s_child (reader_step parse w s) = Some d \<and> ch_responses d = [] \<and> \<not> ch_alive d"
  using assms
  by (auto simp: reader_step_def reader_frame_def reader_end_def is_alive_def
      split: wire.splits option.splits frame.splits if_splits)

text \<open>A response taken from a live child leaves it live.\<close>

lemma await_alive:
  "is_alive s \<Longrightarrow> await_response parse ws s = (Some r, s') \<Longrightarrow> is_alive s'"
proof (induction ws arbitrary: s)
  case Nil
  then obtain c where "s_child s = Some c" by (auto simp: is_alive_def split: option.splits)
  then show ?case using Nil
    by (cases "ch_responses c") (auto simp: await_rules is_alive_def)
next
  case (Cons w ws)
  then obtain c where c: "s_child s = Some c" "ch_alive c"
    by (auto simp: is_alive_def split: option.splits)
  show ?case
  proof (cases "ch_responses c")
    case Nil
    have "await_response parse ws (reader_step parse w s) = (Some r, s')"
      using Cons.prems(2) c Nil by (simp add: await_line)
    moreover have "is_alive (reader_step parse w s)"
    proof (rule ccontr)
      assume "\<not> is_alive (reader_step parse w s)"
      then obtain d where "s_child (reader_step parse w s) = Some d" "ch_responses d = []"
        "\<not> ch_alive d" using reader_step_idle [OF c(1) Nil] by blast
      then show False using calculation by (simp add: await_dead)
    qed
    ultimately show ?thesis using Cons.IH by blast
  next
    case (Cons x xs)
    then show ?thesis using Cons.prems c by (auto simp: await_ready is_alive_def)
  qed
qed

lemma reader_step_child [simp]: "s_child (reader_step parse w s) = None \<longleftrightarrow> s_child s = None"
  by (auto simp: reader_step_def reader_frame_def reader_end_def
      split: wire.splits option.splits frame.splits)

lemma reader_step_presence [simp]: "s_presence (reader_step parse w s) = s_presence s"
  by (auto simp: reader_step_def reader_frame_def reader_end_def
      split: wire.splits option.splits frame.splits)

lemma await_presence: "s_presence (snd (await_response parse ws s)) = s_presence s"
  by (rule await_invariant [of "\<lambda>t. s_presence t = s_presence s"]) auto

lemma ensure_alive:
  assumes "ensure_child parse argv e (reap_dead s) = Inr s'" shows "is_alive s'"
  using assms
  by (auto simp: ensure_child_def reap_dead_def accept_and_handshake_def is_alive_def
      kill_child_def transport_failed_def split: option.splits sum.splits spawn_env.splits if_splits)

lemma transport_failed_off [simp]:
  "s_presence (transport_failed s) = False" "s_child (transport_failed s) = s_child s"
  by (simp_all add: transport_failed_def)

lemma kill_child_none [simp]: "s_child (kill_child s) = None" "s_presence (kill_child s) = s_presence s"
  by (simp_all add: kill_child_def)

lemma reap_dead_presence: "s_presence (reap_dead s) \<Longrightarrow> s_presence s"
  by (auto simp: reap_dead_def split: option.splits if_splits)

lemma ensure_child_presence:
  "ensure_child parse argv e s = Inr s' \<Longrightarrow> s_presence s' = s_presence s"
  by (auto simp: ensure_child_def split: option.splits sum.splits)

lemma send_request_keeps [simp]:
  "s_child (send_request j s) = None \<longleftrightarrow> s_child s = None"
  "s_events (send_request j s) = s_events s" "s_presence (send_request j s) = s_presence s"
  "s_backend (send_request j s) = s_backend s" "s_next_id (send_request j s) = s_next_id s"
  "is_alive (send_request j s) = is_alive s"
  by (auto simp: send_request_def is_alive_def split: option.splits)

lemma next_id_alive [simp]: "is_alive (s\<lparr>s_next_id := n\<rparr>) = is_alive s"
  by (simp add: is_alive_def)

lemma exchange_cases:
  assumes "is_alive s"
  obtains (failed) err t where "exchange parse e c as s = (Inl err, transport_failed (kill_child t))"
  | (answered) r t where
      "await_response parse (ce_lines e)
         (send_request (request_json (nat_digits (unat (s_next_id s))) c as)
           (s\<lparr>s_next_id := s_next_id s + 1\<rparr>)) = (Some r, t)"
      "r_id r = nat_digits (unat (s_next_id s))" "is_alive t" "s_presence t = s_presence s"
      "exchange parse e c as s =
        (Inr r, if r_ok r \<and> (c = ''presence-start'' \<or> c = ''presence-stop'')
                then t\<lparr>s_presence := (c = ''presence-start'')\<rparr> else t)"
proof -
  let ?s1 = "send_request (request_json (nat_digits (unat (s_next_id s))) c as)
               (s\<lparr>s_next_id := s_next_id s + 1\<rparr>)"
  obtain ro t where at: "await_response parse (ce_lines e) ?s1 = (ro, t)" by fastforce
  consider "\<not> ce_write_ok e" | "ce_write_ok e" "ro = None"
    | r where "ce_write_ok e" "ro = Some r" "r_id r \<noteq> nat_digits (unat (s_next_id s))"
    | r where "ce_write_ok e" "ro = Some r" "r_id r = nat_digits (unat (s_next_id s))"
    by (cases ro) auto
  then show thesis
  proof cases
    case 4
    have "is_alive ?s1" using assms by simp
    then have "is_alive t" by (rule await_alive) (use at 4 in simp)
    moreover have "s_presence t = s_presence s" using await_presence [of parse "ce_lines e" ?s1] at by simp
    ultimately show thesis using answered [of r t] 4 at
      by (simp add: exchange_def)
  qed (use at in \<open>auto simp: exchange_def fail_exchange_def intro: failed\<close>)
qed

lemma session_run_cases:
  obtains (no_child) err where "session_run parse e c as argv s = (Inl err, reap_dead s)"
      "ensure_child parse argv (ce_spawn e) (reap_dead s) = Inl err"
      "s_child (reap_dead s) = None"
  | (running) s1 where "ensure_child parse argv (ce_spawn e) (reap_dead s) = Inr s1" "is_alive s1"
      "session_run parse e c as argv s = exchange parse e c as s1"
proof (cases "ensure_child parse argv (ce_spawn e) (reap_dead s)")
  case (Inl err)
  then have "s_child (reap_dead s) = None" by (auto simp: ensure_child_def split: option.splits)
  then show thesis using no_child [of err] Inl by (simp add: session_run_def)
next
  case (Inr s1)
  then show thesis using running ensure_alive by (simp add: session_run_def)
qed

lemma session_run_ok:
  assumes "session_run parse e c as argv s = (Inr r, s')"
  shows "is_alive s' \<and> r_id r = nat_digits (unat (s_next_id s))
    \<and> (r_ok r \<and> c = ''presence-start'' \<longrightarrow> s_presence s')
    \<and> (r_ok r \<and> c = ''presence-stop'' \<longrightarrow> \<not> s_presence s')
    \<and> (c \<noteq> ''presence-start'' \<longrightarrow> s_presence s' \<longrightarrow> s_presence s)"
proof (cases rule: session_run_cases [of parse e c as argv s])
  case no_child
  then show ?thesis using assms by simp
next
  case (running s1)
  have n: "s_next_id s1 = s_next_id s"
    using running(1) by (auto simp: ensure_child_def reap_dead_def transport_failed_def kill_child_def
        split: option.splits sum.splits if_splits)
  have p: "s_presence s1 \<Longrightarrow> s_presence s"
    using ensure_child_presence [OF running(1)] reap_dead_presence by auto
  show ?thesis
  using running(2)
  proof (cases rule: exchange_cases [where parse = parse and e = e and c = c and as = as])
    case failed
    then show ?thesis using assms running(3) by simp
  next
    case (answered q t)
    then show ?thesis using assms running(3) n p by (auto simp: is_alive_def split: if_splits)
  qed
qed

lemma session_run_error:
  assumes "session_run parse e c as argv s = (Inl err, s')" "session_inv s"
  shows "s_child s' = None \<and> \<not> s_presence s'"
proof (cases rule: session_run_cases [of parse e c as argv s])
  case no_child
  then show ?thesis using assms inv_reap_dead [OF assms(2)] by (auto simp: session_inv_def)
next
  case (running s1)
  show ?thesis
    using running(2)
    by (cases rule: exchange_cases [where parse = parse and e = e and c = c and as = as]) (use assms running(3) in auto)
qed

lemma inv_exchange:
  assumes "session_inv s" "is_alive s" shows "session_inv (snd (exchange parse e c as s))"
  using assms(2)
proof (cases rule: exchange_cases [where parse = parse and e = e and c = c and as = as])
  case (answered r t)
  have "session_inv (send_request j (s\<lparr>s_next_id := s_next_id s + 1\<rparr>))" for j
    using assms by (simp add: session_inv_def)
  then have "session_inv t" using inv_await answered(1) by (metis snd_conv)
  then show ?thesis using answered by (auto simp: session_inv_def is_alive_def split: option.splits)
qed (simp add: inv_transport_failed)

lemma inv_session_run [inv_intros]:
  assumes "session_inv s" shows "session_inv (snd (session_run parse e c as argv s))"
proof (cases rule: session_run_cases [of parse e c as argv s])
  case no_child
  then show ?thesis using inv_reap_dead [OF assms] by simp
next
  case (running s1)
  then show ?thesis
    using inv_exchange inv_ensure_child [OF inv_reap_dead [OF assms]] by metis
qed

lemma inv_poll [inv_intros]: "session_inv s \<Longrightarrow> session_inv (snd (poll_event s))"
  by (auto simp: session_inv_def poll_event_def split: list.splits)

lemma inv_clear [inv_intros]: "session_inv s \<Longrightarrow> session_inv (clear_events s)"
  by (simp add: session_inv_def clear_events_def)

section \<open>The client provides the session service\<close>

definition session_request ::
    "(string \<Rightarrow> json option) \<Rightarrow> call_env \<times> string list \<times> string list \<Rightarrow> string \<Rightarrow> session
     \<Rightarrow> bool \<times> session" where
  "session_request parse ea c s =
    (case session_run parse (fst ea) c (fst (snd ea)) (snd (snd ea)) s of
       (Inl err, t) \<Rightarrow> (False, t)
     | (Inr r, t) \<Rightarrow> (r_ok r, t))"

lemma session_request_snd:
  "snd (session_request parse ea c s) = snd (session_run parse (fst ea) c (fst (snd ea)) (snd (snd ea)) s)"
  by (simp add: session_request_def split: prod.splits sum.splits)

lemma session_request_ok:
  "fst (session_request parse ea c s) \<Longrightarrow>
   \<exists>r t. session_run parse (fst ea) c (fst (snd ea)) (snd (snd ea)) s = (Inr r, t) \<and> r_ok r"
  by (auto simp: session_request_def split: prod.splits sum.splits)

lemma reader_step_active: "is_presence_active (reader_step parse w s) \<Longrightarrow> is_presence_active s"
  by (auto simp: is_presence_active_def is_alive_def reader_step_def reader_frame_def reader_end_def
      split: wire.splits option.splits frame.splits if_splits)

lemma session_run_activates:
  assumes "is_presence_active (snd (session_run parse e c as argv s))"
    and "c \<noteq> ''presence-start'' \<or> \<not> (\<exists>r t. session_run parse e c as argv s = (Inr r, t) \<and> r_ok r)"
    and "session_inv s"
  shows "is_presence_active s"
proof (cases "session_run parse e c as argv s")
  case (Pair ro t)
  show ?thesis
  proof (cases rule: session_run_cases [of parse e c as argv s])
    case no_child
    then show ?thesis using assms(1) by (simp add: is_presence_active_def is_alive_def)
  next
    case (running s1)
    have on: "s_presence s1"
      using running(2)
    by (cases rule: exchange_cases [where parse = parse and e = e and c = c and as = as])
        (use assms running(3) in \<open>auto simp: is_presence_active_def split: if_splits\<close>)
    then have "s_presence (reap_dead s)" using ensure_child_presence [OF running(1)] by simp
    then have "reap_dead s = s" "s_presence s"
      by (auto simp: reap_dead_def split: option.splits if_splits)
    moreover have "s_child s \<noteq> None" using assms(3) \<open>s_presence s\<close> by (simp add: session_inv_def)
    then have "is_alive s"
      using \<open>s_presence (reap_dead s)\<close> by (auto simp: reap_dead_def is_alive_def split: if_splits)
    ultimately show ?thesis by (simp add: is_presence_active_def)
  qed
qed

interpretation link: session_service "session_request parse" invalidate "reader_step parse"
    is_presence_active session_inv for parse
proof unfold_locales
  fix s and e :: "call_env \<times> string list \<times> string list" and c f
  show "session_inv (snd (session_request parse e c s))" if "session_inv s"
    using that by (simp add: session_request_snd inv_session_run)
  show "session_inv (invalidate s)" if "session_inv s" by (rule inv_invalidate)
  show "session_inv (reader_step parse f s)" if "session_inv s" using that by (rule inv_reader_step)
  show "\<not> is_presence_active (invalidate s)"
    by (simp add: is_presence_active_def invalidate_def kill_child_def)
  show "is_presence_active s" if "is_presence_active (reader_step parse f s)"
    using that by (rule reader_step_active)
  show "is_presence_active (snd (session_request parse e ''presence-start'' s))"
    if "session_inv s" "fst (session_request parse e ''presence-start'' s)"
    using session_request_ok [OF that(2)] session_run_ok
    by (fastforce simp: session_request_snd is_presence_active_def)
  show "\<not> is_presence_active (snd (session_request parse e ''presence-stop'' s))"
    if "fst (session_request parse e ''presence-stop'' s)"
    using session_request_ok [OF that] session_run_ok
    by (fastforce simp: session_request_snd is_presence_active_def)
  show "is_presence_active s"
    if "session_inv s" "c \<noteq> ''presence-start''"
      "is_presence_active (snd (session_request parse e c s))"
    using that session_run_activates by (simp add: session_request_snd)
qed

section \<open>Operations in sequence\<close>

datatype session_op = Call call_env string "string list" "string list" | Wire wire | Invalidate | Poll | Clear

fun run_op :: "(string \<Rightarrow> json option) \<Rightarrow> session_op \<Rightarrow> session \<Rightarrow> session" where
  "run_op parse (Call e c as argv) s = snd (session_run parse e c as argv s)"
| "run_op parse (Wire w) s = reader_step parse w s"
| "run_op parse Invalidate s = invalidate s"
| "run_op parse Poll s = snd (poll_event s)"
| "run_op parse Clear s = clear_events s"

lemma inv_run_op [inv_intros]: "session_inv s \<Longrightarrow> session_inv (run_op parse op s)"
  by (cases op) (simp_all add: inv_session_run inv_reader_step inv_invalidate inv_poll inv_clear)

lemma inv_run_ops: "session_inv s \<Longrightarrow> session_inv (fold (run_op parse) ops s)"
  by (induction ops arbitrary: s) (auto simp: inv_run_op)

lemma reader_events:
  assumes "s_child s = Some c" "ch_alive c"
    and "\<forall>l \<in> set ls. decode_line parse l = Some (F_event (g l))"
  shows "fold (reader_step parse) (map Line ls) s
    = s\<lparr>s_events := fold push_event (map g ls) (s_events s)\<rparr>"
  using assms
proof (induction ls arbitrary: s)
  case (Cons l ls)
  have "reader_step parse (Line l) s = s\<lparr>s_events := push_event (g l) (s_events s)\<rparr>"
    using Cons.prems by (simp add: reader_step_def reader_frame_def)
  moreover have "fold (reader_step parse) (map Line ls) (s\<lparr>s_events := push_event (g l) (s_events s)\<rparr>)
     = s\<lparr>s_events := fold push_event (map g ls) (push_event (g l) (s_events s))\<rparr>"
    using Cons.IH [of "s\<lparr>s_events := push_event (g l) (s_events s)\<rparr>"] Cons.prems by simp
  ultimately show ?case by simp
qed simp

section \<open>Properties\<close>

text \<open>
  C10: A call never pairs a request with another request's reply.  If it returns a reply, the reply
  carries the identifier of this request and the child is alive; if it fails, no child is left,
  presence is off, and, unless the child could not be started at all, the only event left to poll is
  that presence stopped.
\<close>

theorem session_call_sound:
  assumes "session_inv s"
  shows "case session_run parse e c as argv s of
      (Inr r, s') \<Rightarrow> is_alive s' \<and> r_id r = nat_digits (unat (s_next_id s))
    | (Inl err, s') \<Rightarrow> s_child s' = None \<and> \<not> s_presence s'
        \<and> (err \<in> {BrokenPipe, Timeout_error, IdMismatch} \<longrightarrow>
             s_events s' = [stopped_event ''tesla-session transport failed''])"
proof (cases "session_run parse e c as argv s")
  case (Pair res s')
  show ?thesis
  proof (cases res)
    case (Inr r)
    then show ?thesis using session_run_ok Pair by simp
  next
    case (Inl err)
    have "s_events s' = [stopped_event ''tesla-session transport failed'']"
      if "err \<in> {BrokenPipe, Timeout_error, IdMismatch}"
    proof (cases rule: session_run_cases [of parse e c as argv s])
      case (no_child err')
      then have "ensure_child parse argv (ce_spawn e) (reap_dead s) = Inl err" using Pair Inl by simp
      then show ?thesis using that
        by (auto simp: ensure_child_def accept_and_handshake_def
            split: option.splits sum.splits spawn_env.splits if_splits)
    next
      case (running s1)
      show ?thesis using running(2)
        by (cases rule: exchange_cases [where parse = parse and e = e and c = c and as = as])
          (use Pair Inl running(3) in \<open>auto simp: transport_failed_def\<close>)
    qed
    then show ?thesis using Inl Pair session_run_error [OF _ assms] by auto
  qed
qed

theorem session_call_sound_witness:
  "s_events (snd (session_run (\<lambda>_. None) \<lparr>ce_spawn = No_connection, ce_write_ok = True, ce_lines = []\<rparr>
      ''ping'' [] [] (new_session ''bluez''))) = []
   \<and> s_child (snd (session_run (\<lambda>_. None) \<lparr>ce_spawn = No_connection, ce_write_ok = True, ce_lines = []\<rparr>
      ''ping'' [] [] (new_session ''bluez''))) = None"
proof -
  let ?e = "\<lparr>ce_spawn = No_connection, ce_write_ok = True, ce_lines = []\<rparr>"
  have "session_run (\<lambda>_. None) ?e ''ping'' [] [] (new_session ''bluez'')
      = (Inl (Handshake_error ''tesla-session did not connect in time''), new_session ''bluez'')"
    by (simp add: session_run_def reap_dead_def new_session_def ensure_child_def
        accept_and_handshake_def)
  then show ?thesis
    using session_call_sound [OF inv_new [of "''bluez''"], where parse = "\<lambda>_. None" and e = ?e
        and c = "''ping''" and as = "[]" and argv = "[]"]
    by (simp add: new_session_def)
qed

text \<open>
  Whatever calls, arriving lines, hang-ups, polls and invalidations follow one another, the event
  queue never exceeds 64 entries and presence is never reported active without a child.
\<close>

theorem session_always_bounded:
  "length (s_events (fold (run_op parse) ops (new_session b))) \<le> 64
   \<and> (s_presence (fold (run_op parse) ops (new_session b)) \<longrightarrow>
        s_child (fold (run_op parse) ops (new_session b)) \<noteq> None)"
  using inv_run_ops [OF inv_new, of parse ops b] by (simp add: session_inv_def EVENT_CAP_def)

theorem session_always_bounded_witness:
  "length (s_events (fold (run_op (\<lambda>_. None)) [Wire Closed, Invalidate] (new_session ''hci''))) \<le> 64"
  using session_always_bounded [of "\<lambda>_. None" "[Wire Closed, Invalidate]" "''hci''"] by blast

text \<open>
  After an invalidation presence stays off until it is asked for: no line of any child, no reply
  to another command and no order of them makes it active again without a presence-start request.
\<close>

theorem presence_needs_start:
  assumes "session_inv s"
    and "\<forall>e as argv c. Inl ((e, as, argv), c) \<in> set xs \<longrightarrow> c \<noteq> ''presence-start''"
  shows "\<not> is_presence_active (fold (\<lambda>x s. case x of
        Inl (ea, c) \<Rightarrow> snd (session_run parse (fst ea) c (fst (snd ea)) (snd (snd ea)) s)
      | Inr w \<Rightarrow> reader_step parse w s) xs (invalidate s))"
proof -
  have "\<not> is_presence_active (link.run_steps parse xs (invalidate s))"
    using assms by (intro link.dropped_stays_inactive) auto
  then show ?thesis unfolding link.run_steps_def session_request_snd .
qed

theorem presence_needs_start_witness:
  "\<not> is_presence_active (fold (\<lambda>x s. case x of
        Inl (ea, c) \<Rightarrow> snd (session_run (\<lambda>_. None) (fst ea) c (fst (snd ea)) (snd (snd ea)) s)
      | Inr w \<Rightarrow> reader_step (\<lambda>_. None) w s)
      [Inr (Line ''junk''), Inl ((\<lparr>ce_spawn = Spawn_fails ''ENOENT'', ce_write_ok = True, ce_lines = []\<rparr>, [], []), ''ping'')]
      (invalidate (new_session ''bluez'')))"
  by (rule presence_needs_start [OF inv_new]) auto

text \<open>
  A burst of events of any length leaves exactly the last 64 of what was queued and what arrived,
  in order, and changes nothing else.
\<close>

theorem event_queue_keeps_last:
  assumes "s_child s = Some c" "ch_alive c" "length (s_events s) \<le> 64"
    and "\<forall>l \<in> set ls. decode_line parse l = Some (F_event (g l))"
  shows "fold (reader_step parse) (map Line ls) s
    = s\<lparr>s_events := last_n 64 (s_events s @ map g ls)\<rparr>"
  using reader_events [OF assms(1,2,4)] events.fold_items [of "s_events s" "map g ls"] assms(3)
  by (simp add: EVENT_CAP_def)

theorem event_queue_keeps_last_witness:
  "s_events (fold (reader_step (\<lambda>_. Some (JN_obj [(''type'', JN_str ''event''), (''kind'', JN_str ''unlock'')])))
     (map Line (replicate 70 ''x''))
     (new_session ''bluez''\<lparr>s_child := Some \<lparr>ch_alive = True, ch_responses = [], ch_argv = [], ch_sent = []\<rparr>\<rparr>))
   = replicate 64 \<lparr>ev_kind = ''unlock'', ev_vin = [], ev_time = [], ev_error = []\<rparr>"
proof -
  let ?p = "\<lambda>_ :: string. Some (JN_obj [(''type'', JN_str ''event''), (''kind'', JN_str ''unlock'')])"
  let ?e = "\<lparr>ev_kind = ''unlock'', ev_vin = [], ev_time = [], ev_error = []\<rparr>"
  let ?c = "\<lparr>ch_alive = True, ch_responses = [], ch_argv = [], ch_sent = []\<rparr>"
  let ?s = "new_session ''bluez''\<lparr>s_child := Some ?c\<rparr>"
  have "decode_line ?p l = Some (F_event ?e)" for l
    by (simp add: decode_line_def frame_of_json_def frame_of_tag_def fields_from_def required_def
        de_str_def de_event_def defaulted_def)
  then have "fold (reader_step ?p) (map Line (replicate 70 ''x'')) ?s
      = ?s\<lparr>s_events := last_n 64 (s_events ?s @ map (\<lambda>_. ?e) (replicate 70 ''x''))\<rparr>"
    by (intro event_queue_keeps_last [of _ ?c]) (auto simp: new_session_def)
  then show ?thesis by (simp add: new_session_def last_n_def map_replicate_const)
qed

end
