(* ===== verification/Shared_Destination.thy ===== *)
theory Shared_Destination
  imports Command_Gate
begin

text \<open>
  The parser of shared destinations, \<^verbatim>\<open>helper/src/share.rs\<close>: what turns the text a share, a paste
  or an opened link brings into exact coordinates or an address.  Rust's \<^verbatim>\<open>f64\<close> parser is the one of
  \<^verbatim>\<open>Float64\<close>; the \<^verbatim>\<open>url\<close> crate (URL parser and form decoder) and the printing of a float are the
  record \<^verbatim>\<open>url_lib\<close>.
\<close>

section \<open>Data\<close>

datatype destination = LatLon f64 f64 | Address string

datatype share_error = Share_empty | Share_too_long | Share_out_of_range

fun share_error_text :: "share_error \<Rightarrow> string" where
  "share_error_text Share_empty = ''nothing to share: the text is empty''"
| "share_error_text Share_too_long = ''shared text is too long (max 2000 characters)''"
| "share_error_text Share_out_of_range =
     ''coordinates out of range (lat -90..90, lon -180..180)''"

definition MAX_SHARE_TEXT_LEN :: nat where
  "MAX_SHARE_TEXT_LEN = 2000"

record url_parts =
  u_path :: string
  u_pairs :: "(string \<times> string) list"
  u_fragment :: "string option"

record url_lib =
  ul_parse :: "string \<Rightarrow> url_parts option"
  ul_form :: "string \<Rightarrow> (string \<times> string) list"
  ul_show :: "f64 \<Rightarrow> string"

section \<open>Strings of the standard library\<close>

definition eq_ignore_case :: "string \<Rightarrow> string \<Rightarrow> bool" where
  "eq_ignore_case a b = (to_lower a = to_lower b)"

definition trim_matches :: "char set \<Rightarrow> string \<Rightarrow> string" where
  "trim_matches cs s = rev (dropWhile (\<lambda>c. c \<in> cs) (rev (dropWhile (\<lambda>c. c \<in> cs) s)))"

text \<open>The words between stretches of Unicode white space; the byte count is enough fuel.\<close>

fun words_from :: "nat \<Rightarrow> string \<Rightarrow> string \<Rightarrow> string list" where
  "words_from 0 w s = (if w = [] then [] else [w])"
| "words_from (Suc n) w s =
    (if s = [] then (if w = [] then [] else [w])
     else case find (\<lambda>b. prefix b s) ws_codes of
       Some b \<Rightarrow> (if w = [] then [] else [w]) @ words_from n [] (drop (length b) s)
     | None \<Rightarrow> words_from n (w @ [hd s]) (tl s))"

definition split_whitespace :: "string \<Rightarrow> string list" where
  "split_whitespace s = words_from (length s) [] s"

definition strip_cr :: "string \<Rightarrow> string" where
  "strip_cr s = (if s \<noteq> [] \<and> last s = CHR 0x0D then butlast s else s)"

definition text_lines :: "string \<Rightarrow> string list" where
  "text_lines s =
    (let ls = split_on (CHR 0x0A) s
     in map strip_cr (butlast ls) @ (if last ls = [] then [] else [last ls]))"

text \<open>What is before and after the first occurrence of \<^verbatim>\<open>p\<close>.\<close>

fun split_once :: "string \<Rightarrow> string \<Rightarrow> (string \<times> string) option" where
  "split_once p [] = (if p = [] then Some ([], []) else None)"
| "split_once p (c # cs) =
    (if prefix p (c # cs) then Some ([], drop (length p) (c # cs))
     else map_option (\<lambda>(a, b). (c # a, b)) (split_once p cs))"

lemma split_once_shorter: "split_once p s = Some (a, b) \<Longrightarrow> p \<noteq> [] \<Longrightarrow> length b < length s"
  by (induction s arbitrary: a b) (fastforce split: if_splits dest: prefix_length_le)+

fun first_some :: "'a option list \<Rightarrow> 'a option" where
  "first_some [] = None"
| "first_some (None # xs) = first_some xs"
| "first_some (Some x # xs) = Some x"

lemma first_some_map: "first_some xs = Some v \<Longrightarrow> first_some (map (map_option f) xs @ ys) = Some (f v)"
  by (induction xs rule: first_some.induct) simp_all

section \<open>Coordinate pairs\<close>

definition valid_latlon :: "f64 \<Rightarrow> f64 \<Rightarrow> bool" where
  "valid_latlon lat lon =
    (f64_is_finite lat \<and> f64_is_finite lon
     \<and> f64_within (- 90) 90 lat \<and> f64_within (- 180) 180 lon)"

definition valid_pair :: "f64 option \<Rightarrow> f64 option \<Rightarrow> (f64 \<times> f64) option" where
  "valid_pair a b =
    (case (a, b) of
       (Some lat, Some lon) \<Rightarrow> if valid_latlon lat lon then Some (lat, lon) else None
     | _ \<Rightarrow> None)"

definition numeric_pair :: "string \<Rightarrow> (f64 \<times> f64) option" where
  "numeric_pair s0 =
    (let s = trim_matches (set ''()[]'') (trim s0);
         parts = (if s = [] then []
                  else if CHR '','' \<in> set s then split_on (CHR '','') s
                  else if CHR '';'' \<in> set s then split_on (CHR '';'') s
                  else if CHR ''~'' \<in> set s then split_on (CHR ''~'') s
                  else if CHR ''|'' \<in> set s then split_on (CHR ''|'') s
                  else split_whitespace s)
     in case parts of
          [a, b] \<Rightarrow> (case (parse_f64 (trim a), parse_f64 (trim b)) of
                       (Some lat, Some lon) \<Rightarrow> Some (lat, lon) | _ \<Rightarrow> None)
        | _ \<Rightarrow> None)"

definition parse_latlon_pair :: "string \<Rightarrow> (f64 \<times> f64) option" where
  "parse_latlon_pair s =
    (case numeric_pair s of
       Some (lat, lon) \<Rightarrow> if valid_latlon lat lon then Some (lat, lon) else None
     | None \<Rightarrow> None)"

definition looks_like_latlon_pair :: "string \<Rightarrow> bool" where
  "looks_like_latlon_pair s = (numeric_pair s \<noteq> None)"

section \<open>Coordinates inside a URL\<close>

definition at_marker :: "bool \<Rightarrow> string" where
  "at_marker place = (if place then ''/place/'' else ''/@'')"

lemma at_marker_nonempty [simp]: "at_marker place \<noteq> []"
  by (simp add: at_marker_def)

definition coordinate_char :: "char \<Rightarrow> bool" where
  "coordinate_char c = (is_digit c \<or> c \<in> set ''.-,+'')"

definition leading_pair :: "string \<Rightarrow> (f64 \<times> f64) option" where
  "leading_pair cand =
    (case split_on (CHR '','') (takeWhile coordinate_char cand) of
       a # b # rest \<Rightarrow> valid_pair (parse_f64 a) (parse_f64 b)
     | _ \<Rightarrow> None)"

function path_scan :: "bool \<Rightarrow> string \<Rightarrow> (f64 \<times> f64) option" where
  "path_scan place s =
    (case split_once (at_marker place) s of
       None \<Rightarrow> None
     | Some (before, after) \<Rightarrow>
         (case (if place then map_option snd (split_once ''/@'' after) else Some after) of
            None \<Rightarrow> path_scan place after
          | Some cand \<Rightarrow>
              (case leading_pair cand of Some p \<Rightarrow> Some p | None \<Rightarrow> path_scan place after)))"
  by pat_completeness auto
termination
  by (relation "measure (length \<circ> snd)") (auto dest!: split_once_shorter)

declare path_scan.simps [simp del]

definition url_path_at_coords :: "string \<Rightarrow> (f64 \<times> f64) option" where
  "url_path_at_coords path = first_some [path_scan False path, path_scan True path]"

function scan_3d4d :: "(f64 \<times> f64) option \<Rightarrow> string \<Rightarrow> (f64 \<times> f64) option" where
  "scan_3d4d found s =
    (case split_once ''!3d'' s of
       None \<Rightarrow> found
     | Some (before, r) \<Rightarrow>
         (case split_once ''!4d'' (dropWhile (\<lambda>c. c \<noteq> CHR ''!'') r) of
            None \<Rightarrow> found
          | Some (between, q) \<Rightarrow>
              scan_3d4d
                (first_some
                  [valid_pair (parse_f64 (takeWhile (\<lambda>c. c \<noteq> CHR ''!'') r))
                     (parse_f64 (takeWhile (\<lambda>c. c \<noteq> CHR ''!'') q)), found])
                (dropWhile (\<lambda>c. c \<noteq> CHR ''!'') q)))"
  by pat_completeness auto
termination
proof (relation "measure (length \<circ> snd)", goal_cases)
  case (2 found s x2 before r x2a between q)
  have "length (dropWhile (\<lambda>c. c \<noteq> CHR ''!'') q) \<le> length q" by (rule length_dropWhile_le)
  also have "length q < length (dropWhile (\<lambda>c. c \<noteq> CHR ''!'') r)"
    by (rule split_once_shorter [where a = between and p = "''!4d''"]) (use 2 in auto)
  also have "\<dots> \<le> length r" by (rule length_dropWhile_le)
  also have "length r < length s" by (rule split_once_shorter [where a = before and p = "''!3d''"]) (use 2 in auto)
  finally show ?case by simp
qed simp

declare scan_3d4d.simps [simp del]

definition google_3d4d_coords :: "string \<Rightarrow> (f64 \<times> f64) option" where
  "google_3d4d_coords path = scan_3d4d None path"

definition flush_run :: "f64 list \<Rightarrow> (f64 \<times> f64) option \<Rightarrow> (f64 \<times> f64) option" where
  "flush_run run best =
    (case run of
       [lat, lon] \<Rightarrow> if valid_latlon lat lon then Some (lat, lon) else best
     | _ \<Rightarrow> best)"

definition segment_step ::
    "string \<Rightarrow> f64 list \<times> (f64 \<times> f64) option \<Rightarrow> f64 list \<times> (f64 \<times> f64) option" where
  "segment_step seg st =
    (case st of (run, best) \<Rightarrow>
       if \<exists>c \<in> set seg. c \<in> set ''?&=@!'' then ([], flush_run run best)
       else case parse_f64 (trim seg) of
         Some v \<Rightarrow> if f64_is_finite v then (run @ [v], best) else ([], flush_run run best)
       | None \<Rightarrow> ([], flush_run run best))"

definition slash_run_coords :: "string \<Rightarrow> (f64 \<times> f64) option" where
  "slash_run_coords url =
    (let path = takeWhile (\<lambda>c. c \<noteq> CHR ''?'' \<and> c \<noteq> CHR ''#'') url;
         frag = (case split_on (CHR ''#'') url of a # b # rest \<Rightarrow> b | _ \<Rightarrow> [])
     in case fold segment_step (split_on (CHR ''/'') (path @ ''#'' @ frag)) ([], None) of
          (run, best) \<Rightarrow> flush_run run best)"

section \<open>URLs, geo URIs and text\<close>

definition param :: "(string \<times> string) list \<Rightarrow> string \<Rightarrow> string option" where
  "param ps key = map_option snd (find (\<lambda>(k, v). eq_ignore_case k key) ps)"

definition destination_value :: "string \<Rightarrow> destination" where
  "destination_value v =
    (case parse_latlon_pair v of Some (lat, lon) \<Rightarrow> LatLon lat lon | None \<Rightarrow> Address (trim v))"

definition latlon :: "(f64 \<times> f64) option \<Rightarrow> destination option" where
  "latlon p = map_option (\<lambda>(lat, lon). LatLon lat lon) p"

definition non_blank :: "string option \<Rightarrow> string option" where
  "non_blank v = (case v of None \<Rightarrow> None | Some t \<Rightarrow> if trim t = [] then None else Some t)"

definition and_pair :: "string option \<Rightarrow> (f64 \<times> f64) option" where
  "and_pair v = (case v of None \<Rightarrow> None | Some t \<Rightarrow> parse_latlon_pair t)"

definition url_params :: "url_lib \<Rightarrow> url_parts \<Rightarrow> (string \<times> string) list" where
  "url_params lib u = u_pairs u @ ul_form lib (case u_fragment u of None \<Rightarrow> [] | Some f \<Rightarrow> f)"

definition split_params :: "(string \<Rightarrow> string option) \<Rightarrow> (f64 \<times> f64) option" where
  "split_params get =
    (case (first_some (map get [''lat'', ''latitude'', ''mlat'']),
           first_some (map get [''lon'', ''lng'', ''long'', ''longitude'', ''mlon''])) of
       (Some a, Some b) \<Rightarrow> valid_pair (parse_f64 (trim a)) (parse_f64 (trim b))
     | _ \<Rightarrow> None)"

definition parse_map_url :: "url_lib \<Rightarrow> string \<Rightarrow> destination option" where
  "parse_map_url lib url =
    (case ul_parse lib url of
       None \<Rightarrow> None
     | Some u \<Rightarrow>
         (let get = param (url_params lib u)
          in first_some
            (map (\<lambda>k. map_option destination_value (non_blank (get k)))
               [''pll'', ''destination'', ''daddr'']
             @ map latlon
                 (map (\<lambda>k. and_pair (get k)) [''q'', ''query'']
                  @ [google_3d4d_coords (u_path u), split_params get]
                  @ map (\<lambda>k. and_pair (get k)) [''ll'', ''cp'']
                  @ [url_path_at_coords (u_path u), slash_run_coords url])
             @ map (\<lambda>k. map_option (\<lambda>t. Address (trim t)) (non_blank (get k)))
                 [''q'', ''query''])))"

definition query_param :: "url_lib \<Rightarrow> string \<Rightarrow> string \<Rightarrow> string option" where
  "query_param lib query key = param (ul_form lib query) key"

definition parse_geo_uri :: "url_lib \<Rightarrow> string \<Rightarrow> (share_error, destination option) result" where
  "parse_geo_uri lib rest =
    (let coords = trim (takeWhile (\<lambda>c. c \<noteq> CHR '';'')
                          (takeWhile (\<lambda>c. c \<noteq> CHR ''?'') rest));
         query = (case split_once ''?'' rest of None \<Rightarrow> None | Some (a, b) \<Rightarrow> Some b);
         addr = non_blank (case query of None \<Rightarrow> None | Some q \<Rightarrow> query_param lib q ''q'')
     in case parse_latlon_pair coords of
          Some (lat, lon) \<Rightarrow>
            if lat = F_Fin 0 \<and> lon = F_Fin 0 then Inr (map_option Address addr)
            else Inr (Some (LatLon lat lon))
        | None \<Rightarrow>
            if looks_like_latlon_pair coords then Inl Share_out_of_range
            else Inr (map_option Address addr))"

definition first_non_empty_line :: "string \<Rightarrow> string option" where
  "first_non_empty_line s = find (\<lambda>l. l \<noteq> []) (map trim (text_lines s))"

definition url_punctuation :: "char set" where
  "url_punctuation = set (CHR 0x27 # CHR 0x22 # ''()<>.,;!?:'')"

definition first_url_token :: "string \<Rightarrow> string option" where
  "first_url_token s =
    find (\<lambda>t. prefix ''http://'' (to_lower t) \<or> prefix ''https://'' (to_lower t))
      (map (trim_matches url_punctuation) (split_whitespace s))"

definition strip_geo :: "string \<Rightarrow> string option" where
  "strip_geo s =
    (if 4 \<le> length s \<and> eq_ignore_case (take 4 s) ''geo:'' then Some (drop 4 s) else None)"

definition parse_plain_line :: "string \<Rightarrow> (share_error, destination) result" where
  "parse_plain_line l =
    (case parse_latlon_pair l of
       Some (lat, lon) \<Rightarrow> Inr (LatLon lat lon)
     | None \<Rightarrow> if looks_like_latlon_pair l then Inl Share_out_of_range else Inr (Address l))"

text \<open>The line a share is read from when it holds no usable URL.\<close>

definition share_line :: "string \<Rightarrow> string" where
  "share_line t = (case first_non_empty_line t of Some l \<Rightarrow> l | None \<Rightarrow> t)"

definition parse_share_line :: "url_lib \<Rightarrow> string \<Rightarrow> (share_error, destination) result" where
  "parse_share_line lib line =
    (case strip_geo line of
       None \<Rightarrow> parse_plain_line line
     | Some r \<Rightarrow>
         (case parse_geo_uri lib r of
            Inl e \<Rightarrow> Inl e
          | Inr (Some d) \<Rightarrow> Inr d
          | Inr None \<Rightarrow> parse_plain_line line))"

definition parse_shared_text :: "url_lib \<Rightarrow> string \<Rightarrow> (share_error, destination) result" where
  "parse_shared_text lib input =
    (if MAX_SHARE_TEXT_LEN < char_count input then Inl Share_too_long
     else if trim input = [] then Inl Share_empty
     else
       let t = trim input
       in case first_url_token t of
            None \<Rightarrow> parse_share_line lib (share_line t)
          | Some url \<Rightarrow>
              (case parse_map_url lib url of
                 Some d \<Rightarrow> Inr d
               | None \<Rightarrow>
                   if first_non_empty_line t = Some url then Inr (Address url)
                   else parse_share_line lib (share_line t)))"

section \<open>Lemmas: parts of a text\<close>

lemma subseq_trim: "subseq (trim s) s"
proof -
  have "subseq (trim_end (trim_start s)) (trim_start s)" using trim_end_prefix by blast
  moreover have "subseq (trim_start s) s" unfolding trim_start_def using strip_codes_suffix by blast
  ultimately show ?thesis unfolding trim_def by (rule subseq_order.trans)
qed

lemma subseq_dropWhile: "subseq (dropWhile P s) s"
  by (simp add: suffix_imp_subseq suffix_dropWhile)

lemma subseq_dropWhile_end: "subseq (rev (dropWhile P (rev s))) s"
  using suffix_dropWhile [of P "rev s"] by (simp add: prefix_imp_subseq suffix_to_prefix)

lemma subseq_trim_matches: "subseq (trim_matches cs s) s"
  unfolding trim_matches_def
  by (rule subseq_order.trans [OF subseq_dropWhile_end subseq_dropWhile])

lemma subseq_words: "v \<in> set (words_from n w s) \<Longrightarrow> subseq v (w @ s)"
proof (induction n w s rule: words_from.induct)
  case (2 n w s)
  show ?case
  proof (cases "s = []")
    case False
    note ne = this
    show ?thesis
    proof (cases "find (\<lambda>b. prefix b s) ws_codes")
      case None
      then show ?thesis using "2.IH"(1) [OF ne None] "2.prems" ne by simp
    next
      case (Some b)
      have "subseq (drop (length b) s) (w @ s)"
        using suffix_drop by (blast intro: subseq_drop_many)
      then show ?thesis using "2.IH"(2) [OF ne Some] "2.prems" ne Some
        by (auto split: if_splits intro: subseq_order.trans)
    qed
  qed (use "2.prems" in \<open>simp split: if_splits\<close>)
qed (auto split: if_splits intro: prefix_imp_subseq)

lemma subseq_split_whitespace: "v \<in> set (split_whitespace s) \<Longrightarrow> subseq v s"
  using subseq_words [of v "length s" "[]" s] by (simp add: split_whitespace_def)

lemma subseq_split_on: "v \<in> set (split_on d s) \<Longrightarrow> subseq v s"
proof (induction s arbitrary: v)
  case (Cons c cs)
  obtain w ws where w: "split_on d cs = w # ws" by (meson list.exhaust split_on_nonempty)
  show ?case using Cons w by (auto split: if_splits)
qed simp

lemma subseq_text_lines: "v \<in> set (text_lines s) \<Longrightarrow> subseq v s"
proof -
  have cr: "subseq (strip_cr x) x" for x
    by (cases x rule: rev_cases) (auto simp: strip_cr_def)
  assume "v \<in> set (text_lines s)"
  moreover have "last (split_on (CHR 0x0A) s) \<in> set (split_on (CHR 0x0A) s)" by simp
  ultimately have "\<exists>x \<in> set (split_on (CHR 0x0A) s). v = strip_cr x \<or> v = x"
    unfolding text_lines_def Let_def
    by (cases "v = last (split_on (CHR 0x0A) s)") (auto split: if_splits dest: in_set_butlastD)
  then show ?thesis using subseq_split_on cr subseq_order.trans by blast
qed

lemma find_map_mem: "find P (map f xs) = Some y \<Longrightarrow> \<exists>x \<in> set xs. y = f x \<and> P y"
  by (auto dest!: find_mem)

lemma first_url_token_part:
  assumes "first_url_token s = Some u"
  shows "subseq u s \<and> u \<noteq> [] \<and> to_lower [hd u] = ''h''"
proof -
  obtain w where w: "w \<in> set (split_whitespace s)" "u = trim_matches url_punctuation w"
    "prefix ''http://'' (to_lower u) \<or> prefix ''https://'' (to_lower u)"
    using assms unfolding first_url_token_def by (auto dest!: find_mem)
  have "subseq u s" using w subseq_trim_matches subseq_split_whitespace subseq_order.trans by blast
  moreover from w(3) obtain c cs where "u = c # cs" "to_lower [c] = ''h''"
    by (cases u) (auto simp: to_lower_def)
  ultimately show ?thesis by simp
qed

lemma first_line_part:
  assumes "first_non_empty_line s = Some l"
  shows "subseq l s \<and> l \<noteq> [] \<and> trim l = l"
proof -
  obtain x where "x \<in> set (text_lines s)" "l = trim x" "l \<noteq> []"
    using assms unfolding first_non_empty_line_def by (auto dest!: find_mem)
  then show ?thesis using subseq_trim subseq_text_lines subseq_order.trans by simp blast
qed

lemma char_count_subseq: "subseq a b \<Longrightarrow> char_count a \<le> char_count b"
  unfolding char_count_def using list_emb_length [of "(=)"] subseq_filter by blast

text \<open>A text that holds a character that is in no white-space code is not blank.\<close>

lemma strip_codes_covers: "set s \<subseteq> set (strip_codes ws n s) \<union> \<Union> (set ` set ws)"
proof (induction n arbitrary: s)
  case (Suc n)
  show ?case
  proof (cases "find (\<lambda>w. prefix w s) ws")
    case (Some w)
    then have w: "w \<in> set ws" "prefix w s" by (auto dest: find_mem)
    then have "set s = set w \<union> set (drop (length w) s)" by (auto simp: prefix_def)
    then show ?thesis using Suc [of "drop (length w) s"] Some w by auto
  qed auto
qed auto

lemma not_blank:
  assumes "c \<in> set s" "byte c \<in> {33..<128}"
  shows "trim s \<noteq> []"
proof
  assume "trim s = []"
  have "c \<in> \<Union> (set ` set ws_codes)"
  proof -
    have "set s \<subseteq> set (trim_start s) \<union> \<Union> (set ` set ws_codes)"
      unfolding trim_start_def by (rule strip_codes_covers)
    moreover have "set (trim_start s) \<subseteq> \<Union> (set ` set ws_codes)"
      using strip_codes_covers [of "rev (trim_start s)" "map rev ws_codes" "length (trim_start s)"]
        \<open>trim s = []\<close> by (auto simp: trim_def trim_end_def)
    ultimately show ?thesis using assms(1) by blast
  qed
  then show False using assms(2) by (auto simp: ws_codes_def byte_def)
qed


section \<open>Lemmas: what is extracted is in range\<close>

definition good_pair :: "(f64 \<times> f64) option \<Rightarrow> bool" where
  "good_pair p = (\<forall>x y. p = Some (x, y) \<longrightarrow> valid_latlon x y)"

definition good_destination :: "destination option \<Rightarrow> bool" where
  "good_destination d =
    ((\<forall>x y. d = Some (LatLon x y) \<longrightarrow> valid_latlon x y)
     \<and> (\<forall>t. d = Some (Address t) \<longrightarrow> trim t \<noteq> []))"

lemma good_none [simp]: "good_pair None" "good_destination None"
  by (simp_all add: good_pair_def good_destination_def)

lemma good_valid_pair [simp]: "good_pair (valid_pair a b)"
  by (simp add: good_pair_def valid_pair_def split: option.splits)

lemma good_first_some: "(\<And>x. x \<in> set xs \<Longrightarrow> good_pair x) \<Longrightarrow> good_pair (first_some xs)"
  by (induction xs rule: first_some.induct) simp_all

lemma good_first_destination:
  "(\<And>d. d \<in> set ds \<Longrightarrow> good_destination d) \<Longrightarrow> good_destination (first_some ds)"
  by (induction ds rule: first_some.induct) simp_all

lemma good_parse_latlon [simp]: "good_pair (parse_latlon_pair s)"
  by (simp add: good_pair_def parse_latlon_pair_def split: option.splits)

lemma good_and_pair [simp]: "good_pair (and_pair v)"
  by (simp add: and_pair_def split: option.splits)

lemma good_leading [simp]: "good_pair (leading_pair s)"
  by (simp add: leading_pair_def split: list.splits)

lemma good_leading_Some [simp]: "leading_pair s = Some p \<Longrightarrow> good_pair (Some p)"
  using good_leading [of s] by simp

lemma good_path_scan: "good_pair (path_scan place s)"
proof (induction place s rule: path_scan.induct)
  case (1 place s)
  show ?case
    by (subst path_scan.simps) (use 1 in \<open>auto split: option.splits simp del: map_option_eq_Some\<close>)
qed

lemma good_scan_3d4d: "good_pair found \<Longrightarrow> good_pair (scan_3d4d found s)"
proof (induction found s rule: scan_3d4d.induct)
  case (1 found s)
  show ?case
  proof (cases "split_once ''!3d'' s")
    case None
    then show ?thesis using 1 by (subst scan_3d4d.simps) simp
  next
    case (Some a)
    obtain before r where a: "a = (before, r)" by fastforce
    show ?thesis
    proof (cases "split_once ''!4d'' (dropWhile (\<lambda>c. c \<noteq> CHR ''!'') r)")
      case None
      then show ?thesis using 1 Some a by (subst scan_3d4d.simps) simp
    next
      case (Some b)
      obtain between q where b: "b = (between, q)" by fastforce
      have "good_pair (first_some [valid_pair x y, found])" for x y
        by (rule good_first_some) (use 1(2) in auto)
      then show ?thesis
        using 1(1) [OF \<open>split_once ''!3d'' s = Some a\<close> a [symmetric] Some b [symmetric]] \<open>split_once ''!3d'' s = Some a\<close> a Some b
        by (subst scan_3d4d.simps) simp
    qed
  qed
qed

lemma good_flush: "good_pair best \<Longrightarrow> good_pair (flush_run run best)"
  by (auto simp: flush_run_def good_pair_def split: list.splits)

lemma good_segments:
  "good_pair (snd st) \<Longrightarrow> good_pair (snd (fold segment_step segs st))"
proof (induction segs arbitrary: st)
  case (Cons seg segs)
  have "good_pair (snd (segment_step seg st))"
    using Cons.prems good_flush by (auto simp: segment_step_def split: prod.splits option.splits)
  then show ?case using Cons.IH by simp
qed simp

lemma good_slash: "good_pair (slash_run_coords url)"
proof -
  have "good_pair (case fold segment_step segs ([], None) of (run, best) \<Rightarrow> flush_run run best)" for segs
    using good_segments [of "([], None)" segs] by (simp add: case_prod_beta good_flush)
  then show ?thesis by (simp add: slash_run_coords_def Let_def)
qed

lemma good_latlon [simp]: "good_pair p \<Longrightarrow> good_destination (latlon p)"
  by (auto simp: good_pair_def good_destination_def latlon_def)

lemma non_blank_Some [simp]: "non_blank v = Some t \<longleftrightarrow> v = Some t \<and> trim t \<noteq> []"
  by (auto simp: non_blank_def split: option.splits)

lemma good_destination_value: "trim v \<noteq> [] \<Longrightarrow> good_destination (Some (destination_value v))"
  using good_parse_latlon [of v]
  by (auto simp: good_destination_def destination_value_def good_pair_def split: option.splits)

lemma good_non_blank:
  assumes "\<And>t. trim t \<noteq> [] \<Longrightarrow> good_destination (Some (f t))"
  shows "good_destination (map_option f (non_blank v))"
proof (cases "non_blank v")
  case (Some t)
  then have "trim t \<noteq> []" by simp
  then show ?thesis unfolding Some using assms by simp
qed simp

lemma good_parse_map_url: "good_destination (parse_map_url lib url)"
proof (cases "ul_parse lib url")
  case (Some u)
  let ?get = "param (url_params lib u)"
  have dest: "good_destination (map_option destination_value (non_blank (?get k)))" for k
    by (intro good_non_blank good_destination_value)
  have addr: "good_destination (map_option (\<lambda>t. Address (trim t)) (non_blank (?get k)))" for k
    by (intro good_non_blank) (simp add: good_destination_def)
  have split: "good_pair (split_params get)" for get
    by (simp add: split_params_def split: option.splits)
  have "good_pair (google_3d4d_coords p)" "good_pair (url_path_at_coords p)" for p
    by (auto simp: google_3d4d_coords_def url_path_at_coords_def
        intro!: good_scan_3d4d good_first_some good_path_scan)
  then show ?thesis
    using Some dest addr split good_slash
    by (auto simp: parse_map_url_def Let_def intro!: good_first_destination good_latlon)
qed (simp add: parse_map_url_def)

lemma good_geo: "parse_geo_uri lib rest = Inr d \<Longrightarrow> good_destination d"
proof -
  have addr: "good_destination (map_option Address (non_blank v))" for v
    by (intro good_non_blank) (simp add: good_destination_def)
  show "parse_geo_uri lib rest = Inr d \<Longrightarrow> good_destination d"
    using good_parse_latlon [of "trim (takeWhile (\<lambda>c. c \<noteq> CHR '';'') (takeWhile (\<lambda>c. c \<noteq> CHR ''?'') rest))"]
    by (auto simp: parse_geo_uri_def Let_def addr good_pair_def good_destination_def
        split: option.splits if_splits)
qed

lemma good_plain: "trim l \<noteq> [] \<Longrightarrow> parse_plain_line l = Inr d \<Longrightarrow> good_destination (Some d)"
  using good_parse_latlon [of l]
  by (auto simp: parse_plain_line_def good_pair_def good_destination_def split: option.splits if_splits)


section \<open>Lemmas: no destination is longer than its text\<close>

text \<open>
  What percent decoding does: a decoded value has no more characters than the text it was read from.
\<close>

definition decodes_short :: "url_lib \<Rightarrow> bool" where
  "decodes_short lib =
    ((\<forall>q. \<forall>(k, v) \<in> set (ul_form lib q). char_count v \<le> char_count q)
     \<and> (\<forall>url u. ul_parse lib url = Some u \<longrightarrow>
          (\<forall>(k, v) \<in> set (url_params lib u). char_count v \<le> char_count url)))"

definition short_destination :: "nat \<Rightarrow> destination option \<Rightarrow> bool" where
  "short_destination n d = (\<forall>t. d = Some (Address t) \<longrightarrow> char_count t \<le> n)"

lemma short_none [simp]: "short_destination n None"
  by (simp add: short_destination_def)

lemma short_latlon [simp]: "short_destination n (latlon p)" "short_destination n (Some (LatLon x y))"
  by (auto simp: short_destination_def latlon_def)

lemma short_first_some:
  "(\<And>d. d \<in> set ds \<Longrightarrow> short_destination n d) \<Longrightarrow> short_destination n (first_some ds)"
  by (induction ds rule: first_some.induct) simp_all

lemma char_count_trim: "char_count (trim s) \<le> char_count s"
  by (intro char_count_subseq subseq_trim)

lemma param_value: "param ps key = Some v \<Longrightarrow> \<exists>k. (k, v) \<in> set ps"
  by (auto simp: param_def dest!: find_mem)

lemma short_parse_map_url:
  assumes "decodes_short lib" "char_count url \<le> n"
  shows "short_destination n (parse_map_url lib url)"
proof (cases "ul_parse lib url")
  case (Some u)
  have v: "char_count v \<le> n" if "param (url_params lib u) k = Some v" for k v
    using assms Some param_value [OF that] unfolding decodes_short_def by fastforce
  have t: "char_count (trim v) \<le> n" if "param (url_params lib u) k = Some v" for k v
    using v [OF that] char_count_trim [of v] by simp
  have dest: "short_destination n (map_option destination_value (non_blank (param (url_params lib u) k)))"
    for k using t by (auto simp: short_destination_def destination_value_def split: option.splits)
  have addr: "short_destination n (map_option (\<lambda>t. Address (trim t)) (non_blank (param (url_params lib u) k)))"
    for k using t by (auto simp: short_destination_def)
  show ?thesis
    using Some dest addr by (auto simp: parse_map_url_def Let_def intro!: short_first_some)
qed (simp add: parse_map_url_def)

lemma split_once_part: "split_once p s = Some (a, b) \<Longrightarrow> subseq b s"
proof (induction p s arbitrary: a b rule: split_once.induct)
  case (2 p c cs)
  have "subseq (drop n (c # cs)) (c # cs)" for n using suffix_drop by blast
  then show ?case using 2 by (auto split: if_splits)
qed (simp split: if_splits)

lemma short_geo:
  assumes "decodes_short lib" "char_count rest \<le> n" "parse_geo_uri lib rest = Inr d"
  shows "short_destination n d"
proof -
  have v: "char_count v \<le> n" if "split_once ''?'' rest = Some (a, q)" "query_param lib q ''q'' = Some v" for a q v
  proof -
    note q = that
    obtain k where "(k, v) \<in> set (ul_form lib q)" using param_value [OF q(2) [unfolded query_param_def]] by blast
    then have "char_count v \<le> char_count q" using assms(1) by (auto simp: decodes_short_def)
    also have "\<dots> \<le> char_count rest" using split_once_part [OF q(1)] by (rule char_count_subseq)
    finally show ?thesis using assms(2) by simp
  qed
  then show ?thesis using assms(3)
    by (auto simp: parse_geo_uri_def Let_def short_destination_def split: option.splits if_splits)
qed

lemma share_line_part:
  assumes "trim t = t" "t \<noteq> []"
  shows "subseq (share_line t) t \<and> share_line t \<noteq> [] \<and> trim (share_line t) = share_line t"
  using assms first_line_part [of t] by (auto simp: share_line_def split: option.splits)

lemma share_line_destination:
  assumes "trim line = line" "line \<noteq> []" "parse_share_line lib line = Inr d"
  shows "good_destination (Some d)"
    and "decodes_short lib \<Longrightarrow> char_count line \<le> n \<Longrightarrow> short_destination n (Some d)"
proof -
  have plain: "good_destination (Some d)" "char_count line \<le> n \<Longrightarrow> short_destination n (Some d)"
    if "parse_plain_line line = Inr d" for n
    using that good_plain [of line d] assms(1,2)
    by (auto simp: parse_plain_line_def short_destination_def split: option.splits if_splits)
  have drop: "char_count r \<le> char_count line" if "strip_geo line = Some r" for r
  proof -
    have "subseq r line" using that suffix_drop by (auto simp: strip_geo_def split: if_splits)
    then show ?thesis by (rule char_count_subseq)
  qed
  show "good_destination (Some d)" using assms(3) plain(1)
    by (auto simp: parse_share_line_def dest: good_geo split: option.splits sum.splits)
  assume l: "decodes_short lib" "char_count line \<le> n"
  have "short_destination n (Some d)"
    if "strip_geo line = Some r" "parse_geo_uri lib r = Inr (Some d)" for r
    using short_geo [OF l(1) _ that(2)] drop [OF that(1)] l(2) by simp
  then show "short_destination n (Some d)"
    using assms(3) plain(2) l(2)
    by (auto simp: parse_share_line_def split: option.splits sum.splits)
qed

lemma shared_destination_cases:
  assumes "parse_shared_text lib input = Inr d"
  obtains (url) url where "first_url_token (trim input) = Some url" "parse_map_url lib url = Some d"
  | (opaque) url where "first_url_token (trim input) = Some url" "d = Address url"
  | (line) "parse_share_line lib (share_line (trim input)) = Inr d"
proof (cases "first_url_token (trim input)")
  case None
  then show thesis using assms line by (auto simp: parse_shared_text_def Let_def split: if_splits)
next
  case (Some u)
  show thesis
  proof (cases "parse_map_url lib u")
    case None
    have "d = Address u \<or> parse_share_line lib (share_line (trim input)) = Inr d"
      using assms by (simp add: parse_shared_text_def Let_def Some None split: if_splits)
    then show thesis using opaque [OF Some] line by blast
  next
    case map: (Some x)
    have "d = x" using assms by (simp add: parse_shared_text_def Let_def Some map split: if_splits)
    then show thesis using url [OF Some] map by simp
  qed
qed

lemma shared_destination_bounds:
  assumes "parse_shared_text lib input = Inr d"
  shows "char_count input \<le> 2000" and "good_destination (Some d)"
    and "decodes_short lib \<Longrightarrow> short_destination 2000 (Some d)"
proof -
  show n: "char_count input \<le> 2000"
    using assms by (auto simp: parse_shared_text_def MAX_SHARE_TEXT_LEN_def split: if_splits)
  have t: "trim input \<noteq> []" using assms by (auto simp: parse_shared_text_def split: if_splits)
  note line = share_line_part [of "trim input", simplified, OF t]
  have sub: "char_count u \<le> 2000" if "subseq u (trim input)" for u
    using char_count_subseq [OF that] char_count_trim [of input] n by simp
  show "good_destination (Some d)" using assms
  proof (cases rule: shared_destination_cases)
    case (url u)
    then show ?thesis using good_parse_map_url [of lib u] by simp
  next
    case (opaque u)
    have u: "u \<noteq> []" "to_lower [hd u] = ''h''" using first_url_token_part [OF opaque(1)] by auto
    have "byte (hd u) \<in> {33..<128}"
      using u(2) by (auto simp: to_lower_def ascii_lower_def is_upper_def byte_def split: if_splits)
    then have "trim u \<noteq> []" using not_blank [OF hd_in_set [OF u(1)]] by blast
    then show ?thesis using opaque by (simp add: good_destination_def)
  next
    case line': line
    then show ?thesis using share_line_destination(1) line by blast
  qed
  assume l: "decodes_short lib"
  show "short_destination 2000 (Some d)" using assms
  proof (cases rule: shared_destination_cases)
    case (url u)
    then show ?thesis using short_parse_map_url [OF l, of u 2000] first_url_token_part sub by fastforce
  next
    case (opaque u)
    then show ?thesis using first_url_token_part sub by (simp add: short_destination_def)
  next
    case line': line
    then show ?thesis using share_line_destination(2) [OF _ _ line' l] line sub by blast
  qed
qed

section \<open>Examples\<close>

text \<open>Texts without white space are one word and one line.\<close>

lemma split_on_single: "d \<notin> set s \<Longrightarrow> split_on d s = [s]"
  by (induction s) auto

lemma words_plain: "list_all plain s \<Longrightarrow> length s \<le> n \<Longrightarrow> w @ s \<noteq> [] \<Longrightarrow> words_from n w s = [w @ s]"
proof (induction n arbitrary: w s)
  case (Suc n)
  show ?case
  proof (cases s)
    case (Cons c cs)
    have "find (\<lambda>b. prefix b (c # cs)) ws_codes = None"
      using ws_codes_not_plain(1) Suc.prems(1) Cons
      by (auto simp: find_None_iff list_all_iff prefix_Cons)
    then show ?thesis using Suc Cons by simp
  qed (use Suc.prems in simp)
qed simp

lemma plain_text:
  assumes "list_all plain s" "s \<noteq> []"
  shows "split_whitespace s = [s]" "first_non_empty_line s = Some s" "share_line s = s" "trim s = s"
proof -
  have n: "CHR 0x0A \<notin> set s" using assms(1) by (auto simp: list_all_iff plain_def byte_def)
  show "split_whitespace s = [s]" using words_plain [of s "length s" "[]"] assms
    by (simp add: split_whitespace_def)
  show t: "trim s = s" using assms(1) by (rule trim_plain)
  show "first_non_empty_line s = Some s" using assms(2) t
    by (simp add: first_non_empty_line_def text_lines_def split_on_single [OF n])
  then show "share_line s = s" by (simp add: share_line_def)
qed

definition sample_url :: string where
  "sample_url = ''http://m.org/?saddr=1,1&daddr=999,999''"

definition sample_lib :: url_lib where
  "sample_lib =
    \<lparr>ul_parse = (\<lambda>url. if url \<noteq> sample_url then None
                      else Some \<lparr>u_path = ''/'', u_pairs = [(''saddr'', ''1,1''), (''daddr'', ''999,999'')],
                                 u_fragment = None\<rparr>),
     ul_form = (\<lambda>q. []), ul_show = (\<lambda>x. if x = F_Fin 7 then ''7'' else ''0'')\<rparr>"

lemma sample_pair:
  assumes "list_all is_digit a" "list_all is_digit b" "a \<noteq> []" "b \<noteq> []"
  shows "numeric_pair (a @ '','' @ b) =
    Some (round64 (of_nat (digits_val a)), round64 (of_nat (digits_val b)))"
proof -
  have p: "list_all plain (a @ '','' @ b)" "list_all plain a" "list_all plain b"
    using assms(1,2) digit_plain by (auto simp: list_all_iff plain_def byte_def)
  have no: "c \<notin> set a" "c \<notin> set b" if "\<not> is_digit c" for c
    using assms(1,2) that by (auto simp: list_all_iff)
  have comma: "\<not> is_digit (CHR '','')" by (simp add: is_digit_def byte_def)
  have br: "x \<notin> set ''()[]''" if "is_digit x" for x
    using that by (auto simp: is_digit_def byte_def)
  have "dropWhile (\<lambda>c. c \<in> set ''()[]'') (a @ xs) = a @ xs" for xs
    using assms(1,3) br by (cases a) auto
  moreover have "dropWhile (\<lambda>c. c \<in> set ''()[]'') (rev b @ xs) = rev b @ xs" for xs
    using assms(2,4) br by (cases b rule: rev_cases) auto
  ultimately have m: "trim_matches (set ''()[]'') (a @ '','' @ b) = a @ '','' @ b"
    by (simp add: trim_matches_def)
  have s: "split_on (CHR '','') (a @ '','' @ b) = [a, b]"
    using no(1) [OF comma] by (induction a) (auto simp: split_on_single no(2) [OF comma])
  show ?thesis
    unfolding numeric_pair_def trim_plain [OF p(1)] m Let_def
    by (simp add: s [simplified] trim_plain p parse_f64_digits assms)
qed

section \<open>Properties\<close>


text \<open>
  Coordinates that are shared as text are taken as they are written or refused.  When the line a
  share is read from is two numbers, bare or after \<^verbatim>\<open>geo:\<close>, and no link is in the text, the result is
  exactly these coordinates, never swapped, or the out-of-range error, never an address; only
  \<^verbatim>\<open>geo:0,0\<close>, the form of an address search, is left out.
\<close>

theorem shared_coordinates_exact:
  assumes "char_count input \<le> 2000" and "first_url_token (trim input) = None"
    and "line = share_line (trim input)"
    and "coords = (case strip_geo line of
           None \<Rightarrow> line
         | Some r \<Rightarrow> trim (takeWhile (\<lambda>c. c \<noteq> CHR '';'') (takeWhile (\<lambda>c. c \<noteq> CHR ''?'') r)))"
    and "numeric_pair coords = Some (lat, lon)"
    and "strip_geo line = None \<or> lat \<noteq> F_Fin 0 \<or> lon \<noteq> F_Fin 0"
  shows "parse_shared_text lib input =
    (if f64_within (- 90) 90 lat \<and> f64_within (- 180) 180 lon then Inr (LatLon lat lon)
     else Inl Share_out_of_range)"
proof -
  have blank: "numeric_pair [] = None" by (simp add: numeric_pair_def Let_def trim_matches_def)
  have "share_line [] = []"
    by (simp add: share_line_def first_non_empty_line_def text_lines_def)
  then have "trim input \<noteq> []" using assms(3,4,5) blank by (auto simp: strip_geo_def)
  then have "parse_shared_text lib input = parse_share_line lib line"
    using assms(1-3) by (simp add: parse_shared_text_def Let_def MAX_SHARE_TEXT_LEN_def)
  moreover have "valid_latlon lat lon \<longleftrightarrow> f64_within (- 90) 90 lat \<and> f64_within (- 180) 180 lon"
    using f64_within_finite by (auto simp: valid_latlon_def)
  moreover have "parse_share_line lib line =
      (if valid_latlon lat lon then Inr (LatLon lat lon) else Inl Share_out_of_range)"
    using assms(4-6)
    by (auto simp: parse_share_line_def parse_plain_line_def parse_geo_uri_def Let_def
        parse_latlon_pair_def looks_like_latlon_pair_def split: option.splits)
  ultimately show ?thesis by simp
qed

theorem shared_coordinates_exact_witness:
  "parse_shared_text sample_lib ''999,999'' = Inl Share_out_of_range"
proof -
  have p: "list_all plain ''999,999''" by (simp add: plain_def byte_def)
  note t = plain_text [OF p, simplified]
  have n: "numeric_pair ''999,999'' = Some (round64 (of_nat 999), round64 (of_nat 999))"
    using sample_pair [of "''999''" "''999''"]
    by (simp add: is_digit_def byte_def digits_val_def digit_val_def)
  have r: "round64 (of_nat 999) = F_Fin 999" using round64_of_int [of 999] by simp
  have l: "first_url_token ''999,999'' = None"
    by (simp add: first_url_token_def t trim_matches_def url_punctuation_def to_lower_def ascii_lower_def
        is_upper_def byte_def)
  have g: "strip_geo ''999,999'' = None"
    by (simp add: strip_geo_def eq_ignore_case_def to_lower_def ascii_lower_def is_upper_def byte_def)
  have "parse_shared_text sample_lib ''999,999'' =
    (if f64_within (- 90) 90 (F_Fin 999) \<and> f64_within (- 180) 180 (F_Fin 999)
     then Inr (LatLon (F_Fin 999) (F_Fin 999)) else Inl Share_out_of_range)"
    by (rule shared_coordinates_exact [of _ "''999,999''" "''999,999''"])
      (use t l g n r in \<open>simp_all add: char_count_def is_cont_def byte_def\<close>)
  then show ?thesis by (simp add: f64_within_iff)
qed

text \<open>
  A link with a destination parameter is shared as that destination, whatever else the link holds:
  neither a route's origin nor a viewport nor a search decides.  Its value is taken as coordinates when
  it is two numbers in range and as an address otherwise, so out-of-range numbers in a link become an
  address.
\<close>

theorem directions_use_destination:
  assumes "char_count input \<le> 2000" and "first_url_token (trim input) = Some url"
    and "ul_parse lib url = Some u"
    and "first_some (map (\<lambda>k. non_blank (param (url_params lib u) k)) [''pll'', ''destination'', ''daddr''])
      = Some v"
  shows "parse_shared_text lib input =
    Inr (case numeric_pair v of
           Some (lat, lon) \<Rightarrow>
             if f64_within (- 90) 90 lat \<and> f64_within (- 180) 180 lon then LatLon lat lon
             else Address (trim v)
         | None \<Rightarrow> Address (trim v))"
proof -
  have "trim input \<noteq> []"
    using assms(2) by (auto simp: first_url_token_def split_whitespace_def)
  have vals: "map (\<lambda>k. map_option destination_value (non_blank (get k))) ks
      = map (map_option destination_value) (map (\<lambda>k. non_blank (get k)) ks)" for get ks
    by simp
  have "parse_map_url lib url = Some (destination_value v)"
    unfolding parse_map_url_def Let_def assms(3) option.case vals
    by (rule first_some_map [OF assms(4)])
  then have "parse_shared_text lib input = Inr (destination_value v)"
    using assms(1,2) \<open>trim input \<noteq> []\<close> by (simp add: parse_shared_text_def Let_def MAX_SHARE_TEXT_LEN_def)
  moreover have "valid_latlon lat lon \<longleftrightarrow> f64_within (- 90) 90 lat \<and> f64_within (- 180) 180 lon" for lat lon
    using f64_within_finite by (auto simp: valid_latlon_def)
  ultimately show ?thesis
    by (simp add: destination_value_def parse_latlon_pair_def split: option.split)
qed

theorem directions_use_destination_witness:
  "parse_shared_text sample_lib sample_url = Inr (Address ''999,999'')"
proof -
  let ?t = sample_url
  let ?v = "''999,999''"
  have p: "list_all plain ?t" "list_all plain ?v" by (simp_all add: sample_url_def plain_def byte_def)
  have t: "trim ?t = ?t" "split_whitespace ?t = [?t]" "trim ?v = ?v"
    using plain_text [OF p(1)] plain_text [OF p(2)] by (simp_all add: sample_url_def)
  have n: "numeric_pair ?v = Some (F_Fin 999, F_Fin 999)"
    using sample_pair [of "''999''" "''999''"] round64_of_int [of 999]
    by (simp add: is_digit_def byte_def digits_val_def digit_val_def)
  have l: "first_url_token ?t = Some ?t"
    by (simp add: first_url_token_def t, simp add: sample_url_def trim_matches_def url_punctuation_def to_lower_def ascii_lower_def
        is_upper_def byte_def)
  define u where "u = \<lparr>u_path = ''/'', u_pairs = [(''saddr'', ''1,1''), (''daddr'', ?v)], u_fragment = None\<rparr>"
  have "parse_shared_text sample_lib ?t =
    Inr (case numeric_pair ?v of
           Some (lat, lon) \<Rightarrow>
             if f64_within (- 90) 90 lat \<and> f64_within (- 180) 180 lon then LatLon lat lon
             else Address (trim ?v)
         | None \<Rightarrow> Address (trim ?v))"
  proof (rule directions_use_destination [of _ ?t _ u])
    show "char_count ?t \<le> 2000" using char_count_le [of ?t] by (simp add: sample_url_def)
    show "first_url_token (trim ?t) = Some ?t" using t l by simp
    show "ul_parse sample_lib ?t = Some u" by (simp add: sample_lib_def u_def)
    show "first_some (map (\<lambda>k. non_blank (param (url_params sample_lib u) k))
        [''pll'', ''destination'', ''daddr'']) = Some ?v"
      using t by (simp add: url_params_def u_def sample_lib_def param_def eq_ignore_case_def to_lower_def
          ascii_lower_def is_upper_def byte_def non_blank_def)
  qed
  then show ?thesis using n t by (simp add: f64_within_iff)
qed

end
