(* ===== verification/Core_Control.thy ===== *)
theory Core_Control
  imports Session_Link Shared_Destination
begin

text \<open>
  The control core, \<^verbatim>\<open>helper/src/core.rs\<close>: the configuration in memory and on disk, the key
  files, the session client and the phone-key flags, with every operation of \<^verbatim>\<open>impl Core\<close>.  Operations hold the core's gate from start to end and the app calls them
  from one worker thread, so each is one step.  What the outside does during an operation (write
  faults, exchanges with the child, one-shot binaries, clock readings) is its environment argument;
  every one-shot binary that is executed is returned, so that none runs unseen.
\<close>

section \<open>State and environment\<close>

record disk =
  d_config :: "string option"
  d_private :: "nat option"
  d_public :: "string option"

record core =
  cfg :: config
  disk :: disk
  sess :: "session option"
  phone_key_started :: bool
  phone_key_enabled :: bool
  phone_key_retry_at :: "int option"

record run_outcome =
  o_ok :: bool
  o_stdout :: string
  o_stderr :: string
  o_exit_code :: int

text \<open>How a bundled binary ends; \<^const>\<open>None\<close> for its code is death by a signal.\<close>

datatype binary_end =
    Bin_no_spawn
  | Bin_exited "int option" string string
  | Bin_timed_out string string
  | Bin_wait_failed string string

record op_env =
  e_parse :: "string \<Rightarrow> json option"
  e_print :: "json \<Rightarrow> string"
  e_state_dir :: string
  e_save :: write_fault
  e_stop :: call_env
  e_main :: call_env
  e_start :: call_env
  e_binary :: binary_end
  e_private_after :: "nat option"
  e_public_after :: "string option"
  e_public_write :: write_fault
  e_now1 :: int
  e_now2 :: int
  e_now3 :: int

type_synonym exec_log = "(string \<times> string list) list"

datatype operation_error =
    NotPaired
  | NoSession
  | RequiresBluez
  | PresenceFailed string
  | KeygenFailed string
  | Op_config config_error
  | Persist io_error
  | WritePubkey io_error

section \<open>Paths, texts and small helpers\<close>

definition path_join :: "string \<Rightarrow> string \<Rightarrow> string" where
  "path_join d f = (if d = [] then f else if last d = CHR ''/'' then d @ f else d @ ''/'' @ f)"

definition private_key_path :: "string \<Rightarrow> string" where
  "private_key_path d = path_join d ''private_key.pem''"

definition public_key_path :: "string \<Rightarrow> string" where
  "public_key_path d = path_join d ''public_key.pem''"

definition key_files :: "disk \<Rightarrow> bool" where
  "key_files d = (d_private d \<noteq> None \<and> d_public d \<noteq> None)"

fun session_error_text :: "session_error \<Rightarrow> string" where
  "session_error_text (Spawn_error e) = ''failed to spawn tesla-session: '' @ e"
| "session_error_text (Handshake_error e) = ''tesla-session handshake failed: '' @ e"
| "session_error_text BrokenPipe = ''tesla-session connection closed''"
| "session_error_text Timeout_error = ''tesla-session did not respond in time''"
| "session_error_text IdMismatch = ''tesla-session response id mismatch''"

fun io_error_text :: "io_error \<Rightarrow> string" where
  "io_error_text (Os_error e) = e"
| "io_error_text (Newer_schema v) = ''config schema '' @ nat_digits (unat v)
     @ '' is newer than this build; update the app before changing settings or keys''"
| "io_error_text Unsupported_schema = ''unsupported newer config schema: ''"

definition outcome_of :: "response \<Rightarrow> run_outcome" where
  "outcome_of r = \<lparr>o_ok = r_ok r, o_stdout = r_stdout r, o_stderr = r_stderr r,
     o_exit_code = r_exit_code r\<rparr>"

definition run_binary :: "binary_end \<Rightarrow> run_outcome" where
  "run_binary b =
    (case b of
       Bin_no_spawn \<Rightarrow> \<lparr>o_ok = False, o_stdout = [], o_stderr = [], o_exit_code = - 1\<rparr>
     | Bin_exited c out err \<Rightarrow>
         \<lparr>o_ok = (c = Some 0), o_stdout = out, o_stderr = err,
          o_exit_code = (case c of None \<Rightarrow> - 1 | Some k \<Rightarrow> k)\<rparr>
     | Bin_timed_out out err \<Rightarrow>
         \<lparr>o_ok = False, o_stdout = out,
          o_stderr = err @ CHR 0x0A # ''Core: timed out waiting for tesla-control'', o_exit_code = - 1\<rparr>
     | Bin_wait_failed out err \<Rightarrow>
         \<lparr>o_ok = False, o_stdout = out, o_stderr = err, o_exit_code = - 1\<rparr>)"

text \<open>The argument vector the child is spawned with, from the configuration of the moment.\<close>

definition child_argv :: "op_env \<Rightarrow> config \<Rightarrow> session \<Rightarrow> string list" where
  "child_argv e c s =
    spawn_argv (s_backend s) (vin c) (private_key_path (e_state_dir e))
      (connect_timeout_sec c) (command_timeout_sec c)"

definition call_session ::
    "op_env \<Rightarrow> call_env \<Rightarrow> string \<Rightarrow> string list \<Rightarrow> config \<Rightarrow> session
     \<Rightarrow> run_reply \<times> session" where
  "call_session e ce c as conf s = session_run (e_parse e) ce c as (child_argv e conf s) s"

definition invalidate_session :: "core \<Rightarrow> core" where
  "invalidate_session k = k\<lparr>sess := map_option invalidate (sess k)\<rparr>"

definition save_config ::
    "op_env \<Rightarrow> config \<Rightarrow> core \<Rightarrow> (io_error, unit) result \<times> core" where
  "save_config e c k =
    (let (r, f) = save (e_print e) (e_save e) c (d_config (disk k))
     in (r, k\<lparr>disk := (disk k)\<lparr>d_config := f\<rparr>\<rparr>))"

section \<open>Starting up\<close>

definition core_new ::
    "op_env \<Rightarrow> read_result \<Rightarrow> disk \<Rightarrow> session option \<Rightarrow> (helper_error, core) result" where
  "core_new e r d s =
    (case fst (load (e_parse e) r) of
       Inl err \<Rightarrow> Inl (SessionUnavailable (''cannot read config ''
         @ path_join (e_state_dir e) ''config.json'' @ '': '' @ io_error_text err))
     | Inr c \<Rightarrow>
         let migrate = (version c = V0 \<and> vin_state c = Unpaired \<and> vin c \<noteq> [] \<and> key_files d);
             c1 = (if migrate then c\<lparr>vin_state := Paired\<rparr> else c);
             older = (version c1 < CURRENT);
             c2 = (if older then c1\<lparr>version := CURRENT\<rparr> else c1);
             f = (if migrate \<or> older
                  then snd (save (e_print e) (e_save e) c2 (d_config d)) else d_config d)
         in Inr \<lparr>cfg = c2, disk = d\<lparr>d_config := f\<rparr>, sess = s, phone_key_started = False,
                 phone_key_enabled = False, phone_key_retry_at = None\<rparr>)"

section \<open>Running a command\<close>

definition common_args :: "op_env \<Rightarrow> core \<Rightarrow> (helper_error, string list) result" where
  "common_args e k =
    (if vin (cfg k) = [] then Inl (NotConfigured ''VIN is not set; call SetConfig first'')
     else if d_private (disk k) = None then Inl (NoKey ''no private key; call GenerateKey first'')
     else Inr [''-ble'', ''-keyring-type'', ''file'', ''-key-file'',
               private_key_path (e_state_dir e), ''-key-name'', key_name (cfg k),
               ''-vin'', vin (cfg k),
               ''-connect-timeout'', int_str (connect_timeout_sec (cfg k)) @ ''s'',
               ''-command-timeout'', int_str (command_timeout_sec (cfg k)) @ ''s''])"

text \<open>The deadline of an exchange: summed in 64 bits and clamped at zero.\<close>

definition run_deadline :: "int \<Rightarrow> config \<Rightarrow> int" where
  "run_deadline extra c =
    max 0 (connect_timeout_sec c + command_timeout_sec c + 10 + extra)"

definition core_run ::
    "op_env \<Rightarrow> bool \<Rightarrow> string \<Rightarrow> string list \<Rightarrow> core
     \<Rightarrow> (helper_error, run_outcome) result \<times> core \<times> exec_log" where
  "core_run e busy c as k =
    (if \<not> is_known_command c then (Inl (UnknownCommand c), k, [])
     else case validate_arg_ranges c as of
       Inl err \<Rightarrow> (Inl err, k, [])
     | Inr _ \<Rightarrow>
         if busy then (Inl (Busy ''another BLE command is in progress''), k, [])
         else case common_args e k of
           Inl err \<Rightarrow> (Inl err, k, [])
         | Inr common \<Rightarrow>
             let argv = common @ [c] @ as;
                 one_shot = (Inr (run_binary (e_binary e)))
             in case sess k of
                  None \<Rightarrow> (one_shot, k, [(''tesla-control'', argv)])
                | Some s \<Rightarrow>
                    (case call_session e (e_main e) c as (cfg k) s of
                       (Inr r, t) \<Rightarrow> (Inr (outcome_of r), k\<lparr>sess := Some t\<rparr>, [])
                     | (Inl err, t) \<Rightarrow>
                         if s_backend s = ''bluez''
                         then (Inl (SessionUnavailable (''bluez persistent session failed for ''
                                 @ c @ '': '' @ session_error_text err)),
                               k\<lparr>sess := Some t\<rparr>, [])
                         else (one_shot, k\<lparr>sess := Some t\<rparr>, [(''tesla-control'', argv)])))"

section \<open>Destinations\<close>

definition preview_destination ::
    "url_lib \<Rightarrow> string \<Rightarrow> (helper_error, string \<times> string \<times> string) result" where
  "preview_destination lib shared =
    (case parse_shared_text lib shared of
       Inr (LatLon lat lon) \<Rightarrow> Inr (''gps'', ul_show lib lat, ul_show lib lon)
     | Inr (Address a) \<Rightarrow> Inr (''address'', a, [])
     | Inl e \<Rightarrow> Inl (InvalidArgument (share_error_text e)))"

fun navigate_args :: "url_lib \<Rightarrow> destination \<Rightarrow> string list" where
  "navigate_args lib (LatLon lat lon) = [''gps'', ul_show lib lat, ul_show lib lon]"
| "navigate_args lib (Address a) = [''address'', a]"

definition share_destination ::
    "op_env \<Rightarrow> url_lib \<Rightarrow> bool \<Rightarrow> string \<Rightarrow> core
     \<Rightarrow> (helper_error, bool \<times> string \<times> string) result \<times> core" where
  "share_destination e lib busy shared k =
    (case parse_shared_text lib shared of
       Inl err \<Rightarrow> (Inl (InvalidArgument (share_error_text err)), k)
     | Inr d \<Rightarrow>
         if busy then (Inl (Busy ''another BLE command is in progress''), k)
         else if vin (cfg k) = [] then (Inl (NotConfigured ''VIN is not set; call SetConfig first''), k)
         else case sess k of
           None \<Rightarrow> (Inl (SessionUnavailable ''persistent BLE session is unavailable''), k)
         | Some s \<Rightarrow>
             (case call_session e (e_main e) ''navigate'' (navigate_args lib d) (cfg k) s of
                (Inr r, t) \<Rightarrow> (Inr (r_ok r, r_stdout r, r_stderr r), k\<lparr>sess := Some t\<rparr>)
              | (Inl err, t) \<Rightarrow>
                  (Inl (SessionUnavailable (''navigation share failed: '' @ session_error_text err)),
                   k\<lparr>sess := Some t\<rparr>)))"

section \<open>The phone key\<close>

definition schedule_phone_key_retry :: "int \<Rightarrow> core \<Rightarrow> core" where
  "schedule_phone_key_retry now k = k\<lparr>phone_key_retry_at := Some (now + 5000)\<rparr>"

text \<open>The configuration is the one the running child was started with.\<close>

definition stop_phone_key_locked :: "op_env \<Rightarrow> config \<Rightarrow> core \<Rightarrow> core" where
  "stop_phone_key_locked e c k =
    (let k1 = k\<lparr>phone_key_enabled := False, phone_key_retry_at := None\<rparr>
     in if \<not> phone_key_started k1 then k1
        else
          (case sess k1 of
             None \<Rightarrow> k1
           | Some s \<Rightarrow>
               (case call_session e (e_stop e) ''presence-stop'' [] c s of
                  (Inr r, t) \<Rightarrow> k1\<lparr>sess := Some t\<rparr>
                | (Inl err, t) \<Rightarrow> k1\<lparr>sess := Some (invalidate t)\<rparr>))
          \<lparr>phone_key_started := False\<rparr>)"

definition stop_phone_key :: "op_env \<Rightarrow> core \<Rightarrow> core" where
  "stop_phone_key e k = stop_phone_key_locked e (cfg k) k"

definition presence_active :: "core \<Rightarrow> bool" where
  "presence_active k = (case sess k of None \<Rightarrow> False | Some s \<Rightarrow> is_presence_active s)"

definition eligible :: "core \<Rightarrow> bool" where
  "eligible k = (vin (cfg k) \<noteq> [] \<and> vin_state (cfg k) = Paired \<and> d_private (disk k) \<noteq> None)"

definition start_phone_key :: "op_env \<Rightarrow> core \<Rightarrow> (operation_error, unit) result \<times> core" where
  "start_phone_key e k =
    (if phone_key_started k \<and> presence_active k then (Inr (), k)
     else
       let was_started = phone_key_started k;
           k1 = k\<lparr>phone_key_started := False\<rparr>
       in if \<not> eligible k1 then (Inl NotPaired, k1)
          else case sess k1 of
            None \<Rightarrow> (Inl NoSession, k1)
          | Some s \<Rightarrow>
              if s_backend s \<noteq> ''bluez'' then (Inl RequiresBluez, k1)
              else
                let s1 = (if was_started \<and> \<not> is_presence_active s then invalidate s else s)
                in (case call_session e (e_start e) ''presence-start'' [] (cfg k1) s1 of
                      (Inr r, t) \<Rightarrow>
                        if r_ok r
                        then (Inr (), k1\<lparr>sess := Some t, phone_key_enabled := True,
                                phone_key_started := True, phone_key_retry_at := None\<rparr>)
                        else (Inl (PresenceFailed (trim (r_stderr r))),
                              schedule_phone_key_retry (e_now3 e)
                                (k1\<lparr>sess := Some t, phone_key_enabled := True\<rparr>))
                    | (Inl err, t) \<Rightarrow>
                        (Inl (PresenceFailed (session_error_text err)),
                         schedule_phone_key_retry (e_now3 e)
                           (k1\<lparr>sess := Some t, phone_key_enabled := True\<rparr>))))"

fun config_error_text :: "config_error \<Rightarrow> string" where
  "config_error_text PositiveTimeout = ''timeouts must be positive''"
| "config_error_text MaxTimeout = ''timeouts must be <= 300''"
| "config_error_text InvalidVin = ''invalid VIN format (17 alphanumeric chars, no I/O/Q)''"
| "config_error_text InvalidKeyName =
     ''key name must be <= 64 chars (letters, digits, spaces, . _ -)''"
| "config_error_text InvalidModel =
     ''model must be one of '' @ join_with '', '' (filter (\<lambda>m. m \<noteq> []) VALID_MODELS)"

fun operation_error_text :: "operation_error \<Rightarrow> string" where
  "operation_error_text NotPaired =
     ''phone key is waiting for a configured VIN and completed pairing''"
| "operation_error_text NoSession = ''persistent BLE session is unavailable''"
| "operation_error_text RequiresBluez = ''automatic phone key requires the BlueZ backend''"
| "operation_error_text (PresenceFailed m) = m"
| "operation_error_text (KeygenFailed m) = m"
| "operation_error_text (Op_config c) = config_error_text c"
| "operation_error_text (Persist e) = ''could not persist config: '' @ io_error_text e"
| "operation_error_text (WritePubkey e) = ''could not write public key: '' @ io_error_text e"

section \<open>Keys and pairing\<close>

definition keygen_argv :: "op_env \<Rightarrow> bool \<Rightarrow> string list" where
  "keygen_argv e force =
    [''-keyring-type'', ''file'', ''-key-file'', private_key_path (e_state_dir e), ''-output'',
     public_key_path (e_state_dir e)] @ (if force then [''-f''] else []) @ [''create'']"

definition generate_key_one_shot ::
    "op_env \<Rightarrow> core \<Rightarrow> (operation_error, string) result \<times> core" where
  "generate_key_one_shot e k =
    (let o' = run_binary (e_binary e);
         k1 = k\<lparr>disk := (disk k)\<lparr>d_private := e_private_after e, d_public := e_public_after e\<rparr>\<rparr>
     in if \<not> o_ok o' then (Inl (KeygenFailed (trim (o_stderr o'))), k1)
        else (case d_public (disk k1) of
                Some p \<Rightarrow> (Inr (trim p), k1)
              | None \<Rightarrow> (Inl (KeygenFailed ''No such file or directory (os error 2)''), k1)))"

definition generate_key_session ::
    "op_env \<Rightarrow> bool \<Rightarrow> session \<Rightarrow> core \<Rightarrow> (operation_error, string) result \<times> core" where
  "generate_key_session e force s k =
    (let (res, t) = call_session e (e_main e) ''keygen'' (keygen_args force) (cfg k) s;
         k1 = k\<lparr>sess := Some t, disk := (disk k)\<lparr>d_private := e_private_after e\<rparr>\<rparr>
     in case res of
          Inl err \<Rightarrow> (Inl (KeygenFailed (session_error_text err)), k1)
        | Inr r \<Rightarrow>
            if \<not> r_ok r then (Inl (KeygenFailed (trim (r_stderr r))), k1)
            else
              let p = trim (r_stdout r);
                  (w, f) = write_atomic (e_public_write e) p (d_public (disk k1));
                  k2 = k1\<lparr>disk := (disk k1)\<lparr>d_public := f\<rparr>\<rparr>
              in (case w of Inl err \<Rightarrow> (Inl (WritePubkey err), k2) | Inr _ \<Rightarrow> (Inr p, k2)))"

text \<open>The enrolment reset that precedes a destructive key write.\<close>

definition reset_enrollment :: "op_env \<Rightarrow> core \<Rightarrow> (operation_error, unit) result \<times> core" where
  "reset_enrollment e k =
    (let candidate = (cfg k)\<lparr>vin_state := Unpaired\<rparr>;
         (r, k1) = save_config e candidate k
     in case r of
          Inl err \<Rightarrow> (Inl (Persist err), k1)
        | Inr _ \<Rightarrow>
            (Inr (), invalidate_session
              ((stop_phone_key_locked e (cfg k) k1)\<lparr>cfg := candidate\<rparr>)))"

definition generate_key ::
    "op_env \<Rightarrow> bool \<Rightarrow> core \<Rightarrow> (operation_error, string) result \<times> core \<times> exec_log" where
  "generate_key e force k =
    (case ensure_writable (cfg k) of
       Inl err \<Rightarrow> (Inl (Persist err), k, [])
     | Inr _ \<Rightarrow>
         let replacing = (force \<or> d_private (disk k) = None);
             (r0, k0) = (if replacing then reset_enrollment e k else (Inr (), k))
         in case r0 of
              Inl err \<Rightarrow> (Inl err, k0, [])
            | Inr _ \<Rightarrow>
                let ((r, k1), log) =
                      (case sess k0 of
                         None \<Rightarrow> (generate_key_one_shot e k0, [(''tesla-keygen'', keygen_argv e force)])
                       | Some s \<Rightarrow> (generate_key_session e force s k0, []))
                in (case r of
                      Inl err \<Rightarrow> (Inl err, k1, log)
                    | Inr p \<Rightarrow> (Inr p, if replacing then invalidate_session k1 else k1, log)))"

definition pair_start :: "op_env \<Rightarrow> run_outcome \<Rightarrow> core
    \<Rightarrow> (helper_error, bool \<times> string \<times> string) result \<times> core" where
  "pair_start e o' k =
    (case start_phone_key e k of
       (Inl err, k1) \<Rightarrow>
         (Inr (False, o_stdout o', ''paired, but automatic phone key could not start: ''
                 @ operation_error_text err), k1)
     | (Inr _, k1) \<Rightarrow> (Inr (True, o_stdout o', []), k1))"

definition pair ::
    "op_env \<Rightarrow> bool \<Rightarrow> core \<Rightarrow> (helper_error, bool \<times> string \<times> string) result \<times> core" where
  "pair e busy k =
    (if busy then (Inr (False, [], ''another BLE command is in progress''), k)
     else case sess k of
       None \<Rightarrow> (Inl (SessionUnavailable
                 ''pairing requires a persistent session to confirm NFC enrollment''), k)
     | Some _ \<Rightarrow>
         (case ensure_writable (cfg k) of
            Inl err \<Rightarrow> (Inl (SessionUnavailable (io_error_text err)), k)
          | Inr _ \<Rightarrow>
              let k1 = stop_phone_key_locked e (cfg k) k
              in (case common_args e k1 of
                    Inl err \<Rightarrow> (Inl err, k1)
                  | Inr _ \<Rightarrow>
                      if d_public (disk k1) = None
                      then (Inr (False, [], ''no public key on file; call GenerateKey first''), k1)
                      else
                        (case map_option (call_session e (e_main e) ''pair''
                                   [public_key_path (e_state_dir e), ''owner'', ''android_device'']
                                   (cfg k1)) (sess k1) of
                           None \<Rightarrow> (Inl (SessionUnavailable []), k1)
                         | Some (Inl err, t) \<Rightarrow>
                             (Inl (SessionUnavailable (''persistent session failed during pairing: ''
                                @ session_error_text err)), k1\<lparr>sess := Some t\<rparr>)
                         | Some (Inr r, t) \<Rightarrow>
                             let k2 = k1\<lparr>sess := Some t\<rparr>; o' = outcome_of r
                             in if \<not> o_ok o'
                                then (Inr (False, o_stdout o', trim (o_stderr o')), k2)
                                else
                                  let candidate = (cfg k2)\<lparr>vin_state := Paired\<rparr>;
                                      (w, k3) = save_config e candidate k2
                                  in (case w of
                                        Inl err \<Rightarrow>
                                          (Inl (SessionUnavailable
                                             (''paired key but could not persist phone-key state: ''
                                              @ io_error_text err)), k3)
                                      | Inr _ \<Rightarrow> pair_start e o' (k3\<lparr>cfg := candidate\<rparr>))))))"

section \<open>Events, resume and settings\<close>

definition due :: "int \<Rightarrow> int option \<Rightarrow> bool" where
  "due now r = (case r of None \<Rightarrow> False | Some d \<Rightarrow> d \<le> now)"

definition pending :: "int \<Rightarrow> int option \<Rightarrow> bool" where
  "pending now r = (case r of None \<Rightarrow> False | Some d \<Rightarrow> now < d)"

definition next_event :: "op_env \<Rightarrow> core \<Rightarrow> session_event option \<times> core" where
  "next_event e k =
    (let (ev, k1) = (case sess k of
                       None \<Rightarrow> (None, k)
                     | Some s \<Rightarrow> let (v, t) = poll_event s in (v, k\<lparr>sess := Some t\<rparr>));
         ev1 = (if ev = None \<and> due (e_now1 e) (phone_key_retry_at k1) \<and> phone_key_enabled k1
                then Some \<lparr>ev_kind = ''presence_stopped'', ev_vin = vin (cfg k1), ev_time = [],
                           ev_error = []\<rparr>
                else ev)
     in (map_option (\<lambda>v. if ev_vin v = [] then v\<lparr>ev_vin := vin (cfg k1)\<rparr> else v) ev1, k1))"

definition recover_presence :: "op_env \<Rightarrow> session_event \<Rightarrow> core \<Rightarrow> session_event \<times> core" where
  "recover_presence e ev k =
    (case start_phone_key e (invalidate_session k) of
       (Inr _, k1) \<Rightarrow> (ev\<lparr>ev_kind := ''presence_restarted'', ev_error := []\<rparr>, k1)
     | (Inl err, k1) \<Rightarrow>
         (let m = operation_error_text err in if m = [] then ev else ev\<lparr>ev_error := m\<rparr>, k1))"

definition poll_phone_key_event :: "op_env \<Rightarrow> core \<Rightarrow> session_event option \<times> core" where
  "poll_phone_key_event e k =
    (case next_event e k of
       (None, k1) \<Rightarrow> (None, k1)
     | (Some ev, k1) \<Rightarrow>
         if ev_kind ev \<noteq> ''presence_stopped'' then (Some ev, k1)
         else
           let k2 = k1\<lparr>phone_key_started := False\<rparr>
           in if \<not> phone_key_enabled k2 then (Some ev, k2)
              else if pending (e_now2 e) (phone_key_retry_at k2) then (Some ev, k2)
              else (let (ev1, k3) = recover_presence e ev k2 in (Some ev1, k3)))"

definition handle_resume :: "op_env \<Rightarrow> core \<Rightarrow> core" where
  "handle_resume e k =
    snd (start_phone_key e
      (k\<lparr>phone_key_started := False,
         sess := map_option (\<lambda>s. invalidate (clear_events s)) (sess k)\<rparr>))"

definition set_config ::
    "op_env \<Rightarrow> string \<Rightarrow> string \<Rightarrow> string \<Rightarrow> int \<Rightarrow> int \<Rightarrow> core
     \<Rightarrow> (operation_error, unit) result \<times> core" where
  "set_config e v m kn ct mt k =
    (case validate_config v m kn ct mt of
       Inl err \<Rightarrow> (Inl (Op_config err), k)
     | Inr _ \<Rightarrow>
         let vin_changed = (vin (cfg k) \<noteq> trim v);
             c1 = (cfg k)\<lparr>vin := trim v, model := to_lower (trim m), key_name := trim kn,
                    connect_timeout_sec := ct, command_timeout_sec := mt\<rparr>;
             candidate = (if vin_changed then c1\<lparr>vin_state := Unpaired\<rparr> else c1);
             (r, k1) = save_config e candidate k
         in case r of
              Inl err \<Rightarrow> (Inl (Persist err), k1)
            | Inr _ \<Rightarrow>
                let k2 = invalidate_session
                           ((stop_phone_key_locked e (cfg k) k1)\<lparr>cfg := candidate\<rparr>)
                in (Inr (), if vin_changed then k2 else snd (start_phone_key e k2)))"

record config_reply =
  g_vin :: string
  g_model :: string
  g_key_name :: string
  g_connect :: int
  g_command :: int
  g_has_key :: bool
  g_public_key :: string

definition get_config :: "core \<Rightarrow> config_reply" where
  "get_config k =
    (let p = (case d_public (disk k) of None \<Rightarrow> [] | Some s \<Rightarrow> s)
     in \<lparr>g_vin = vin (cfg k), g_model = model (cfg k), g_key_name = key_name (cfg k),
         g_connect = connect_timeout_sec (cfg k), g_command = command_timeout_sec (cfg k),
         g_has_key = (trim p \<noteq> [] \<and> (case d_private (disk k) of None \<Rightarrow> False | Some n \<Rightarrow> 0 < n)),
         g_public_key = p\<rparr>)"

definition core_drop :: "op_env \<Rightarrow> core \<Rightarrow> core" where
  "core_drop e k = invalidate_session (stop_phone_key e k)"

section \<open>Lemmas: the session under the core\<close>

lemma reader_step_backend [frame_simps]: "s_backend (reader_step parse w s) = s_backend s"
  by (auto simp: reader_step_def reader_frame_def reader_end_def
      split: wire.splits option.splits frame.splits)

lemma await_backend [frame_simps]: "s_backend (snd (await_response parse ws s)) = s_backend s"
  by (rule await_invariant [of "\<lambda>t. s_backend t = s_backend s"]) (auto simp: frame_simps)

lemma transport_failed_backend [frame_simps]:
  "s_backend (transport_failed s) = s_backend s" "s_backend (kill_child s) = s_backend s"
  "s_backend (invalidate s) = s_backend s" "s_backend (clear_events s) = s_backend s"
  "s_backend (snd (poll_event s)) = s_backend s"
  by (auto simp: transport_failed_def kill_child_def invalidate_def clear_events_def poll_event_def
      split: list.splits)

lemma reap_dead_backend [frame_simps]: "s_backend (reap_dead s) = s_backend s"
  by (auto simp: reap_dead_def frame_simps split: option.splits)

lemma ensure_child_backend [frame_simps]:
  "ensure_child parse argv e s = Inr t \<Longrightarrow> s_backend t = s_backend s"
  by (auto simp: ensure_child_def split: option.splits sum.splits)

lemma exchange_backend [frame_simps]: "s_backend (snd (exchange parse e c as s)) = s_backend s"
proof -
  let ?s1 = "send_request (request_json (nat_digits (unat (s_next_id s))) c as)
               (s\<lparr>s_next_id := s_next_id s + 1\<rparr>)"
  obtain ro t where at: "await_response parse (ce_lines e) ?s1 = (ro, t)" by fastforce
  then have "s_backend t = s_backend s" using await_backend [of parse "ce_lines e" ?s1] by simp
  with at show ?thesis
    by (auto simp: exchange_def fail_exchange_def frame_simps Let_def split: option.splits)
qed

lemma session_run_backend [frame_simps]:
  "s_backend (snd (session_run parse e c as argv s)) = s_backend s"
  by (auto simp: session_run_def frame_simps Let_def split: sum.splits)

lemma call_session_backend [frame_simps]:
  "s_backend (snd (call_session e ce c as conf s)) = s_backend s"
  by (simp add: call_session_def frame_simps)

lemma call_session_inv [inv_intros]:
  "session_inv s \<Longrightarrow> session_inv (snd (call_session e ce c as conf s))"
  by (simp add: call_session_def inv_session_run)

lemma call_start_active:
  assumes "call_session e ce ''presence-start'' [] conf s = (Inr r, t)" "r_ok r" "session_inv s"
  shows "is_presence_active t"
  using link.start_active [of s "e_parse e" "(ce, [], child_argv e conf s)"] assms
  by (simp add: session_request_def call_session_def)

lemma call_failed_inactive:
  assumes "call_session e ce c as conf s = (res, t)" "is_presence_active t" "session_inv s"
    and "\<not> (\<exists>r. res = Inr r \<and> r_ok r)"
  shows "is_presence_active s"
proof -
  have run: "session_run (e_parse e) ce c as (child_argv e conf s) s = (res, t)"
    using assms(1) by (simp add: call_session_def)
  show ?thesis
    by (rule session_run_activates [of "e_parse e" ce c as "child_argv e conf s" s])
      (use run assms in auto)
qed

lemma call_error_inactive:
  assumes "call_session e ce c as conf s = (Inl err, t)" "session_inv s"
  shows "\<not> is_presence_active t"
  using session_run_error [OF assms(1) [unfolded call_session_def] assms(2)]
  by (simp add: is_presence_active_def)

section \<open>Lemmas: the invariant of the core\<close>

definition core_inv :: "core \<Rightarrow> bool" where
  "core_inv k =
    (wf_config (cfg k)
     \<and> (\<forall>s. sess k = Some s \<longrightarrow> session_inv s)
     \<and> (phone_key_started k \<longrightarrow>
          phone_key_enabled k \<and> vin_state (cfg k) = Paired \<and> vin (cfg k) \<noteq> []
          \<and> (\<exists>s. sess k = Some s \<and> s_backend s = ''bluez''))
     \<and> (phone_key_retry_at k \<noteq> None \<longrightarrow> phone_key_enabled k))"

definition backend_of :: "core \<Rightarrow> string option" where
  "backend_of k = map_option s_backend (sess k)"

lemma backend_invalidate [frame_simps]: "backend_of (invalidate_session k) = backend_of k"
  by (simp add: backend_of_def invalidate_session_def option.map_comp comp_def frame_simps)

lemma sess_save [simp]:
  "sess (snd (save_config e c k)) = sess k" "cfg (snd (save_config e c k)) = cfg k"
  "phone_key_started (snd (save_config e c k)) = phone_key_started k"
  "phone_key_enabled (snd (save_config e c k)) = phone_key_enabled k"
  "phone_key_retry_at (snd (save_config e c k)) = phone_key_retry_at k"
  "d_private (disk (snd (save_config e c k))) = d_private (disk k)"
  "d_public (disk (snd (save_config e c k))) = d_public (disk k)"
  by (simp_all add: save_config_def case_prod_beta Let_def)

lemma save_config_ok:
  "fst (save_config e c k) = Inr u \<Longrightarrow>
   d_config (disk (snd (save_config e c k))) = Some (e_print e (config_json c))"
  by (auto simp: save_config_def case_prod_beta Let_def save_ok)

text \<open>Stopping: the flags, what it leaves alone, and that presence is off afterwards.\<close>

lemma stop_flags [simp]:
  "\<not> phone_key_started (stop_phone_key_locked e c k)"
  "\<not> phone_key_enabled (stop_phone_key_locked e c k)"
  "phone_key_retry_at (stop_phone_key_locked e c k) = None"
  "cfg (stop_phone_key_locked e c k) = cfg k"
  "disk (stop_phone_key_locked e c k) = disk k"
  by (auto simp: stop_phone_key_locked_def Let_def split: option.splits sum.splits prod.splits)

lemma stop_backend [frame_simps]: "backend_of (stop_phone_key_locked e c k) = backend_of k"
proof (cases "phone_key_started k \<and> sess k \<noteq> None")
  case True
  then obtain s where s: "sess k = Some s" by auto
  obtain r t where call: "call_session e (e_stop e) ''presence-stop'' [] c s = (r, t)" by fastforce
  have "s_backend t = s_backend s" using call_session_backend [of e "e_stop e" "''presence-stop''" "[]" c s] call by simp
  then show ?thesis using True s call
    by (auto simp: stop_phone_key_locked_def Let_def backend_of_def frame_simps split: sum.splits)
next
  case False
  then show ?thesis by (auto simp: stop_phone_key_locked_def Let_def backend_of_def)
qed

lemma stop_session_inv:
  assumes "\<forall>s. sess k = Some s \<longrightarrow> session_inv s" "sess (stop_phone_key_locked e c k) = Some t"
  shows "session_inv t"
proof (cases "phone_key_started k \<and> sess k \<noteq> None")
  case True
  then obtain s where s: "sess k = Some s" by auto
  obtain r u where call: "call_session e (e_stop e) ''presence-stop'' [] c s = (r, u)" by fastforce
  have "session_inv u"
    using call_session_inv [of s e "e_stop e" "''presence-stop''" "[]" c] call assms(1) s by simp
  then show ?thesis using True s call assms(2)
    by (auto simp: stop_phone_key_locked_def Let_def inv_invalidate split: sum.splits)
next
  case False
  then have "sess (stop_phone_key_locked e c k) = sess k"
    by (cases "sess k") (auto simp: stop_phone_key_locked_def Let_def)
  then show ?thesis using assms by simp
qed

lemma core_inv_stop [inv_intros]: "core_inv k \<Longrightarrow> core_inv (stop_phone_key_locked e c k)"
  using stop_session_inv by (auto simp: core_inv_def)

lemma core_inv_invalidate [inv_intros]:
  "core_inv k \<Longrightarrow> core_inv (invalidate_session k)"
  by (auto simp: core_inv_def invalidate_session_def inv_invalidate frame_simps)

lemma invalidate_core [simp]:
  "cfg (invalidate_session k) = cfg k" "disk (invalidate_session k) = disk k"
  "phone_key_started (invalidate_session k) = phone_key_started k"
  "phone_key_enabled (invalidate_session k) = phone_key_enabled k"
  "phone_key_retry_at (invalidate_session k) = phone_key_retry_at k"
  "\<not> presence_active (invalidate_session k)"
  by (auto simp: invalidate_session_def presence_active_def link.drop_inactive split: option.splits)

text \<open>A start ends in one of three ways.\<close>

lemma start_cases:
  assumes "core_inv k"
  obtains (already) "start_phone_key e k = (Inr (), k)" "phone_key_started k" "presence_active k"
  | (refused) err where "start_phone_key e k = (Inl err, k\<lparr>phone_key_started := False\<rparr>)"
      "err = NotPaired \<and> \<not> eligible k \<or> err = NoSession \<and> sess k = None
       \<or> err = RequiresBluez \<and> backend_of k \<noteq> Some ''bluez''"
  | (started) s t where "sess k = Some s" "s_backend s = ''bluez''" "eligible k"
      "start_phone_key e k = (Inr (), k\<lparr>sess := Some t, phone_key_enabled := True,
         phone_key_started := True, phone_key_retry_at := None\<rparr>)"
      "is_presence_active t" "session_inv t" "s_backend t = ''bluez''"
  | (failed) s t msg where "sess k = Some s" "s_backend s = ''bluez''" "eligible k"
      "start_phone_key e k = (Inl (PresenceFailed msg),
         k\<lparr>phone_key_started := False, sess := Some t, phone_key_enabled := True,
           phone_key_retry_at := Some (e_now3 e + 5000)\<rparr>)"
      "session_inv t" "s_backend t = ''bluez''" "is_presence_active t \<longrightarrow> is_presence_active s"
proof (cases "phone_key_started k \<and> presence_active k")
  case True
  then show thesis using already by (simp add: start_phone_key_def)
next
  case active: False
  have el: "eligible (k\<lparr>phone_key_started := False\<rparr>) = eligible k" by (simp add: eligible_def)
  show thesis
  proof (cases "eligible k")
    case False
    then show thesis using active el refused [of NotPaired]
      by (simp add: start_phone_key_def Let_def)
  next
    case eligible: True
    show thesis
    proof (cases "sess k")
      case None
      then show thesis using active el eligible refused [of NoSession]
        by (simp add: start_phone_key_def Let_def)
    next
      case (Some s)
      show thesis
      proof (cases "s_backend s = ''bluez''")
        case False
        then show thesis using active el eligible Some refused [of RequiresBluez]
          by (simp add: start_phone_key_def Let_def backend_of_def)
      next
        case bluez: True
        define s1 where "s1 = (if phone_key_started k \<and> \<not> is_presence_active s
                               then invalidate s else s)"
        have inv: "session_inv s1"
          using assms Some by (auto simp: s1_def core_inv_def inv_invalidate)
        have b1: "s_backend s1 = ''bluez''" using bluez by (simp add: s1_def frame_simps)
        obtain res t where call: "call_session e (e_start e) ''presence-start'' [] (cfg k) s1 = (res, t)"
          by fastforce
        have t: "session_inv t" "s_backend t = ''bluez''"
          using call_session_inv [OF inv, of e "e_start e" "''presence-start''" "[]" "cfg k"]
            call_session_backend [of e "e_start e" "''presence-start''" "[]" "cfg k" s1] call b1 by auto
        show thesis
        proof (cases "\<exists>r. res = Inr r \<and> r_ok r")
          case True
          then obtain r where r: "res = Inr r" "r_ok r" by blast
          have "is_presence_active t" using call_start_active call r inv by blast
          moreover have "start_phone_key e k = (Inr (), k\<lparr>sess := Some t, phone_key_enabled := True,
              phone_key_started := True, phone_key_retry_at := None\<rparr>)"
            unfolding start_phone_key_def if_not_P [OF active]
            using el eligible Some bluez call r
            by (simp add: Let_def s1_def [symmetric])
          ultimately show thesis using started Some bluez eligible t by blast
        next
          case False
          then have "\<exists>msg. start_phone_key e k = (Inl (PresenceFailed msg),
              k\<lparr>phone_key_started := False, sess := Some t, phone_key_enabled := True,
                phone_key_retry_at := Some (e_now3 e + 5000)\<rparr>)"
            unfolding start_phone_key_def if_not_P [OF active]
            using el eligible Some bluez call
            by (cases res) (simp_all add: Let_def s1_def [symmetric] schedule_phone_key_retry_def)
          moreover have "is_presence_active t \<longrightarrow> is_presence_active s"
            using call_failed_inactive [OF call _ inv False] link.drop_inactive
            by (auto simp: s1_def split: if_splits)
          ultimately show thesis using failed Some bluez eligible t by blast
        qed
      qed
    qed
  qed
qed

lemma core_inv_sess:
  assumes "core_inv k" "sess k = Some s" "session_inv t" "s_backend t = s_backend s"
  shows "core_inv (k\<lparr>sess := Some t\<rparr>)"
  using assms by (auto simp: core_inv_def)

lemma core_inv_disk: "core_inv (k\<lparr>disk := d\<rparr>) = core_inv k"
  by (simp add: core_inv_def)

lemma core_inv_save [simp]: "core_inv (snd (save_config e c k)) = core_inv k"
  by (simp add: save_config_def case_prod_beta Let_def core_inv_disk)

lemma core_inv_call:
  assumes "core_inv k" "sess k = Some s"
  shows "core_inv (k\<lparr>sess := Some (snd (call_session e ce c as conf s))\<rparr>)"
  using assms call_session_inv call_session_backend by (intro core_inv_sess) (auto simp: core_inv_def)

lemma core_inv_unstarted [inv_intros]: "core_inv k \<Longrightarrow> core_inv (k\<lparr>phone_key_started := False\<rparr>)"
  by (simp add: core_inv_def)

lemma core_inv_run [inv_intros]:
  assumes "core_inv k" shows "core_inv (fst (snd (core_run e busy c as k)))"
proof (cases "sess k")
  case None
  then show ?thesis using assms by (auto simp: core_run_def Let_def split: sum.splits)
next
  case (Some s)
  obtain r t where call: "call_session e (e_main e) c as (cfg k) s = (r, t)" by fastforce
  then have "core_inv (k\<lparr>sess := Some t\<rparr>)"
    using core_inv_call [OF assms Some, of e "e_main e" c as "cfg k"] by simp
  then show ?thesis using assms Some call
    by (auto simp: core_run_def Let_def split: sum.splits)
qed

lemma share_sess:
  "snd (share_destination e lib busy shared k) = k
   \<or> (\<exists>s as. sess k = Some s \<and> snd (share_destination e lib busy shared k)
        = k\<lparr>sess := Some (snd (call_session e (e_main e) ''navigate'' as (cfg k) s))\<rparr>)"
proof (cases "parse_shared_text lib shared")
  case (Inr d)
  show ?thesis
  proof (cases "busy \<or> vin (cfg k) = [] \<or> sess k = None")
    case False
    then obtain s where s: "sess k = Some s" "\<not> busy" "vin (cfg k) \<noteq> []" by auto
    obtain r t where "call_session e (e_main e) ''navigate'' (navigate_args lib d) (cfg k) s = (r, t)"
      by fastforce
    then show ?thesis using Inr s by (cases r) (auto simp: share_destination_def intro!: exI [of _ "navigate_args lib d"])
  qed (use Inr in \<open>auto simp: share_destination_def\<close>)
qed (simp add: share_destination_def)

lemma core_inv_share [inv_intros]:
  assumes "core_inv k" shows "core_inv (snd (share_destination e lib busy shared k))"
  using share_sess [of e lib busy shared k] core_inv_call [OF assms] assms by auto

lemma core_inv_start [inv_intros]:
  assumes "core_inv k" shows "core_inv (snd (start_phone_key e k))"
  using assms
proof (cases rule: start_cases [where e = e])
  case (started s t)
  then show ?thesis using assms by (auto simp: core_inv_def eligible_def)
next
  case (failed s t msg)
  then show ?thesis using assms by (auto simp: core_inv_def)
qed (use assms in \<open>simp_all add: core_inv_unstarted\<close>)

text \<open>A reset: refused and nothing but the file touched, or unpaired everywhere and stopped.\<close>

lemma reset_ok:
  assumes "reset_enrollment e k = (Inr u, k1)"
  shows "vin_state (cfg k1) = Unpaired" "vin (cfg k1) = vin (cfg k)"
    "cfg k1 = (cfg k)\<lparr>vin_state := Unpaired\<rparr>"
    "d_config (disk k1) = Some (e_print e (config_json (cfg k1)))"
    "d_private (disk k1) = d_private (disk k)" "d_public (disk k1) = d_public (disk k)"
    "\<not> phone_key_started k1" "\<not> phone_key_enabled k1" "\<not> presence_active k1"
  using assms save_config_ok [of e "(cfg k)\<lparr>vin_state := Unpaired\<rparr>" k]
  by (auto simp: reset_enrollment_def Let_def case_prod_beta frame_simps split: sum.splits)

lemma reset_error:
  assumes "reset_enrollment e k = (Inl err, k1)"
  shows "k1 = k\<lparr>disk := (disk k)\<lparr>d_config := d_config (disk k1)\<rparr>\<rparr>" "\<exists>io. err = Persist io"
  using assms
  by (auto simp: reset_enrollment_def Let_def case_prod_beta save_config_def split: sum.splits)

lemma core_inv_unpair:
  assumes "core_inv k" "\<not> phone_key_started k"
  shows "core_inv (k\<lparr>cfg := (cfg k)\<lparr>vin_state := x\<rparr>\<rparr>)"
  using assms by (auto simp: core_inv_def wf_config_def)

lemma core_inv_reset [inv_intros]:
  assumes "core_inv k" shows "core_inv (snd (reset_enrollment e k))"
proof -
  let ?k1 = "snd (save_config e ((cfg k)\<lparr>vin_state := Unpaired\<rparr>) k)"
  have "core_inv (stop_phone_key_locked e (cfg k) ?k1)" using assms by (simp add: core_inv_stop)
  then have "core_inv (invalidate_session
      ((stop_phone_key_locked e (cfg k) ?k1)\<lparr>cfg := (cfg k)\<lparr>vin_state := Unpaired\<rparr>\<rparr>))"
    using core_inv_unpair [of "stop_phone_key_locked e (cfg k) ?k1" Unpaired]
    by (simp add: core_inv_invalidate)
  then show ?thesis using assms
    by (auto simp: reset_enrollment_def Let_def case_prod_beta split: sum.splits)
qed

lemma core_inv_keygen [inv_intros]:
  assumes "core_inv k"
  shows "core_inv (snd (generate_key_one_shot e k))"
    and "sess k = Some s \<Longrightarrow> core_inv (snd (generate_key_session e force s k))"
proof -
  show "core_inv (snd (generate_key_one_shot e k))" using assms
    by (simp add: generate_key_one_shot_def Let_def core_inv_disk split: option.splits)
next
  assume s: "sess k = Some s"
  obtain r t where call: "call_session e (e_main e) ''keygen'' (keygen_args force) (cfg k) s = (r, t)"
    by fastforce
  then have "core_inv (k\<lparr>sess := Some t\<rparr>)"
    using core_inv_call [OF assms s, of e "e_main e" "''keygen''" "keygen_args force" "cfg k"] by simp
  then have "core_inv (k\<lparr>sess := Some t, disk := d\<rparr>)" for d
    using core_inv_disk [of d "k\<lparr>sess := Some t\<rparr>"] by simp
  then show "core_inv (snd (generate_key_session e force s k))"
    using call by (auto simp: generate_key_session_def Let_def case_prod_beta core_inv_disk split: sum.splits)
qed

lemma core_inv_generate [inv_intros]:
  assumes "core_inv k" shows "core_inv (fst (snd (generate_key e force k)))"
proof -
  let ?rk = "if force \<or> d_private (disk k) = None then reset_enrollment e k else (Inr (), k)"
  have k0: "core_inv (snd ?rk)" using assms core_inv_reset by auto
  show ?thesis
    using core_inv_keygen(1) [OF k0] core_inv_keygen(2) [OF k0] k0 assms
    by (auto simp: generate_key_def Let_def case_prod_beta core_inv_invalidate
        split: sum.splits option.splits)
qed

lemma core_inv_pair_start [inv_intros]:
  "core_inv k \<Longrightarrow> core_inv (snd (pair_start e o' k))"
  by (auto simp: pair_start_def core_inv_start case_prod_beta split: sum.splits)

lemma backend_none: "backend_of k = None \<longleftrightarrow> sess k = None"
  by (simp add: backend_of_def)

lemma stop_sess_none [simp]: "sess (stop_phone_key_locked e c k) = None \<longleftrightarrow> sess k = None"
  using stop_backend [of e c k] by (metis backend_none)

text \<open>Pairing: refused, stopped short, answered, or enrolled and saved.\<close>

definition pair_call :: "op_env \<Rightarrow> core \<Rightarrow> session \<Rightarrow> run_reply \<times> session" where
  "pair_call e k s = call_session e (e_main e) ''pair''
     [public_key_path (e_state_dir e), ''owner'', ''android_device''] (cfg k) s"

lemma pair_cases:
  obtains (refused) r where "pair e busy k = (r, k)" "\<forall>out m. r \<noteq> Inr (True, out, m)"
  | (stopped) r where "pair e busy k = (r, stop_phone_key_locked e (cfg k) k)"
      "\<forall>out m. r \<noteq> Inr (True, out, m)"
  | (answered) r s t ro where
      "sess (stop_phone_key_locked e (cfg k) k) = Some s" "pair_call e k s = (ro, t)"
      "pair e busy k = (r, (stop_phone_key_locked e (cfg k) k)\<lparr>sess := Some t\<rparr>)"
      "\<forall>out m. r \<noteq> Inr (True, out, m)"
  | (unsaved) r s t q io where
      "sess (stop_phone_key_locked e (cfg k) k) = Some s" "pair_call e k s = (Inr q, t)" "r_ok q"
      "pair e busy k = (r, snd (save_config e ((cfg k)\<lparr>vin_state := Paired\<rparr>)
         ((stop_phone_key_locked e (cfg k) k)\<lparr>sess := Some t\<rparr>)))"
      "fst (save_config e ((cfg k)\<lparr>vin_state := Paired\<rparr>)
         ((stop_phone_key_locked e (cfg k) k)\<lparr>sess := Some t\<rparr>)) = Inl io"
      "\<forall>out m. r \<noteq> Inr (True, out, m)"
  | (saved) s t q where
      "sess (stop_phone_key_locked e (cfg k) k) = Some s" "pair_call e k s = (Inr q, t)" "r_ok q"
      "common_args e (stop_phone_key_locked e (cfg k) k) \<in> range Inr"
      "fst (save_config e ((cfg k)\<lparr>vin_state := Paired\<rparr>)
         ((stop_phone_key_locked e (cfg k) k)\<lparr>sess := Some t\<rparr>)) = Inr ()"
      "pair e busy k = pair_start e (outcome_of q)
         ((snd (save_config e ((cfg k)\<lparr>vin_state := Paired\<rparr>)
            ((stop_phone_key_locked e (cfg k) k)\<lparr>sess := Some t\<rparr>)))\<lparr>cfg := (cfg k)\<lparr>vin_state := Paired\<rparr>\<rparr>)"
proof -
  let ?k1 = "stop_phone_key_locked e (cfg k) k"
  show thesis
  proof (cases "busy \<or> sess k = None \<or> ensure_writable (cfg k) \<noteq> Inr ()")
    case True
    then have "\<exists>r. pair e busy k = (r, k) \<and> (\<forall>out m. r \<noteq> Inr (True, out, m))"
      by (cases "ensure_writable (cfg k)") (auto simp: pair_def split: option.splits)
    then show thesis using refused by blast
  next
    case open_gate: False
    show thesis
    proof (cases "common_args e ?k1")
      case (Inl err)
      then show thesis using open_gate stopped [of "Inl err"] by (auto simp: pair_def Let_def)
    next
      case args: (Inr as)
      show thesis
      proof (cases "d_public (disk ?k1) = None \<or> sess ?k1 = None")
        case True
        then show thesis using open_gate args
          by (auto simp: pair_def Let_def intro!: stopped)
      next
        case False
        then obtain s where s: "sess ?k1 = Some s" by (cases "sess ?k1") simp_all
        obtain ro t where call: "pair_call e k s = (ro, t)" by fastforce
        let ?k2 = "?k1\<lparr>sess := Some t\<rparr>"
        let ?sv = "save_config e ((cfg k)\<lparr>vin_state := Paired\<rparr>) ?k2"
        have run: "pair e busy k =
          (case ro of
             Inl err \<Rightarrow> (Inl (SessionUnavailable (''persistent session failed during pairing: ''
                          @ session_error_text err)), ?k2)
           | Inr r \<Rightarrow>
               if \<not> r_ok r then (Inr (False, r_stdout r, trim (r_stderr r)), ?k2)
               else (case fst ?sv of
                       Inl err \<Rightarrow> (Inl (SessionUnavailable
                          (''paired key but could not persist phone-key state: ''
                           @ io_error_text err)), snd ?sv)
                     | Inr _ \<Rightarrow> pair_start e (outcome_of r)
                         ((snd ?sv)\<lparr>cfg := (cfg k)\<lparr>vin_state := Paired\<rparr>\<rparr>)))"
          using open_gate args False s call
          by (auto simp: pair_def Let_def case_prod_beta pair_call_def outcome_of_def split: sum.splits)
        show thesis
        proof (cases ro)
          case (Inl err)
          then show thesis using run answered [OF s call] by simp
        next
          case ok: (Inr r)
          show thesis
          proof (cases "r_ok r")
            case False
            then show thesis using run ok answered [OF s call] by simp
          next
            case True
            show thesis
            proof (cases "fst ?sv")
              case (Inl io)
              then show thesis using run ok True call unsaved [OF s _ True _ Inl] by simp
            next
              case (Inr u)
              then show thesis using run ok True call args saved [OF s _ True] by (cases u) auto
            qed
          qed
        qed
      qed
    qed
  qed
qed

lemma core_inv_pair [inv_intros]:
  assumes "core_inv k" shows "core_inv (snd (pair e busy k))"
proof -
  let ?k1 = "stop_phone_key_locked e (cfg k) k"
  have k1: "core_inv ?k1" using assms by (rule core_inv_stop)
  have k2: "core_inv (?k1\<lparr>sess := Some t\<rparr>)"
    if "sess ?k1 = Some s" "pair_call e k s = (r, t)" for s t r
    using core_inv_call [OF k1 that(1)] that(2) by (metis pair_call_def snd_conv)
  have k3: "core_inv ((snd (save_config e c k2))\<lparr>cfg := (cfg k2)\<lparr>vin_state := x\<rparr>\<rparr>)"
    if "core_inv k2" "\<not> phone_key_started k2" for k2 c x
    using core_inv_unpair [of "snd (save_config e c k2)" x] that by simp
  show ?thesis
  proof (cases rule: pair_cases [of e busy k])
    case (saved s t q)
    then show ?thesis using k3 [OF k2 [OF saved(1,2)]] by (simp add: core_inv_pair_start)
  qed (use assms k1 k2 in simp_all)
qed

lemma next_event_core:
  "\<exists>s'. snd (next_event e k) = k\<lparr>sess := s'\<rparr> \<and> s' = map_option (snd \<circ> poll_event) (sess k)"
  by (cases "sess k") (auto simp: next_event_def Let_def case_prod_beta)

lemma core_inv_next_event [inv_intros]:
  assumes "core_inv k" shows "core_inv (snd (next_event e k))"
proof (cases "sess k")
  case None
  then have "snd (next_event e k) = k" using next_event_core [of e k] by auto
  then show ?thesis using assms by simp
next
  case (Some s)
  then have "snd (next_event e k) = k\<lparr>sess := Some (snd (poll_event s))\<rparr>"
    using next_event_core [of e k] by auto
  then show ?thesis using core_inv_sess [OF assms Some] assms Some inv_poll
    by (auto simp: core_inv_def frame_simps)
qed

lemma core_inv_recover [inv_intros]:
  "core_inv k \<Longrightarrow> core_inv (snd (recover_presence e ev k))"
  by (auto simp: recover_presence_def case_prod_beta Let_def core_inv_start core_inv_invalidate
      split: sum.splits)

lemma core_inv_poll [inv_intros]:
  assumes "core_inv k" shows "core_inv (snd (poll_phone_key_event e k))"
  using core_inv_next_event [OF assms, of e]
  by (auto simp: poll_phone_key_event_def case_prod_beta Let_def core_inv_recover core_inv_unstarted
      split: option.splits)

lemma core_inv_resume [inv_intros]:
  assumes "core_inv k" shows "core_inv (handle_resume e k)"
proof -
  have "core_inv (k\<lparr>phone_key_started := False,
      sess := map_option (\<lambda>s. invalidate (clear_events s)) (sess k)\<rparr>)"
    using assms inv_invalidate by (auto simp: core_inv_def)
  then show ?thesis by (simp add: handle_resume_def core_inv_start)
qed

lemma core_inv_set_config [inv_intros]:
  assumes "core_inv k" shows "core_inv (snd (set_config e v m kn ct mt k))"
proof (cases "validate_config v m kn ct mt")
  case (Inr u)
  let ?c1 = "(cfg k)\<lparr>vin := trim v, model := to_lower (trim m), key_name := trim kn,
      connect_timeout_sec := ct, command_timeout_sec := mt\<rparr>"
  let ?c = "if vin (cfg k) \<noteq> trim v then ?c1\<lparr>vin_state := Unpaired\<rparr> else ?c1"
  let ?k1 = "snd (save_config e ?c k)"
  have "wf_config ?c1" using Inr applied_validated by (cases u) simp
  then have "wf_config ?c" by (auto simp: wf_config_def)
  moreover have "core_inv (stop_phone_key_locked e (cfg k) ?k1)" using assms by (simp add: core_inv_stop)
  ultimately have "core_inv ((stop_phone_key_locked e (cfg k) ?k1)\<lparr>cfg := ?c\<rparr>)"
    by (simp add: core_inv_def)
  then have "core_inv (invalidate_session ((stop_phone_key_locked e (cfg k) ?k1)\<lparr>cfg := ?c\<rparr>))"
    by (rule core_inv_invalidate)
  moreover have "core_inv ?k1" using assms by simp
  ultimately show ?thesis using Inr
    by (cases "vin (cfg k) = trim v")
      (auto simp: set_config_def Let_def case_prod_beta core_inv_start split: sum.splits)
qed (use assms in \<open>simp add: set_config_def\<close>)

text \<open>Between operations the reader thread of the child goes on.\<close>

definition core_reader :: "op_env \<Rightarrow> wire \<Rightarrow> core \<Rightarrow> core" where
  "core_reader e w k = k\<lparr>sess := map_option (reader_step (e_parse e) w) (sess k)\<rparr>"

lemma core_inv_reader [inv_intros]: "core_inv k \<Longrightarrow> core_inv (core_reader e w k)"
  by (auto simp: core_reader_def core_inv_def inv_reader_step frame_simps)

datatype core_op =
    Run bool string "string list"
  | Generate bool
  | Pair_key bool
  | Poll_event
  | Start
  | Stop
  | Resume
  | Configure string string string int int
  | Share url_lib bool string
  | Reader wire

fun core_step :: "op_env \<times> core_op \<Rightarrow> core \<Rightarrow> core" where
  "core_step (e, Run busy c as) k = fst (snd (core_run e busy c as k))"
| "core_step (e, Generate force) k = fst (snd (generate_key e force k))"
| "core_step (e, Pair_key busy) k = snd (pair e busy k)"
| "core_step (e, Poll_event) k = snd (poll_phone_key_event e k)"
| "core_step (e, Start) k = snd (start_phone_key e k)"
| "core_step (e, Stop) k = stop_phone_key e k"
| "core_step (e, Resume) k = handle_resume e k"
| "core_step (e, Configure v m kn ct mt) k = snd (set_config e v m kn ct mt k)"
| "core_step (e, Share lib busy shared) k = snd (share_destination e lib busy shared k)"
| "core_step (e, Reader w) k = core_reader e w k"

fun step_log :: "op_env \<times> core_op \<Rightarrow> core \<Rightarrow> exec_log" where
  "step_log (e, Run busy c as) k = snd (snd (core_run e busy c as k))"
| "step_log (e, Generate force) k = snd (snd (generate_key e force k))"
| "step_log (e, op) k = []"

lemma core_inv_step [inv_intros]: "core_inv k \<Longrightarrow> core_inv (core_step x k)"
  by (cases "(x, k)" rule: core_step.cases)
    (simp_all add: core_inv_run core_inv_generate core_inv_pair core_inv_poll core_inv_start
      stop_phone_key_def core_inv_stop core_inv_resume core_inv_set_config core_inv_share core_inv_reader)

lemma core_inv_steps [inv_intros]: "core_inv k \<Longrightarrow> core_inv (fold core_step xs k)"
  by (induction xs arbitrary: k) (simp_all add: core_inv_step)

lemma core_new_cases:
  assumes "core_new e r d s = Inr k"
  obtains c where "fst (load (e_parse e) r) = Inr c" "wf_config c"
    "cfg k = (let c1 = (if version c = V0 \<and> vin_state c = Unpaired \<and> vin c \<noteq> [] \<and> key_files d
                        then c\<lparr>vin_state := Paired\<rparr> else c)
              in if version c1 < CURRENT then c1\<lparr>version := CURRENT\<rparr> else c1)"
    "sess k = s" "\<not> phone_key_started k" "\<not> phone_key_enabled k" "phone_key_retry_at k = None"
    "d_private (disk k) = d_private d" "d_public (disk k) = d_public d"
  using assms by (auto simp: core_new_def Let_def load_wf split: sum.splits)

lemma core_inv_new [inv_intros]:
  assumes "core_new e r d s = Inr k" "s = None \<or> s = Some (new_session b)"
  shows "core_inv k"
  using assms(1)
proof (cases rule: core_new_cases)
  case (1 c)
  have "wf_config (cfg k)" using 1 by (auto simp: wf_config_def Let_def)
  moreover have "\<forall>t. sess k = Some t \<longrightarrow> session_inv t" using 1 assms(2) inv_new by auto
  ultimately show ?thesis using 1 by (simp add: core_inv_def)
qed

end
