(* ===== verification/Core_Frames.thy ===== *)
theory Core_Frames
  imports Core_Control
begin

text \<open>
  What every operation of the core leaves alone: the backend of the session, and the agreement of a
  running child with the settings in memory.  Both are carried through each operation of
  \<^verbatim>\<open>Core_Control\<close> and then through any sequence of them.
\<close>

section \<open>The backend never changes and bluez never falls back\<close>

lemma backend_call [frame_simps]:
  "sess k = Some s \<Longrightarrow> backend_of (k\<lparr>sess := Some (snd (call_session e ce c as conf s))\<rparr>) = backend_of k"
  by (simp add: backend_of_def frame_simps)

lemma backend_upd [simp]:
  "backend_of (k\<lparr>cfg := c\<rparr>) = backend_of k" "backend_of (k\<lparr>disk := d\<rparr>) = backend_of k"
  "backend_of (k\<lparr>phone_key_started := b\<rparr>) = backend_of k"
  "backend_of (k\<lparr>phone_key_enabled := b\<rparr>) = backend_of k"
  "backend_of (k\<lparr>phone_key_retry_at := r\<rparr>) = backend_of k"
  "backend_of (snd (save_config e c k)) = backend_of k"
  by (simp_all add: backend_of_def)

lemma backend_run [frame_simps]: "backend_of (fst (snd (core_run e busy c as k))) = backend_of k"
  by (auto simp: core_run_def Let_def frame_simps case_prod_beta
      split: sum.splits option.splits)

lemma backend_start [frame_simps]:
  assumes "core_inv k" shows "backend_of (snd (start_phone_key e k)) = backend_of k"
  using assms by (cases rule: start_cases [where e = e]) (simp_all add: backend_of_def)

lemma backend_reset [frame_simps]: "backend_of (snd (reset_enrollment e k)) = backend_of k"
  by (auto simp: reset_enrollment_def Let_def case_prod_beta frame_simps split: sum.splits)

lemma backend_keygen [frame_simps]:
  "backend_of (snd (generate_key_one_shot e k)) = backend_of k"
  "sess k = Some s \<Longrightarrow> backend_of (snd (generate_key_session e force s k)) = backend_of k"
  by (auto simp: generate_key_one_shot_def generate_key_session_def Let_def case_prod_beta
      backend_of_def frame_simps split: sum.splits option.splits)

lemma backend_generate [frame_simps]:
  "backend_of (fst (snd (generate_key e force k))) = backend_of k"
  using backend_keygen backend_reset [where e = e and k = k]
  by (auto simp: generate_key_def Let_def case_prod_beta frame_simps split: sum.splits option.splits)

lemma backend_pair [frame_simps]:
  assumes "core_inv k" shows "backend_of (snd (pair e busy k)) = backend_of k"
proof -
  let ?k1 = "stop_phone_key_locked e (cfg k) k"
  have call: "backend_of (?k1\<lparr>sess := Some t\<rparr>) = backend_of k"
    if "sess ?k1 = Some s" "pair_call e k s = (r, t)" for s t r
    using backend_call [OF that(1)] that(2) stop_backend [of e "cfg k" k]
    by (metis pair_call_def snd_conv)
  show ?thesis
  proof (cases rule: pair_cases [of e busy k])
    case (saved s t q)
    let ?k3 = "(snd (save_config e ((cfg k)\<lparr>vin_state := Paired\<rparr>) (?k1\<lparr>sess := Some t\<rparr>)))
      \<lparr>cfg := (cfg k)\<lparr>vin_state := Paired\<rparr>\<rparr>"
    have "core_inv (?k1\<lparr>sess := Some t\<rparr>)"
      using core_inv_call [OF core_inv_stop [OF assms] saved(1)] saved(2) by (metis pair_call_def snd_conv)
    then have "core_inv ?k3"
      using core_inv_unpair [of "snd (save_config e ((cfg k)\<lparr>vin_state := Paired\<rparr>) (?k1\<lparr>sess := Some t\<rparr>))"]
      by simp
    then have "backend_of (snd (pair_start e (outcome_of q) ?k3)) = backend_of ?k3"
      by (auto simp: pair_start_def case_prod_beta frame_simps split: sum.splits)
    then show ?thesis using saved call [OF saved(1,2)] by simp
  qed (use call in \<open>simp_all add: frame_simps\<close>)
qed

lemma backend_next_event [frame_simps]: "backend_of (snd (next_event e k)) = backend_of k"
  using next_event_core [of e k]
  by (auto simp: backend_of_def frame_simps option.map_comp comp_def)

lemma backend_poll [frame_simps]:
  assumes "core_inv k" shows "backend_of (snd (poll_phone_key_event e k)) = backend_of k"
proof -
  have "core_inv (invalidate_session ((snd (next_event e k))\<lparr>phone_key_started := False\<rparr>))"
    using core_inv_next_event [OF assms] by (simp add: core_inv_invalidate core_inv_unstarted)
  from backend_start [OF this, of e] show ?thesis
    by (auto simp: poll_phone_key_event_def recover_presence_def case_prod_beta Let_def frame_simps
        split: option.splits sum.splits)
qed

lemma backend_resume [frame_simps]:
  assumes "core_inv k" shows "backend_of (handle_resume e k) = backend_of k"
proof -
  let ?k = "k\<lparr>phone_key_started := False, sess := map_option (\<lambda>s. invalidate (clear_events s)) (sess k)\<rparr>"
  have "core_inv ?k" using assms inv_invalidate by (auto simp: core_inv_def)
  moreover have "backend_of ?k = backend_of k"
    by (simp add: backend_of_def option.map_comp comp_def frame_simps)
  ultimately show ?thesis by (simp add: handle_resume_def frame_simps)
qed

text \<open>Every way \<^const>\<open>set_config\<close> can go, with the state it leaves.\<close>

definition new_config :: "string \<Rightarrow> string \<Rightarrow> string \<Rightarrow> int \<Rightarrow> int \<Rightarrow> config \<Rightarrow> config" where
  "new_config v m kn ct mt c =
    (let c1 = c\<lparr>vin := trim v, model := to_lower (trim m), key_name := trim kn,
                connect_timeout_sec := ct, command_timeout_sec := mt\<rparr>
     in if vin c \<noteq> trim v then c1\<lparr>vin_state := Unpaired\<rparr> else c1)"

definition switched :: "op_env \<Rightarrow> config \<Rightarrow> core \<Rightarrow> core" where
  "switched e c k = invalidate_session
     ((stop_phone_key_locked e (cfg k) (snd (save_config e c k)))\<lparr>cfg := c\<rparr>)"

lemma set_config_cases:
  obtains (invalid) err where "validate_config v m kn ct mt = Inl err"
      "set_config e v m kn ct mt k = (Inl (Op_config err), k)"
  | (unsaved) io where "validate_config v m kn ct mt = Inr ()"
      "fst (save_config e (new_config v m kn ct mt (cfg k)) k) = Inl io"
      "set_config e v m kn ct mt k
        = (Inl (Persist io), snd (save_config e (new_config v m kn ct mt (cfg k)) k))"
  | (saved) "validate_config v m kn ct mt = Inr ()"
      "fst (save_config e (new_config v m kn ct mt (cfg k)) k) = Inr ()"
      "set_config e v m kn ct mt k
        = (Inr (), if vin (cfg k) \<noteq> trim v then switched e (new_config v m kn ct mt (cfg k)) k
                   else snd (start_phone_key e (switched e (new_config v m kn ct mt (cfg k)) k)))"
proof (cases "validate_config v m kn ct mt")
  case (Inl err)
  then show thesis using invalid by (simp add: set_config_def)
next
  case valid: (Inr u)
  have u: "u = ()" by simp
  let ?sv = "save_config e (new_config v m kn ct mt (cfg k)) k"
  have run: "set_config e v m kn ct mt k =
    (case fst ?sv of
       Inl err \<Rightarrow> (Inl (Persist err), snd ?sv)
     | Inr _ \<Rightarrow> (Inr (), if vin (cfg k) \<noteq> trim v then switched e (new_config v m kn ct mt (cfg k)) k
                   else snd (start_phone_key e (switched e (new_config v m kn ct mt (cfg k)) k))))"
    using valid u
    by (cases "vin (cfg k) = trim v")
      (auto simp: set_config_def Let_def case_prod_beta new_config_def switched_def split: sum.splits)
  show thesis
  proof (cases "fst ?sv")
    case (Inl io)
    then show thesis using unsaved valid u run by simp
  next
    case (Inr w)
    then show thesis using saved valid u run by simp
  qed
qed

lemma new_config_wf:
  assumes "validate_config v m kn ct mt = Inr ()"
  shows "wf_config (new_config v m kn ct mt c)"
  using applied_validated [of v m kn ct mt c] assms
  by (auto simp: new_config_def Let_def wf_config_def)

lemma switched_simps [simp]:
  "cfg (switched e c k) = c" "\<not> phone_key_started (switched e c k)"
  "\<not> phone_key_enabled (switched e c k)" "phone_key_retry_at (switched e c k) = None"
  "\<not> presence_active (switched e c k)" "disk (switched e c k) = disk (snd (save_config e c k))"
  "backend_of (switched e c k) = backend_of k"
  by (simp_all add: switched_def frame_simps)

lemma core_inv_switched [inv_intros]:
  assumes "core_inv k" "wf_config c" shows "core_inv (switched e c k)"
proof -
  have "core_inv (stop_phone_key_locked e (cfg k) (snd (save_config e c k)))"
    using assms by (simp add: core_inv_stop)
  then have "core_inv ((stop_phone_key_locked e (cfg k) (snd (save_config e c k)))\<lparr>cfg := c\<rparr>)"
    using assms by (simp add: core_inv_def)
  then show ?thesis unfolding switched_def by (rule core_inv_invalidate)
qed

lemma backend_set_config [frame_simps]:
  assumes "core_inv k" shows "backend_of (snd (set_config e v m kn ct mt k)) = backend_of k"
proof (cases rule: set_config_cases [of v m kn ct mt e k])
  case saved
  then show ?thesis
    using core_inv_switched [OF assms new_config_wf [OF saved(1)]] by (simp add: frame_simps)
qed simp_all

lemma backend_share [frame_simps]:
  "backend_of (snd (share_destination e lib busy shared k)) = backend_of k"
  using share_sess [of e lib busy shared k] by (auto simp: frame_simps)

lemma backend_step [frame_simps]:
  "core_inv k \<Longrightarrow> backend_of (core_step x k) = backend_of k"
  by (cases "(x, k)" rule: core_step.cases)
    (simp_all add: frame_simps stop_phone_key_def, simp add: core_reader_def backend_of_def
      option.map_comp comp_def frame_simps)

lemma backend_steps [frame_simps]:
  "core_inv k \<Longrightarrow> backend_of (fold core_step xs k) = backend_of k"
  by (induction xs arbitrary: k) (simp_all add: frame_simps core_inv_step)

lemma bluez_step_log: "backend_of k = Some ''bluez'' \<Longrightarrow> step_log x k = []"
proof (cases "(x, k)" rule: step_log.cases)
  case (2 e force k')
  assume b: "backend_of k = Some ''bluez''"
  let ?rk = "if force \<or> d_private (disk k) = None then reset_enrollment e k else (Inr (), k)"
  have "backend_of (snd ?rk) = Some ''bluez''" using b by (simp add: frame_simps)
  then obtain s where "sess (snd ?rk) = Some s" by (auto simp: backend_of_def)
  then show ?thesis using 2
    by (auto simp: generate_key_def Let_def case_prod_beta split: sum.splits)
qed (auto simp: core_run_def Let_def backend_of_def split: sum.splits prod.splits)

section \<open>The child is the one the settings ask for\<close>

definition child_is :: "string list \<Rightarrow> session \<Rightarrow> bool" where
  "child_is argv s = (\<forall>ch. s_child s = Some ch \<longrightarrow> ch_argv ch = argv)"

lemma child_is_none [simp]: "s_child s = None \<Longrightarrow> child_is argv s"
  by (simp add: child_is_def)

lemma child_is_simps [simp]:
  "child_is argv (s\<lparr>s_next_id := n\<rparr>) = child_is argv s"
  "child_is argv (s\<lparr>s_presence := b\<rparr>) = child_is argv s"
  "child_is argv (s\<lparr>s_events := q\<rparr>) = child_is argv s"
  "child_is argv (transport_failed (kill_child s))" "child_is argv (invalidate s)"
  by (simp_all add: child_is_def invalidate_def)

lemma child_is_reader [frame_simps]: "child_is argv s \<Longrightarrow> child_is argv (reader_step parse w s)"
  by (auto simp: child_is_def reader_step_def reader_frame_def reader_end_def
      split: wire.splits option.splits frame.splits)

lemma child_is_send [frame_simps]: "child_is argv s \<Longrightarrow> child_is argv (send_request j s)"
  by (auto simp: child_is_def send_request_def)

lemma child_is_await [frame_simps]:
  "child_is argv s \<Longrightarrow> child_is argv (snd (await_response parse ws s))"
  by (rule await_invariant) (auto simp: frame_simps, simp add: child_is_def)

lemma child_is_reap [frame_simps]: "child_is argv s \<Longrightarrow> child_is argv (reap_dead s)"
  by (auto simp: reap_dead_def split: option.splits)

lemma child_is_ensure:
  "child_is argv s \<Longrightarrow> ensure_child parse argv e s = Inr t \<Longrightarrow> child_is argv t"
  by (auto simp: child_is_def ensure_child_def accept_and_handshake_def
      split: option.splits sum.splits spawn_env.splits if_splits)

lemma child_is_run [frame_simps]:
  assumes "child_is argv s" shows "child_is argv (snd (session_run parse e c as argv s))"
proof (cases rule: session_run_cases [of parse e c as argv s])
  case no_child
  then show ?thesis using assms by (simp add: frame_simps)
next
  case (running s1)
  have s1: "child_is argv s1" using child_is_ensure [OF child_is_reap [OF assms] running(1)] .
  show ?thesis using running(2)
  proof (cases rule: exchange_cases [where parse = parse and e = e and c = c and as = as])
    case (failed err t)
    then show ?thesis using running(3) by simp
  next
    case (answered r t)
    have "child_is argv t"
      using child_is_await [OF child_is_send, of argv "s1\<lparr>s_next_id := s_next_id s1 + 1\<rparr>" parse "ce_lines e"]
        s1 answered(1) by (metis child_is_simps(1) snd_conv)
    then show ?thesis using answered running(3) by simp
  qed
qed

definition settings_argv :: "string \<Rightarrow> config \<Rightarrow> string \<Rightarrow> string list" where
  "settings_argv d c b = spawn_argv b (vin c) (private_key_path d) (connect_timeout_sec c)
     (command_timeout_sec c)"

definition argv_inv :: "string \<Rightarrow> core \<Rightarrow> bool" where
  "argv_inv d k = (\<forall>s. sess k = Some s \<longrightarrow> child_is (settings_argv d (cfg k) (s_backend s)) s)"

lemma child_is_call:
  assumes "s_backend s = b" "child_is (settings_argv (e_state_dir e) c b) s"
  shows "child_is (settings_argv (e_state_dir e) c b) (snd (call_session e ce n as c s))"
  using assms by (auto simp: call_session_def child_argv_def settings_argv_def frame_simps)

lemma argv_call:
  assumes "argv_inv (e_state_dir e) k" "sess k = Some s" "c = cfg k"
  shows "argv_inv (e_state_dir e) (k\<lparr>sess := Some (snd (call_session e ce n as c s))\<rparr>)"
  using assms child_is_call by (simp add: argv_inv_def frame_simps)

lemma settings_argv_state [simp]: "settings_argv d (c\<lparr>vin_state := x\<rparr>) b = settings_argv d c b"
  by (simp add: settings_argv_def)

lemma argv_upd [simp]:
  "argv_inv d (k\<lparr>disk := f\<rparr>) = argv_inv d k" "argv_inv d (k\<lparr>phone_key_started := b\<rparr>) = argv_inv d k"
  "argv_inv d (k\<lparr>phone_key_enabled := b\<rparr>) = argv_inv d k"
  "argv_inv d (k\<lparr>phone_key_retry_at := r\<rparr>) = argv_inv d k"
  "argv_inv d (k\<lparr>cfg := (cfg k)\<lparr>vin_state := x\<rparr>\<rparr>) = argv_inv d k"
  "argv_inv d (snd (save_config e c k)) = argv_inv d k"
  "argv_inv d (invalidate_session k)"
  by (auto simp: argv_inv_def invalidate_session_def)

lemma argv_run [frame_simps]:
  "argv_inv (e_state_dir e) k \<Longrightarrow> argv_inv (e_state_dir e) (fst (snd (core_run e busy c as k)))"
  using argv_call [of e k]
  by (auto simp: core_run_def Let_def case_prod_beta split: sum.splits option.splits)

lemma argv_stop [frame_simps]:
  assumes "argv_inv (e_state_dir e) k"
  shows "argv_inv (e_state_dir e) (stop_phone_key_locked e (cfg k) k)"
proof -
  have "argv_inv (e_state_dir e) (k\<lparr>phone_key_enabled := x, phone_key_retry_at := y, sess := Some t,
      phone_key_started := z\<rparr>) = argv_inv (e_state_dir e) (k\<lparr>sess := Some t\<rparr>)" for t x y z
    by (simp add: argv_inv_def)
  moreover have "argv_inv (e_state_dir e) (k\<lparr>sess := Some (invalidate t)\<rparr>)" for t
    by (simp add: argv_inv_def)
  moreover have "argv_inv (e_state_dir e) (k\<lparr>phone_key_enabled := x, phone_key_retry_at := y\<rparr>)" for x y
    using assms by (simp add: argv_inv_def)
  ultimately show ?thesis
    using argv_call [OF assms]
    by (auto simp: stop_phone_key_locked_def Let_def case_prod_beta split: sum.splits option.splits)
qed

lemma argv_start [frame_simps]:
  assumes "argv_inv (e_state_dir e) k"
  shows "argv_inv (e_state_dir e) (snd (start_phone_key e k))"
  using assms
  by (auto simp: start_phone_key_def Let_def case_prod_beta schedule_phone_key_retry_def
      argv_inv_def frame_simps child_is_call split: option.splits sum.splits)

lemma argv_reset [frame_simps]:
  "argv_inv d k \<Longrightarrow> argv_inv d (snd (reset_enrollment e k))"
  by (auto simp: reset_enrollment_def Let_def case_prod_beta split: sum.splits)

lemma argv_keygen [frame_simps]:
  assumes "argv_inv (e_state_dir e) k"
  shows "argv_inv (e_state_dir e) (snd (generate_key_one_shot e k))"
    "sess k = Some s \<Longrightarrow> argv_inv (e_state_dir e) (snd (generate_key_session e force s k))"
proof -
  show "argv_inv (e_state_dir e) (snd (generate_key_one_shot e k))" using assms
    by (simp add: generate_key_one_shot_def Let_def split: option.splits)
  assume s: "sess k = Some s"
  have eq: "argv_inv d (k\<lparr>sess := x, disk := y\<rparr>) = argv_inv d (k\<lparr>sess := x\<rparr>)" for d x y
    by (simp add: argv_inv_def)
  show "argv_inv (e_state_dir e) (snd (generate_key_session e force s k))"
    using argv_call [OF assms s refl]
    by (auto simp: generate_key_session_def Let_def case_prod_beta eq split: sum.splits)
qed

lemma argv_generate [frame_simps]:
  assumes "argv_inv (e_state_dir e) k"
  shows "argv_inv (e_state_dir e) (fst (snd (generate_key e force k)))"
proof -
  let ?rk = "if force \<or> d_private (disk k) = None then reset_enrollment e k else (Inr (), k)"
  have k0: "argv_inv (e_state_dir e) (snd ?rk)" using assms argv_reset by auto
  show ?thesis
    using argv_keygen(1) [OF k0] argv_keygen(2) [OF k0] k0 assms
    by (auto simp: generate_key_def Let_def case_prod_beta split: sum.splits option.splits)
qed

lemma argv_pair [frame_simps]:
  assumes "argv_inv (e_state_dir e) k"
  shows "argv_inv (e_state_dir e) (snd (pair e busy k))"
proof -
  let ?k1 = "stop_phone_key_locked e (cfg k) k"
  have call: "argv_inv (e_state_dir e) (?k1\<lparr>sess := Some t\<rparr>)"
    if "sess ?k1 = Some s" "pair_call e k s = (r, t)" for s t r
    using argv_call [OF argv_stop [OF assms] that(1)] that(2) by (metis pair_call_def snd_conv stop_flags(4))
  show ?thesis
  proof (cases rule: pair_cases [of e busy k])
    case (saved s t q)
    let ?k3 = "(snd (save_config e ((cfg k)\<lparr>vin_state := Paired\<rparr>) (?k1\<lparr>sess := Some t\<rparr>)))
      \<lparr>cfg := (cfg k)\<lparr>vin_state := Paired\<rparr>\<rparr>"
    have "argv_inv (e_state_dir e) ?k3"
      using argv_upd(5) [where k = "snd (save_config e ((cfg k)\<lparr>vin_state := Paired\<rparr>) (?k1\<lparr>sess := Some t\<rparr>))"]
        call [OF saved(1,2)] by simp
    then show ?thesis using saved
      by (auto simp: pair_start_def case_prod_beta frame_simps split: sum.splits)
  qed (use call assms in \<open>simp_all add: frame_simps\<close>)
qed

lemma argv_next_event [frame_simps]: "argv_inv d k \<Longrightarrow> argv_inv d (snd (next_event e k))"
  using next_event_core [of e k]
  by (cases "sess k") (auto simp: argv_inv_def frame_simps poll_event_def split: list.splits)

lemma argv_poll [frame_simps]:
  assumes "argv_inv (e_state_dir e) k"
  shows "argv_inv (e_state_dir e) (snd (poll_phone_key_event e k))"
proof -
  have "argv_inv (e_state_dir e) (snd (start_phone_key e
      (invalidate_session ((snd (next_event e k))\<lparr>phone_key_started := False\<rparr>))))"
    by (simp add: frame_simps)
  then show ?thesis using argv_next_event [OF assms, of e]
    by (auto simp: poll_phone_key_event_def recover_presence_def case_prod_beta Let_def
        split: option.splits sum.splits)
qed

lemma argv_resume [frame_simps]: "argv_inv (e_state_dir e) (handle_resume e k)"
proof -
  have "argv_inv (e_state_dir e)
    (k\<lparr>phone_key_started := False, sess := map_option (\<lambda>s. invalidate (clear_events s)) (sess k)\<rparr>)"
    by (auto simp: argv_inv_def)
  then show ?thesis by (simp add: handle_resume_def frame_simps)
qed

lemma argv_set_config [frame_simps]:
  assumes "argv_inv (e_state_dir e) k"
  shows "argv_inv (e_state_dir e) (snd (set_config e v m kn ct mt k))"
proof (cases rule: set_config_cases [of v m kn ct mt e k])
  case saved
  have "argv_inv (e_state_dir e) (switched e c k)" for c by (simp add: switched_def)
  then show ?thesis using saved by (simp add: frame_simps)
qed (use assms in simp_all)

lemma argv_reader [frame_simps]: "argv_inv d k \<Longrightarrow> argv_inv d (core_reader e w k)"
  by (auto simp: argv_inv_def core_reader_def frame_simps)

lemma argv_share [frame_simps]:
  "argv_inv (e_state_dir e) k \<Longrightarrow> argv_inv (e_state_dir e) (snd (share_destination e lib busy shared k))"
  using share_sess [of e lib busy shared k] argv_call [of e k] by auto

lemma argv_step [frame_simps]:
  "argv_inv d k \<Longrightarrow> e_state_dir (fst x) = d \<Longrightarrow> argv_inv d (core_step x k)"
  by (cases "(x, k)" rule: core_step.cases) (auto simp: frame_simps stop_phone_key_def)

lemma argv_steps:
  "argv_inv d k \<Longrightarrow> list_all (\<lambda>x. e_state_dir (fst x) = d) xs \<Longrightarrow> argv_inv d (fold core_step xs k)"
  by (induction xs arbitrary: k) (simp_all add: argv_step)

end
