(* ===== verification/Core_Properties.thy ===== *)
theory Core_Properties
  imports Core_Frames
begin

text \<open>
  What the control core promises: over any sequence of its operations (no one-shot binary under BlueZ,
  a child always of the settings in memory, the phone key only for a paired vehicle), and operation by
  operation (a command, a key replacement, pairing, new settings, recovery of a lost presence, start-up).
\<close>

section \<open>What a request leaves on the wire\<close>

definition sent_to :: "session \<Rightarrow> json list" where
  "sent_to s = (case s_child s of None \<Rightarrow> [] | Some c \<Rightarrow> if ch_alive c then ch_sent c else [])"

definition sent_is :: "json list \<Rightarrow> session \<Rightarrow> bool" where
  "sent_is xs s = (\<forall>ch. s_child s = Some ch \<longrightarrow> ch_sent ch = xs)"

lemma sent_is_await: "sent_is xs s \<Longrightarrow> sent_is xs (snd (await_response parse ws s))"
  by (rule await_invariant)
    (auto simp: sent_is_def reader_step_def reader_frame_def reader_end_def
      split: wire.splits option.splits frame.splits)

lemma sent_ensure:
  assumes "ensure_child parse argv e (reap_dead s) = Inr t" shows "sent_is (sent_to s) t"
  using assms
  by (auto simp: sent_is_def sent_to_def ensure_child_def reap_dead_def accept_and_handshake_def
      transport_failed_def kill_child_def
      split: option.splits sum.splits spawn_env.splits if_splits)

lemma session_run_sends:
  assumes "session_run parse e c as argv s = (Inr r, t)"
  obtains ch where "s_child t = Some ch" "ch_alive ch"
    "ch_sent ch = sent_to s @ [request_json (nat_digits (unat (s_next_id s))) c as]"
proof (cases rule: session_run_cases [of parse e c as argv s])
  case no_child
  then show thesis using assms by simp
next
  case (running s1)
  have n: "s_next_id s1 = s_next_id s"
    using running(1) by (auto simp: ensure_child_def reap_dead_def transport_failed_def kill_child_def
        split: option.splits sum.splits if_splits)
  let ?q = "request_json (nat_digits (unat (s_next_id s))) c as"
  have "sent_is (sent_to s) s1" using sent_ensure [OF running(1)] .
  then have q: "sent_is (sent_to s @ [?q]) (send_request ?q (s1\<lparr>s_next_id := s_next_id s1 + 1\<rparr>))"
    by (auto simp: sent_is_def send_request_def)
  have on: "is_alive t" using session_run_ok [OF assms] by blast
  show thesis using running(2)
  proof (cases rule: exchange_cases [where parse = parse and e = e and c = c and as = as])
    case (failed err t')
    then show thesis using assms running(3) by simp
  next
    case (answered r' t')
    have "sent_is (sent_to s @ [?q]) t'"
      using sent_is_await [OF q, of parse "ce_lines e"] answered(1) n by simp
    then have "sent_is (sent_to s @ [?q]) t"
      using answered(5) running(3) assms by (auto simp: sent_is_def split: if_splits)
    then show thesis using that on by (auto simp: sent_is_def is_alive_def split: option.splits)
  qed
qed

section \<open>Properties\<close>

text \<open>
  C2: With the BlueZ backend the helper never executes a one-shot binary: whatever operations follow a
  start, in whatever order and however they fail, no step starts tesla-control or tesla-keygen, which
  would take the radio from every other connection.
\<close>

theorem bluez_never_execs:
  assumes "core_new e0 r d (Some (new_session ''bluez'')) = Inr k"
  shows "step_log x (fold core_step xs k) = []"
proof -
  have "sess k = Some (new_session ''bluez'')" using assms by (cases rule: core_new_cases) auto
  then have "backend_of k = Some ''bluez''" by (simp add: backend_of_def new_session_def)
  moreover have "core_inv k" using core_inv_new [OF assms] by blast
  ultimately show ?thesis by (intro bluez_step_log) (simp add: frame_simps)
qed

text \<open>
  C3: No command ever reaches a child started for other settings: after any operations, a child that
  exists was started with the VIN, the timeouts and the key file the configuration in memory names.
\<close>

theorem child_matches_settings:
  assumes "core_new e0 r d (Some (new_session b)) = Inr k"
    and "list_all (\<lambda>x. e_state_dir (fst x) = dir) xs"
    and "sess (fold core_step xs k) = Some s" "s_child s = Some ch"
  shows "ch_argv ch = spawn_argv b (vin (cfg (fold core_step xs k))) (private_key_path dir)
           (connect_timeout_sec (cfg (fold core_step xs k)))
           (command_timeout_sec (cfg (fold core_step xs k)))"
proof -
  have k: "sess k = Some (new_session b)" "core_inv k"
    using assms(1) core_inv_new [OF assms(1)] by (auto elim: core_new_cases)
  then have "argv_inv dir k" by (simp add: argv_inv_def new_session_def)
  from argv_steps [OF this assms(2)] have "ch_argv ch = settings_argv dir (cfg (fold core_step xs k)) (s_backend s)"
    using assms(3,4) by (simp add: argv_inv_def child_is_def)
  moreover have "s_backend s = b"
    using backend_steps [OF k(2), of xs] k(1) assms(3) by (simp add: backend_of_def new_session_def)
  ultimately show ?thesis by (simp add: settings_argv_def)
qed

text \<open>
  C38: After any operations the phone key is marked started only for a paired, configured vehicle on
  the BlueZ backend, a retry is pending only while the phone key is wanted, and the configuration in
  memory is one the settings page accepts.
\<close>

theorem phone_key_only_when_paired:
  assumes "core_new e0 r d s0 = Inr k" "s0 = None \<or> s0 = Some (new_session b)"
    and "k' = fold core_step xs k"
  shows "(phone_key_started k' \<longrightarrow> vin_state (cfg k') = Paired \<and> vin (cfg k') \<noteq> []
            \<and> phone_key_enabled k' \<and> s0 = Some (new_session ''bluez''))
    \<and> (phone_key_retry_at k' \<noteq> None \<longrightarrow> phone_key_enabled k') \<and> wf_config (cfg k')"
proof -
  have k: "core_inv k" "sess k = s0"
    using assms(1,2) core_inv_new [OF assms(1,2)] by (auto elim: core_new_cases)
  have inv: "core_inv k'" using core_inv_steps [OF k(1)] assms(3) by simp
  have "backend_of k' = backend_of k" using backend_steps [OF k(1)] assms(3) by simp
  then have "phone_key_started k' \<Longrightarrow> map_option s_backend s0 = Some ''bluez''"
  proof -
    assume "phone_key_started k'"
    then have "backend_of k' = Some ''bluez''" using inv by (auto simp: core_inv_def backend_of_def)
    then have "backend_of k = Some ''bluez''" using \<open>backend_of k' = backend_of k\<close> by simp
    then show ?thesis using k(2) by (simp add: backend_of_def)
  qed
  then have "phone_key_started k' \<Longrightarrow> s0 = Some (new_session ''bluez'')"
    using assms(2) by (auto simp: new_session_def)
  then show ?thesis using inv by (auto simp: core_inv_def)
qed

text \<open>
  C1: On the BlueZ backend a command that is answered was in the catalog, had arguments in range, found
  a VIN and a private key, and was written to a live child exactly once; one that is refused leaves the
  core as it was; a transport failure leaves presence off; none of them touches settings or files.
\<close>

theorem run_exact:
  assumes "core_inv k" "sess k = Some s" "s_backend s = ''bluez''"
  shows "case core_run e busy c as k of
      (Inr out, k', execs) \<Rightarrow>
        execs = [] \<and> cfg k' = cfg k \<and> disk k' = disk k
        \<and> is_known_command c \<and> validate_arg_ranges c as = Inr () \<and> \<not> busy
        \<and> vin (cfg k) \<noteq> [] \<and> d_private (disk k) \<noteq> None
        \<and> (\<exists>t ch. sess k' = Some t \<and> s_child t = Some ch \<and> ch_alive ch
             \<and> ch_sent ch = sent_to s @ [request_json (nat_digits (unat (s_next_id s))) c as])
    | (Inl err, k', execs) \<Rightarrow>
        execs = [] \<and> cfg k' = cfg k \<and> disk k' = disk k
        \<and> (k' = k \<or> (\<exists>m. err = SessionUnavailable m) \<and> \<not> presence_active k')"
proof (cases "is_known_command c \<and> validate_arg_ranges c as = Inr () \<and> \<not> busy \<and> common_args e k \<in> range Inr")
  case False
  then show ?thesis
    by (cases "validate_arg_ranges c as"; cases "common_args e k") (auto simp: core_run_def)
next
  case True
  then obtain common where common: "common_args e k = Inr common" by auto
  then have conf: "vin (cfg k) \<noteq> []" "d_private (disk k) \<noteq> None"
    by (auto simp: common_args_def split: if_splits)
  obtain res t where call: "call_session e (e_main e) c as (cfg k) s = (res, t)" by fastforce
  show ?thesis
  proof (cases res)
    case (Inl err)
    have "\<not> is_presence_active t"
      using call_error_inactive call Inl assms by (auto simp: core_inv_def)
    then show ?thesis using True common assms call Inl
      by (simp add: core_run_def Let_def presence_active_def)
  next
    case (Inr q)
    obtain ch where "s_child t = Some ch" "ch_alive ch"
      "ch_sent ch = sent_to s @ [request_json (nat_digits (unat (s_next_id s))) c as]"
      using session_run_sends call Inr by (metis call_session_def)
    then show ?thesis using True common conf assms call Inr
      by (simp add: core_run_def Let_def)
  qed
qed

lemma call_keeps_inactive:
  assumes "session_inv s" "\<not> is_presence_active s" "c \<noteq> ''presence-start''"
  shows "\<not> is_presence_active (snd (call_session e ce c as conf s))"
  using link.only_start_activates [OF assms(1,3), of "e_parse e" "(ce, as, child_argv e conf s)"] assms(2)
  by (auto simp: call_session_def session_request_snd)

lemma presence_active_sess: "presence_active k \<longleftrightarrow> (\<exists>s. sess k = Some s \<and> is_presence_active s)"
  by (simp add: presence_active_def split: option.splits)

definition childless :: "core \<Rightarrow> bool" where
  "childless k = (\<forall>s. sess k = Some s \<longrightarrow> s_child s = None)"

lemma childless_invalidate [simp]: "childless (invalidate_session k)"
  by (auto simp: childless_def invalidate_session_def invalidate_def)

definition unpaired_everywhere :: "op_env \<Rightarrow> core \<Rightarrow> bool" where
  "unpaired_everywhere e k =
    (vin_state (cfg k) = Unpaired \<and> d_config (disk k) = Some (e_print e (config_json (cfg k)))
     \<and> \<not> phone_key_started k \<and> \<not> phone_key_enabled k \<and> \<not> presence_active k)"

lemma unpaired_reset: "reset_enrollment e k = (Inr u, k1) \<Longrightarrow> unpaired_everywhere e k1"
  using reset_ok by (simp add: unpaired_everywhere_def)

lemma unpaired_invalidate [intro]:
  "unpaired_everywhere e k \<Longrightarrow> unpaired_everywhere e (invalidate_session k)"
  by (simp add: unpaired_everywhere_def)

lemma unpaired_one_shot:
  "unpaired_everywhere e k \<Longrightarrow> unpaired_everywhere e (snd (generate_key_one_shot e k))"
  by (auto simp: unpaired_everywhere_def generate_key_one_shot_def Let_def presence_active_def
      split: option.splits)

lemma unpaired_session:
  assumes "unpaired_everywhere e k" "sess k = Some s" "session_inv s"
  shows "unpaired_everywhere e (snd (generate_key_session e force s k))"
proof -
  have "\<not> is_presence_active s"
    using assms(1,2) by (simp add: unpaired_everywhere_def presence_active_def)
  then have "\<not> is_presence_active
      (snd (call_session e (e_main e) ''keygen'' (keygen_args force) (cfg k) s))"
    using call_keeps_inactive assms(3) by simp
  then show ?thesis using assms(1)
    by (auto simp: unpaired_everywhere_def generate_key_session_def Let_def case_prod_beta
        presence_active_def split: sum.splits)
qed

text \<open>
  C4: A key that replaces another never inherits its enrolment.  Forced or first generation either
  stops before the key is touched, because the reset could not be saved, or leaves the vehicle
  unpaired in memory and on disk with the phone key off; when it succeeds no child that read the old
  key is left.
\<close>

theorem key_replacement_unpairs:
  assumes "core_inv k" "force \<or> d_private (disk k) = None"
    and "generate_key e force k = (r, k', execs)"
  shows "(\<exists>io. r = Inl (Persist io)) \<and> d_private (disk k') = d_private (disk k) \<and> cfg k' = cfg k
           \<and> execs = []
         \<or> unpaired_everywhere e k' \<and> (\<forall>p. r = Inr p \<longrightarrow> childless k')"
proof (cases "ensure_writable (cfg k)")
  case (Inl err)
  then show ?thesis using assms(3) by (auto simp: generate_key_def)
next
  case (Inr w)
  obtain r0 k0 where reset: "reset_enrollment e k = (r0, k0)" by fastforce
  show ?thesis
  proof (cases r0)
    case (Inl err)
    have "k' = k0" "r = Inl err" "execs = []"
      using assms(2,3) Inr reset Inl by (auto simp: generate_key_def Let_def)
    moreover have "cfg k0 = cfg k \<and> d_private (disk k0) = d_private (disk k) \<and> (\<exists>io. err = Persist io)"
      using reset Inl by (auto simp: reset_enrollment_def Let_def case_prod_beta split: sum.splits)
    ultimately show ?thesis by simp
  next
    case ok: (Inr u)
    have up: "unpaired_everywhere e k0" using unpaired_reset reset ok by blast
    have inv: "core_inv k0" using core_inv_reset [OF assms(1), of e] reset by simp
    show ?thesis
    proof (cases "sess k0")
      case None
      then show ?thesis using assms(2,3) Inr reset ok unpaired_one_shot [OF up]
        by (auto simp: generate_key_def Let_def case_prod_beta split: sum.splits)
    next
      case (Some s)
      have "unpaired_everywhere e (snd (generate_key_session e force s k0))"
        using unpaired_session [OF up Some] inv Some by (simp add: core_inv_def)
      then show ?thesis using assms(2,3) Inr reset ok Some
        by (auto simp: generate_key_def Let_def case_prod_beta split: sum.splits)
    qed
  qed
qed

text \<open>
  C33: Pairing reports success only with the enrolment confirmed and saved and the phone key running;
  every other outcome leaves the settings alone, except that an enrolment already confirmed and saved
  stays when only the phone key fails to start.
\<close>

theorem pair_enrolls:
  assumes "core_inv k" "pair e busy k = (r, k')"
  shows "case r of
      Inr (True, out, m) \<Rightarrow>
        cfg k' = (cfg k)\<lparr>vin_state := Paired\<rparr> \<and> phone_key_started k' \<and> presence_active k'
        \<and> d_config (disk k') = Some (e_print e (config_json (cfg k')))
        \<and> (\<exists>s q t. pair_call e k s = (Inr q, t) \<and> r_ok q \<and> out = r_stdout q)
    | Inr (False, out, m) \<Rightarrow>
        cfg k' = cfg k
        \<or> cfg k' = (cfg k)\<lparr>vin_state := Paired\<rparr> \<and> \<not> phone_key_started k'
          \<and> d_config (disk k') = Some (e_print e (config_json (cfg k')))
    | Inl err \<Rightarrow> cfg k' = cfg k"
proof (cases rule: pair_cases [of e busy k])
  case (saved s t q)
  let ?k2 = "(stop_phone_key_locked e (cfg k) k)\<lparr>sess := Some t\<rparr>"
  let ?k3 = "(snd (save_config e ((cfg k)\<lparr>vin_state := Paired\<rparr>) ?k2))
    \<lparr>cfg := (cfg k)\<lparr>vin_state := Paired\<rparr>\<rparr>"
  have disk: "d_config (disk ?k3) = Some (e_print e (config_json (cfg ?k3)))"
    using save_config_ok [OF saved(5)] by simp
  have "core_inv ?k2"
    using core_inv_call [OF core_inv_stop [OF assms(1)] saved(1)] saved(2) by (metis pair_call_def snd_conv)
  then have inv: "core_inv ?k3"
    using core_inv_unpair [of "snd (save_config e ((cfg k)\<lparr>vin_state := Paired\<rparr>) ?k2)"] by simp
  have off: "\<not> phone_key_started ?k3" by simp
  show ?thesis
    using inv
  proof (cases rule: start_cases [where e = e])
    case (started s' t')
    then show ?thesis using saved assms(2) disk
      by (auto simp: pair_start_def outcome_of_def presence_active_def split: prod.splits)
  qed (use saved assms(2) disk off in \<open>auto simp: pair_start_def outcome_of_def\<close>)
qed (use assms(2) in \<open>auto split: sum.splits bool.splits prod.splits\<close>)

lemma start_after_off:
  assumes "core_inv k" "\<not> presence_active k" "\<not> phone_key_started k"
  shows "cfg (snd (start_phone_key e k)) = cfg k \<and> disk (snd (start_phone_key e k)) = disk k
    \<and> (presence_active (snd (start_phone_key e k)) \<longrightarrow> phone_key_started (snd (start_phone_key e k)))"
  using assms(1)
proof (cases rule: start_cases [where e = e])
  case (failed s t msg)
  then have "\<not> is_presence_active t" using assms(2) by (auto simp: presence_active_sess)
  then show ?thesis using failed by (simp add: presence_active_def)
qed (use assms in \<open>auto simp: presence_active_def\<close>)


section \<open>Recovery\<close>

definition wants_retry :: "op_env \<Rightarrow> core \<Rightarrow> session_event option \<Rightarrow> bool" where
  "wants_retry e k ev =
    (phone_key_enabled k \<and> \<not> pending (e_now2 e) (phone_key_retry_at k)
     \<and> (\<exists>v. ev = Some v \<and> ev_kind v = ''presence_stopped''))"

lemma next_event_fst:
  assumes "sess k = Some s" "phone_key_enabled k" "due (e_now1 e) (phone_key_retry_at k)"
  shows "(s_events s = [] \<longrightarrow> (\<exists>v. fst (next_event e k) = Some v \<and> ev_kind v = ''presence_stopped''))
    \<and> (\<forall>v q. s_events s = v # q \<longrightarrow> (\<exists>w. fst (next_event e k) = Some w \<and> ev_kind w = ev_kind v))"
  using assms by (auto simp: next_event_def Let_def poll_event_def case_prod_beta)

lemma poll_cases:
  obtains (quiet) "fst (next_event e k) = None"
      "poll_phone_key_event e k = (None, snd (next_event e k))"
  | (other) ev where "fst (next_event e k) = Some ev" "ev_kind ev \<noteq> ''presence_stopped''"
      "poll_phone_key_event e k = (Some ev, snd (next_event e k))"
  | (held) ev where "fst (next_event e k) = Some ev" "ev_kind ev = ''presence_stopped''"
      "\<not> wants_retry e (snd (next_event e k)) (Some ev)"
      "poll_phone_key_event e k = (Some ev, (snd (next_event e k))\<lparr>phone_key_started := False\<rparr>)"
  | (recovers) ev where "fst (next_event e k) = Some ev" "ev_kind ev = ''presence_stopped''"
      "wants_retry e (snd (next_event e k)) (Some ev)"
      "poll_phone_key_event e k = (let (v, k') = recover_presence e ev
         ((snd (next_event e k))\<lparr>phone_key_started := False\<rparr>) in (Some v, k'))"
proof (cases "next_event e k")
  case (Pair evo k1)
  show thesis
  proof (cases evo)
    case None
    then show thesis using quiet Pair by (simp add: poll_phone_key_event_def)
  next
    case (Some ev)
    consider "ev_kind ev \<noteq> ''presence_stopped''"
      | "ev_kind ev = ''presence_stopped''" "\<not> wants_retry e k1 (Some ev)"
      | "ev_kind ev = ''presence_stopped''" "wants_retry e k1 (Some ev)" by blast
    then show thesis
    proof cases
      case 1
      then show thesis using other [of ev] Pair Some by (simp add: poll_phone_key_event_def)
    next
      case 2
      then show thesis using held [of ev] Pair Some
        by (auto simp: poll_phone_key_event_def Let_def wants_retry_def)
    next
      case 3
      then show thesis using recovers [of ev] Pair Some
        by (auto simp: poll_phone_key_event_def Let_def wants_retry_def)
    qed
  qed
qed

text \<open>
  A lost presence is never forgotten.  When a stopped event is taken while the phone key is wanted
  and no retry is pending, and the vehicle is still paired on the BlueZ backend, then either presence
  runs again and the event says so, or the event stays a stop and another attempt is due five seconds
  after this one failed.
\<close>

theorem poll_recovers:
  assumes "core_inv k" "backend_of k = Some ''bluez''" "eligible k"
    and "wants_retry e k (fst (next_event e k))"
    and "poll_phone_key_event e k = (ev, k')"
  shows "\<exists>v. ev = Some v \<and>
    (ev_kind v = ''presence_restarted'' \<and> ev_error v = [] \<and> phone_key_started k'
       \<and> presence_active k' \<and> phone_key_retry_at k' = None
     \<or> ev_kind v = ''presence_stopped'' \<and> \<not> phone_key_started k' \<and> phone_key_enabled k'
       \<and> phone_key_retry_at k' = Some (e_now3 e + 5000))"
proof -
  let ?k1 = "snd (next_event e k)"
  have k1: "phone_key_enabled ?k1 = phone_key_enabled k" "phone_key_retry_at ?k1 = phone_key_retry_at k"
    "eligible ?k1 = eligible k" "core_inv ?k1" "backend_of ?k1 = backend_of k"
    using next_event_core [of e k] core_inv_next_event [OF assms(1), of e]
      backend_next_event [of e k]
    by (auto simp: eligible_def)
  then have "wants_retry e ?k1 (fst (next_event e k))" using assms(4) by (simp add: wants_retry_def)
  then obtain v0 where v0: "ev_kind v0 = ''presence_stopped''"
    and run: "(ev, k') = (let (v, k') = recover_presence e v0 (?k1\<lparr>phone_key_started := False\<rparr>) in (Some v, k'))"
    using assms(5) by (cases rule: poll_cases [of e k]) (auto simp: wants_retry_def)
  let ?k2 = "invalidate_session (?k1\<lparr>phone_key_started := False\<rparr>)"
  have inv: "core_inv ?k2" using k1(4) by (simp add: core_inv_invalidate core_inv_unstarted)
  have b: "backend_of ?k2 = Some ''bluez''" using k1(5) assms(2) by (simp add: frame_simps)
  then have s: "sess ?k2 \<noteq> None" by (auto simp: backend_of_def)
  have el: "eligible ?k2" using k1(3) assms(3) by (simp add: eligible_def)
  show ?thesis
    using inv
  proof (cases rule: start_cases [where e = e])
    case already
    then show ?thesis by simp
  next
    case (refused err)
    then show ?thesis using b s el by auto
  next
    case (started s t)
    then show ?thesis using run by (simp add: recover_presence_def presence_active_def)
  next
    case (failed s t msg)
    then show ?thesis using run v0
      by (auto simp: recover_presence_def Let_def)
  qed
qed

text \<open>The start would be answered in this state: what the vehicle side must offer for recovery.\<close>

definition start_answered :: "op_env \<Rightarrow> core \<Rightarrow> bool" where
  "start_answered e k =
    (\<forall>s. sess k = Some s \<longrightarrow>
      (\<exists>r t. call_session e (e_start e) ''presence-start'' [] (cfg k) (invalidate s) = (Inr r, t)
             \<and> r_ok r))"

lemma recover_succeeds:
  assumes "core_inv k" "backend_of k = Some ''bluez''" "eligible k" "start_answered e k"
    "\<not> phone_key_started k"
  shows "phone_key_started (snd (start_phone_key e (invalidate_session k)))
    \<and> presence_active (snd (start_phone_key e (invalidate_session k)))"
proof -
  have inv: "core_inv (invalidate_session k)" using assms(1) by (rule core_inv_invalidate)
  obtain s0 where s0: "sess k = Some s0" "s_backend s0 = ''bluez''"
    using assms(2) by (auto simp: backend_of_def)
  obtain r t where call: "call_session e (e_start e) ''presence-start'' [] (cfg k) (invalidate s0)
      = (Inr r, t)" "r_ok r"
    using assms(4) s0 by (auto simp: start_answered_def)
  have "is_presence_active t"
    using call_start_active [OF call] inv_invalidate by blast
  moreover have "start_phone_key e (invalidate_session k) =
      (Inr (), (invalidate_session k)\<lparr>sess := Some t, phone_key_enabled := True,
         phone_key_started := True, phone_key_retry_at := None\<rparr>)"
    using assms(3,5) s0 call
    by (simp add: start_phone_key_def Let_def invalidate_session_def eligible_def frame_simps)
  ultimately show ?thesis by (simp add: presence_active_def)
qed

definition retry_ready :: "op_env \<Rightarrow> core \<Rightarrow> bool" where
  "retry_ready e k =
    (\<exists>d. phone_key_retry_at k = Some d \<and> d \<le> e_now1 e \<and> d \<le> e_now2 e)"

lemma poll_recovers_or_pops:
  assumes "core_inv k" "sess k = Some s" "s_backend s = ''bluez''" "eligible k"
    "phone_key_enabled k" "retry_ready e k" "start_answered e k"
  shows "phone_key_started (snd (poll_phone_key_event e k)) \<and> presence_active (snd (poll_phone_key_event e k))
    \<or> (\<exists>v q. s_events s = v # q \<and> snd (poll_phone_key_event e k) = k\<lparr>sess := Some (s\<lparr>s_events := q\<rparr>)\<rparr>)"
proof -
  let ?k1 = "snd (next_event e k)"
  have due: "due (e_now1 e) (phone_key_retry_at k)" "\<not> pending (e_now2 e) (phone_key_retry_at k)"
    using assms(6) by (auto simp: retry_ready_def due_def pending_def)
  have k1: "?k1 = k\<lparr>sess := Some (snd (poll_event s))\<rparr>"
    using next_event_core [of e k] assms(2) by auto
  have inv1: "core_inv ?k1" using assms(1) by (rule core_inv_next_event)
  note nx = next_event_fst [OF assms(2,5) due(1)]
  show ?thesis
  proof (cases rule: poll_cases [of e k])
    case quiet
    then show ?thesis using nx by (cases "s_events s") auto
  next
    case (other ev)
    then obtain v q where "s_events s = v # q" using nx by (cases "s_events s") auto
    then show ?thesis using other k1 by (auto simp: poll_event_def)
  next
    case (held ev)
    then show ?thesis using assms(5) due k1 by (simp add: wants_retry_def)
  next
    case (recovers ev)
    have "invalidate (snd (poll_event s)) = invalidate s"
      by (auto simp: invalidate_def kill_child_def poll_event_def split: list.splits)
    then have "start_answered e (?k1\<lparr>phone_key_started := False\<rparr>)"
      using assms(2,7) k1 by (simp add: start_answered_def)
    moreover have "eligible (?k1\<lparr>phone_key_started := False\<rparr>)" using assms(4) k1 by (simp add: eligible_def)
    moreover have "backend_of (?k1\<lparr>phone_key_started := False\<rparr>) = Some ''bluez''"
      using assms(2,3) k1 by (simp add: backend_of_def frame_simps)
    ultimately have "phone_key_started (snd (start_phone_key e (invalidate_session (?k1\<lparr>phone_key_started := False\<rparr>))))
      \<and> presence_active (snd (start_phone_key e (invalidate_session (?k1\<lparr>phone_key_started := False\<rparr>))))"
      using recover_succeeds core_inv_unstarted [OF inv1] by simp
    then show ?thesis using recovers(4)
      by (auto simp: recover_presence_def case_prod_beta Let_def split: sum.splits)
  qed
qed

text \<open>
  C30: Recovery arrives.  With the retry deadline past, a paired vehicle and a session that would answer
  a start, presence runs again after at most one poll more than there are events queued, whatever those
  events are.
\<close>

theorem presence_comes_back:
  assumes "core_inv k" "sess k = Some s" "s_backend s = ''bluez''" "eligible k" "phone_key_enabled k"
    and "length es = Suc (length (s_events s))"
    and "\<forall>e \<in> set es. retry_ready e k \<and> start_answered e k"
  shows "\<exists>n \<le> length es.
    phone_key_started (fold (\<lambda>e k. snd (poll_phone_key_event e k)) (take n es) k)
    \<and> presence_active (fold (\<lambda>e k. snd (poll_phone_key_event e k)) (take n es) k)"
  using assms
proof (induction es arbitrary: k s)
  case (Cons e es)
  consider "phone_key_started (snd (poll_phone_key_event e k)) \<and> presence_active (snd (poll_phone_key_event e k))"
    | v q where "s_events s = v # q" "snd (poll_phone_key_event e k) = k\<lparr>sess := Some (s\<lparr>s_events := q\<rparr>)\<rparr>"
    using poll_recovers_or_pops [OF Cons.prems(1-5), of e] Cons.prems(7) by auto
  then show ?case
  proof cases
    case 1
    then show ?thesis by (intro exI [of _ 1]) simp
  next
    case 2
    let ?k1 = "k\<lparr>sess := Some (s\<lparr>s_events := q\<rparr>)\<rparr>"
    have "core_inv ?k1" using core_inv_poll [OF Cons.prems(1), of e] 2 by simp
    moreover have "invalidate (s\<lparr>s_events := q\<rparr>) = invalidate s"
      by (simp add: invalidate_def kill_child_def)
    then have "\<forall>e \<in> set es. retry_ready e ?k1 \<and> start_answered e ?k1"
      using Cons.prems(2,7) by (auto simp: retry_ready_def start_answered_def)
    moreover have "eligible ?k1" using Cons.prems(4) by (simp add: eligible_def)
    ultimately obtain n where "n \<le> length es"
      "phone_key_started (fold (\<lambda>e k. snd (poll_phone_key_event e k)) (take n es) ?k1)
       \<and> presence_active (fold (\<lambda>e k. snd (poll_phone_key_event e k)) (take n es) ?k1)"
      using Cons.IH [of ?k1 "s\<lparr>s_events := q\<rparr>"] Cons.prems 2 by auto
    then show ?thesis using 2 by (intro exI [of _ "Suc n"]) simp
  qed
qed simp

text \<open>
  Starting up upgrades an old file and touches nothing newer.  The stored enrolment is kept, except
  that a first-format file with a VIN and both key files counts as paired; the version becomes the
  current one unless it is newer, and then the file is left exactly as it is.
\<close>

theorem startup_migration:
  assumes "core_new e r d s = Inr k" "fst (load (e_parse e) r) = Inr c"
  shows "vin_state (cfg k) =
      (if version c = V0 \<and> vin c \<noteq> [] \<and> key_files d then Paired else vin_state c)
    \<and> version (cfg k) = max (version c) CURRENT
    \<and> cfg k = c\<lparr>version := version (cfg k), vin_state := vin_state (cfg k)\<rparr>
    \<and> (CURRENT < version c \<longrightarrow> cfg k = c \<and> disk k = d)
    \<and> (disk k)\<lparr>d_config := d_config d\<rparr> = d"
proof -
  have "V0 < CURRENT" by (simp add: less_config_version_def CURRENT_def)
  then show ?thesis using assms
    by (cases "vin_state c")
      (auto simp: core_new_def Let_def max_def not_less)
qed

section \<open>A concrete core\<close>

text \<open>
  The child of the examples answers every request: its first line is \<^verbatim>\<open>h\<close>, read as a hello,
  and any other line is read as a successful response to the request of that number.
\<close>

definition sample_parse :: "string \<Rightarrow> json option" where
  "sample_parse l =
    (if l = ''h'' then Some (JN_obj [(''type'', JN_str ''hello''), (''v'', JN_int 1)])
     else Some (JN_obj [(''type'', JN_str ''response''), (''id'', JN_str l), (''ok'', JN_bool True),
                        (''stdout'', JN_str ''done''), (''stderr'', JN_str []), (''exit_code'', JN_int 0)]))"

definition sample_call_env :: call_env where
  "sample_call_env = \<lparr>ce_spawn = First_line ''h'', ce_write_ok = True, ce_lines = [Line ''1'', Line ''2'']\<rparr>"

definition sample_env :: op_env where
  "sample_env = \<lparr>e_parse = sample_parse, e_print = (\<lambda>_. ''{}''), e_state_dir = ''/d'', e_save = W_none,
     e_stop = sample_call_env, e_main = sample_call_env, e_start = sample_call_env,
     e_binary = Bin_no_spawn, e_private_after = Some 227, e_public_after = Some ''PEM'',
     e_public_write = W_none, e_now1 = 9000, e_now2 = 9000, e_now3 = 9000\<rparr>"

definition sample_disk :: disk where
  "sample_disk = \<lparr>d_config = None, d_private = Some 227, d_public = Some ''PEM''\<rparr>"

definition sample_config :: config where
  "sample_config = default_config\<lparr>vin := ''5YJ3E1EA7KF000001'', vin_state := Paired\<rparr>"

definition sample_core :: core where
  "sample_core = \<lparr>cfg = sample_config, disk = sample_disk, sess = Some (new_session ''bluez''),
     phone_key_started = False, phone_key_enabled = True, phone_key_retry_at = Some 5000\<rparr>"

definition fresh_core :: core where
  "fresh_core = \<lparr>cfg = default_config, disk = sample_disk, sess = Some (new_session ''bluez''),
     phone_key_started = False, phone_key_enabled = False, phone_key_retry_at = None\<rparr>"

lemma fresh_core_new:
  "core_new sample_env R_missing sample_disk (Some (new_session ''bluez'')) = Inr fresh_core"
  by (simp add: core_new_def load_def fresh_core_def default_config_def CURRENT_def)

lemma wf_sample_config: "wf_config sample_config"
proof -
  let ?v = "vin sample_config"
  have "list_all (\<lambda>c. plain c \<and> vin_char c) ?v"
    by (simp add: sample_config_def plain_def vin_char_def byte_def is_digit_def is_upper_def)
  then have "trim ?v = ?v" "list_all vin_char ?v"
    by (auto simp: list_all_iff intro: trim_plain)
  moreover have "length ?v = 17" by (simp add: sample_config_def)
  ultimately have "trim ?v = ?v" "valid_vin ?v" by (auto simp: valid_vin_def vin_re_def)
  then show ?thesis using wf_default by (auto simp: wf_config_def sample_config_def)
qed

lemma core_inv_sample: "core_inv sample_core"
  by (simp add: core_inv_def sample_core_def wf_sample_config inv_new)

lemma sample_lines [table_simps]:
  "decode_line sample_parse ''h'' = Some (F_hello 1)"
  "decode_line sample_parse ''1'' = Some (F_response \<lparr>r_id = ''1'', r_ok = True, r_stdout = ''done'',
     r_stderr = [], r_exit_code = 0\<rparr>)"
proof -
  have "trim_end ''h'' = ''h''" "trim_end ''1'' = ''1''"
    by (simp_all add: trim_end_def strip_codes_plain [OF ws_codes_not_plain(2)] plain_def byte_def
        del: strip_codes.simps)
  then show "decode_line sample_parse ''h'' = Some (F_hello 1)"
    "decode_line sample_parse ''1'' = Some (F_response \<lparr>r_id = ''1'', r_ok = True, r_stdout = ''done'',
     r_stderr = [], r_exit_code = 0\<rparr>)"
    by (simp_all add: decode_line_def sample_parse_def frame_of_json_def frame_of_tag_def fields_from_def
        required_def de_str_def de_u32_def de_bool_def de_i32_def de_response_def in_i32_def)
qed

definition sample_reply :: response where
  "sample_reply = \<lparr>r_id = ''1'', r_ok = True, r_stdout = ''done'', r_stderr = [], r_exit_code = 0\<rparr>"

lemma sample_call [table_simps]:
  assumes "s_child s = None" "s_next_id s = 1"
  shows "call_session sample_env sample_call_env c as conf s =
    (Inr sample_reply,
     s\<lparr>s_child := Some \<lparr>ch_alive = True, ch_responses = [], ch_argv = child_argv sample_env conf s,
                        ch_sent = [request_json ''1'' c as]\<rparr>,
       s_next_id := 2,
       s_presence := (if c = ''presence-start'' then True else if c = ''presence-stop'' then False
                      else s_presence s)\<rparr>)"
proof -
  have id1: "nat_digits (Suc 0) = ''1''" by code_simp
  have parse: "e_parse sample_env = sample_parse" by (simp add: sample_env_def)
  show ?thesis using assms
    by (simp add: call_session_def session_run_def reap_dead_def ensure_child_def
        accept_and_handshake_def sample_call_env_def parse sample_lines PROTOCOL_VERSION_def
        exchange_def Let_def id1 await_line await_ready send_request_def reader_step_def reader_frame_def
        sample_reply_def)
qed

lemma sample_fields [simp]:
  "e_main sample_env = sample_call_env" "e_start sample_env = sample_call_env"
  "e_stop sample_env = sample_call_env" "e_parse sample_env = sample_parse"
  "e_state_dir sample_env = ''/d''" "e_save sample_env = W_none" "e_public_write sample_env = W_none"
  "e_private_after sample_env = Some 227" "e_now1 sample_env = 9000" "e_now2 sample_env = 9000"
  "e_now3 sample_env = 9000" "e_print sample_env j = ''{}''"
  by (simp_all add: sample_env_def)

theorem bluez_never_execs_witness:
  "step_log (sample_env, Generate True) (fold core_step [(sample_env, Generate False)] fresh_core) = []"
  by (rule bluez_never_execs [OF fresh_core_new])

theorem child_matches_settings_witness:
  "\<exists>s ch. sess (fold core_step [(sample_env, Generate False)] fresh_core) = Some s \<and> s_child s = Some ch
     \<and> ch_argv ch = spawn_argv ''bluez'' [] (private_key_path ''/d'') 20 5"
proof -
  let ?k = "fold core_step [(sample_env, Generate False)] fresh_core"
  have s: "\<exists>s ch. sess ?k = Some s \<and> s_child s = Some ch" and c: "cfg ?k = default_config"
    by (simp_all add: generate_key_def fresh_core_def ensure_writable_def default_config_def CURRENT_def
        sample_disk_def Let_def generate_key_session_def sample_call new_session_def sample_reply_def
        write_atomic_def)
  then obtain s ch where s: "sess ?k = Some s" "s_child s = Some ch" by blast
  have "ch_argv ch = spawn_argv ''bluez'' (vin (cfg ?k)) (private_key_path ''/d'')
      (connect_timeout_sec (cfg ?k)) (command_timeout_sec (cfg ?k))"
    by (rule child_matches_settings [OF fresh_core_new _ s]) simp
  then show ?thesis using s c by (auto simp: default_config_def)
qed

theorem phone_key_only_when_paired_witness:
  "wf_config (cfg (fold core_step [(sample_env, Generate True), (sample_env, Start)] fresh_core))"
  using phone_key_only_when_paired [OF fresh_core_new, of "''bluez''" _ "[(sample_env, Generate True), (sample_env, Start)]"]
  by blast

theorem run_exact_witness:
  "snd (snd (core_run sample_env False ''lock'' [] sample_core)) = []
   \<and> disk (fst (snd (core_run sample_env False ''lock'' [] sample_core))) = sample_disk"
  using run_exact [OF core_inv_sample, of "new_session ''bluez''", where e = sample_env and busy = False
      and c = "''lock''" and as = "[]"]
  by (auto simp: sample_core_def new_session_def split: prod.splits sum.splits)

theorem key_replacement_unpairs_witness:
  "unpaired_everywhere sample_env (fst (snd (generate_key sample_env True sample_core)))"
proof -
  obtain r k' execs where g: "generate_key sample_env True sample_core = (r, k', execs)"
    by (metis prod_cases3)
  have "vin_state (cfg (fst (snd (generate_key sample_env True sample_core)))) = Unpaired"
    by (simp add: generate_key_def reset_enrollment_def sample_core_def sample_config_def default_config_def
        ensure_writable_def CURRENT_def Let_def save_config_def save_def write_atomic_def
        stop_phone_key_locked_def invalidate_session_def generate_key_session_def new_session_def
        invalidate_def kill_child_def sample_call sample_reply_def)
  then have "cfg k' \<noteq> cfg sample_core" using g by (auto simp: sample_core_def sample_config_def)
  then show ?thesis
    using key_replacement_unpairs [OF core_inv_sample _ g] g by simp
qed

theorem pair_enrolls_witness:
  "vin_state (cfg (snd (pair sample_env False sample_core))) = Paired"
  using pair_enrolls [OF core_inv_sample, where e = sample_env and busy = False
      and r = "fst (pair sample_env False sample_core)" and k' = "snd (pair sample_env False sample_core)"]
  by (auto simp: sample_core_def sample_config_def split: sum.splits prod.splits bool.splits)


lemma sample_start [table_simps]:
  "backend_of sample_core = Some ''bluez''" "eligible sample_core" "retry_ready sample_env sample_core"
  "start_answered sample_env sample_core"
  by (simp_all add: backend_of_def eligible_def sample_core_def new_session_def sample_config_def
      sample_disk_def retry_ready_def start_answered_def sample_call invalidate_def kill_child_def
      sample_reply_def)

theorem poll_recovers_witness:
  "phone_key_enabled (snd (poll_phone_key_event sample_env sample_core))"
proof -
  obtain ev k' where p: "poll_phone_key_event sample_env sample_core = (ev, k')" by fastforce
  have "wants_retry sample_env sample_core (fst (next_event sample_env sample_core))"
    by (simp add: wants_retry_def sample_core_def next_event_def pending_def due_def poll_event_def
        new_session_def)
  from poll_recovers [OF core_inv_sample sample_start(1,2) this p]
  have "phone_key_started k' \<or> phone_key_enabled k'" by auto
  moreover have "core_inv k'" using core_inv_poll [OF core_inv_sample, of sample_env] p by simp
  ultimately show ?thesis using p by (auto simp: core_inv_def)
qed

theorem presence_comes_back_witness:
  "presence_active (snd (poll_phone_key_event sample_env sample_core))"
proof -
  have "\<exists>n \<le> length [sample_env].
      phone_key_started (fold (\<lambda>e k. snd (poll_phone_key_event e k)) (take n [sample_env]) sample_core)
      \<and> presence_active (fold (\<lambda>e k. snd (poll_phone_key_event e k)) (take n [sample_env]) sample_core)"
    by (rule presence_comes_back [OF core_inv_sample, of "new_session ''bluez''"])
      (simp_all add: sample_start, simp_all add: sample_core_def new_session_def)
  then obtain n where n: "n \<le> 1"
    "phone_key_started (fold (\<lambda>e k. snd (poll_phone_key_event e k)) (take n [sample_env]) sample_core)"
    "presence_active (fold (\<lambda>e k. snd (poll_phone_key_event e k)) (take n [sample_env]) sample_core)"
    by auto
  then have "n = 1" by (cases n) (simp_all add: sample_core_def)
  then show ?thesis using n by simp
qed

theorem startup_migration_witness:
  "version (cfg fresh_core) = CURRENT \<and> vin_state (cfg fresh_core) = Unpaired"
  using startup_migration [OF fresh_core_new, of default_config]
  by (simp add: load_def default_config_def CURRENT_def)

end
