(* ===== verification/Phone_Key_Presence.thy ===== *)
theory Phone_Key_Presence
  imports Link_Contracts
begin

text \<open>
  The proximity side of the session process, \<^verbatim>\<open>helper/session/main.go\<close>: the decision core of
  the presence loop, the quiet period between failed connects, the freshness tests on the last beacon
  and the last status, and the occupancy event.  Times are nanoseconds; a zero \<^verbatim>\<open>time.Time\<close> is
  \<^const>\<open>None\<close>.
\<close>

section \<open>Configuration and times\<close>

definition SECOND :: int where
  "SECOND = 1000000000"

record presence_config =
  near_rssi :: int
  near_confirm :: int
  far_timeout :: int
  scan_interval :: int

definition default_presence_config :: presence_config where
  "default_presence_config =
    \<lparr>near_rssi = - 90, near_confirm = 1, far_timeout = 15 * SECOND, scan_interval = 2 * SECOND\<rparr>"

section \<open>The decision core\<close>

datatype presence_action = Action_none | Action_arrive | Action_stay | Action_depart

definition presence_action_name :: "presence_action \<Rightarrow> string" where
  "presence_action_name a =
    (case a of Action_none \<Rightarrow> ''none'' | Action_arrive \<Rightarrow> ''arrive'' | Action_stay \<Rightarrow> ''stay''
     | Action_depart \<Rightarrow> ''depart'')"

text \<open>One observation: when, whether a live advertisement was seen, its strength, whether GATT is up.\<close>

record tick =
  t_now :: int
  t_seen :: bool
  t_rssi :: int
  t_gatt :: bool

record tracker =
  k_near :: bool
  k_consec :: int
  k_last :: int

definition strong :: "presence_config \<Rightarrow> tick \<Rightarrow> bool" where
  "strong c t = (t_seen t \<and> near_rssi c \<le> t_rssi t)"

definition presence_step :: "presence_config \<Rightarrow> tick \<Rightarrow> tracker \<Rightarrow> presence_action \<times> tracker" where
  "presence_step c t k =
    (let (last, consec) =
           (if strong c t then (t_now t, k_consec k + 1)
            else if t_gatt t then (t_now t, 0)
            else (k_last k, 0))
     in if \<not> k_near k \<and> near_confirm c \<le> consec
        then (Action_arrive, \<lparr>k_near = True, k_consec = 0, k_last = last\<rparr>)
        else if \<not> k_near k \<and> t_gatt t
        then (Action_arrive, \<lparr>k_near = True, k_consec = 0, k_last = last\<rparr>)
        else if k_near k \<and> far_timeout c < t_now t - last
        then (Action_depart, \<lparr>k_near = False, k_consec = 0, k_last = last\<rparr>)
        else if k_near k
        then (Action_stay, \<lparr>k_near = True, k_consec = consec, k_last = last\<rparr>)
        else (Action_none, \<lparr>k_near = k_near k, k_consec = consec, k_last = last\<rparr>))"

definition presence_live_near :: "bool \<Rightarrow> int \<Rightarrow> int \<Rightarrow> bool" where
  "presence_live_near live rssi near = (live \<and> near \<le> rssi)"

text \<open>The actions of a run of observations, and where it ends.\<close>

fun presence_run :: "presence_config \<Rightarrow> tick list \<Rightarrow> tracker \<Rightarrow> presence_action list \<times> tracker" where
  "presence_run c [] k = ([], k)"
| "presence_run c (t # ts) k =
    (let (a, k1) = presence_step c t k; (as, k2) = presence_run c ts k1 in (a # as, k2))"

section \<open>The quiet period after a failed connect\<close>

record quiet =
  q_until :: "int option"
  q_delay :: int

definition next_backoff :: "int \<Rightarrow> int" where
  "next_backoff b =
    (let b1 = b * 2;
         b2 = (if b1 < SECOND then SECOND else b1)
     in if b2 > 60 * SECOND then 60 * SECOND else b2)"

definition schedule_backoff :: "int \<Rightarrow> quiet \<Rightarrow> quiet" where
  "schedule_backoff now q =
    \<lparr>q_until = Some (now + next_backoff (q_delay q)), q_delay = next_backoff (q_delay q)\<rparr>"

definition clear_backoff :: "quiet \<Rightarrow> quiet" where
  "clear_backoff q = \<lparr>q_until = None, q_delay = 0\<rparr>"

definition backoff_active :: "int \<Rightarrow> quiet \<Rightarrow> bool" where
  "backoff_active now q = (case q_until q of None \<Rightarrow> False | Some t \<Rightarrow> now < t)"

text \<open>The same shape on the connect side, \<^verbatim>\<open>helper/session/bluez/gatt.go\<close>.\<close>

definition CONNECT_RETRY_INITIAL :: int where
  "CONNECT_RETRY_INITIAL = 500000000"

definition CONNECT_RETRY_MAX :: int where
  "CONNECT_RETRY_MAX = 3 * SECOND"

definition next_retry_delay :: "int \<Rightarrow> int" where
  "next_retry_delay b = (if b * 2 > CONNECT_RETRY_MAX then CONNECT_RETRY_MAX else b * 2)"

text \<open>
  The retry loop of a connect.  Each attempt ends well, fails for good or may be tried again; between
  attempts the loop waits, and stops when the deadline comes first.
\<close>

datatype 'c attempt = Connected 'c | Fatal string | Retry string

text \<open>The outcomes are the attempts in order, each with its duration; the delays waited are returned.\<close>

fun connect_loop ::
    "int \<Rightarrow> int \<Rightarrow> int \<Rightarrow> ('c attempt \<times> int) list \<Rightarrow> ('c attempt \<times> int list) option" where
  "connect_loop deadline now delay [] = None"
| "connect_loop deadline now delay ((Connected c, d) # xs) = Some (Connected c, [])"
| "connect_loop deadline now delay ((Fatal e, d) # xs) = Some (Fatal e, [])"
| "connect_loop deadline now delay ((Retry e, d) # xs) =
    (if deadline \<le> now + d + delay then Some (Fatal e, [])
     else map_option (\<lambda>(r, ws). (r, delay # ws))
            (connect_loop deadline (now + d + delay) (next_retry_delay delay) xs))"

section \<open>Freshness\<close>

definition VCSEC_PRIME_INTERVAL :: int where
  "VCSEC_PRIME_INTERVAL = 15 * SECOND"

definition INSIDE_SETTLE :: int where
  "INSIDE_SETTLE = 45 * SECOND"

datatype user_presence = Presence_unknown | Presence_absent | Presence_present

definition ready_for_inside :: "int option \<Rightarrow> int option \<Rightarrow> int \<Rightarrow> user_presence \<Rightarrow> bool" where
  "ready_for_inside since status now p =
    (case (since, status) of
       (Some c, Some s) \<Rightarrow>
         p = Presence_present \<and> \<not> now < c + INSIDE_SETTLE \<and> \<not> now < s
         \<and> now - s \<le> 2 * VCSEC_PRIME_INTERVAL
     | _ \<Rightarrow> False)"

definition prime_due :: "int option \<Rightarrow> int \<Rightarrow> bool" where
  "prime_due prev now = (case prev of None \<Rightarrow> True | Some t \<Rightarrow> VCSEC_PRIME_INTERVAL \<le> now - t)"

section \<open>Lemmas\<close>

interpretation presence_backoff: capped_backoff next_backoff SECOND "60 * SECOND"
  by unfold_locales (auto simp: next_backoff_def SECOND_def Let_def)

interpretation connect_backoff: capped_backoff next_retry_delay CONNECT_RETRY_INITIAL CONNECT_RETRY_MAX
  by unfold_locales
    (auto simp: next_retry_delay_def CONNECT_RETRY_INITIAL_def CONNECT_RETRY_MAX_def SECOND_def)

text \<open>An observation that keeps the vehicle near.\<close>

definition alive_tick :: "presence_config \<Rightarrow> tick \<Rightarrow> bool" where
  "alive_tick c t = (strong c t \<or> t_gatt t)"

lemma step_last:
  "k_last (snd (presence_step c t k)) = (if alive_tick c t then t_now t else k_last k)"
  by (simp add: presence_step_def alive_tick_def Let_def)

lemma step_near:
  "k_near (snd (presence_step c t k)) \<longleftrightarrow>
     (if k_near k then fst (presence_step c t k) \<noteq> Action_depart
      else fst (presence_step c t k) = Action_arrive)"
  by (simp add: presence_step_def Let_def)

lemma step_actions:
  "fst (presence_step c t k) = Action_arrive \<Longrightarrow> \<not> k_near k"
  "fst (presence_step c t k) = Action_depart \<Longrightarrow>
     k_near k \<and> \<not> alive_tick c t \<and> far_timeout c < t_now t - k_last k"
  if "0 \<le> far_timeout c"
  using that by (auto simp: presence_step_def alive_tick_def Let_def split: if_splits)

lemma run_append:
  "presence_run c (ts @ us) k =
    (fst (presence_run c ts k) @ fst (presence_run c us (snd (presence_run c ts k))),
     snd (presence_run c us (snd (presence_run c ts k))))"
  by (induction ts arbitrary: k) (simp_all add: case_prod_beta Let_def)

lemma run_length [simp]: "length (fst (presence_run c ts k)) = length ts"
  by (induction ts arbitrary: k) (simp_all add: case_prod_beta Let_def)

text \<open>The last sighting is the time of the last living observation, or the one at the start.\<close>

lemma run_last:
  "k_last (snd (presence_run c ts k)) =
    (case find (alive_tick c) (rev ts) of None \<Rightarrow> k_last k | Some t \<Rightarrow> t_now t)"
proof (induction ts rule: rev_induct)
  case (snoc t ts)
  then show ?case by (simp add: run_append step_last case_prod_beta Let_def)
qed simp

definition consec_spec :: "presence_config \<Rightarrow> tick list \<Rightarrow> nat" where
  "consec_spec c ts = length (takeWhile (strong c) (rev ts))"

text \<open>The counter never runs ahead of the strong observations just made.\<close>

lemma run_consec:
  assumes "0 \<le> k_consec k"
  shows "0 \<le> k_consec (snd (presence_run c ts k))
    \<and> k_consec (snd (presence_run c ts k)) \<le> k_consec k + int (length ts)
    \<and> (k_consec k = 0 \<longrightarrow> k_consec (snd (presence_run c ts k)) \<le> int (consec_spec c ts))"
proof (induction ts rule: rev_induct)
  case (snoc t ts)
  then show ?case using assms
    by (auto simp: run_append case_prod_beta Let_def presence_step_def consec_spec_def)
qed (use assms in \<open>simp add: consec_spec_def\<close>)

lemma find_first:
  "find P xs = Some v \<Longrightarrow> \<exists>pre post. xs = pre @ v # post \<and> (\<forall>w \<in> set pre. \<not> P w)"
proof (induction xs)
  case (Cons x xs)
  show ?case
  proof (cases "P x")
    case True
    then show ?thesis using Cons.prems by (intro exI [of _ "[]"] exI [of _ xs]) simp
  next
    case False
    then obtain pre post where "xs = pre @ v # post" "\<forall>w \<in> set pre. \<not> P w" using Cons by auto
    then show ?thesis using False by (intro exI [of _ "x # pre"] exI [of _ post]) simp
  qed
qed simp

text \<open>
  C35: The phone key is never released while the vehicle is in reach.  When a run of observations ends
  in a departure, the observations are in time order and the vehicle was near at the start, then no
  advertisement strong enough and no live link was observed within the last away timeout.
\<close>

theorem depart_only_after_silence:
  assumes "0 \<le> far_timeout c" "fst (presence_step c t (snd (presence_run c ts k))) = Action_depart"
    and "sorted (map t_now ts)"
    and "u \<in> set (ts @ [t])" "strong c u \<or> t_gatt u"
  shows "far_timeout c < t_now t - t_now u"
proof -
  let ?k = "snd (presence_run c ts k)"
  have d: "\<not> alive_tick c t" "far_timeout c < t_now t - k_last ?k"
    using step_actions(2) [OF assms(1,2)] by auto
  then have u: "u \<in> set ts" using assms(4,5) by (auto simp: alive_tick_def)
  obtain v where v: "find (alive_tick c) (rev ts) = Some v"
    using u assms(5) by (cases "find (alive_tick c) (rev ts)") (auto simp: find_None_iff alive_tick_def)
  obtain pre post where split: "rev ts = pre @ v # post" "\<forall>w \<in> set pre. \<not> alive_tick c w"
    using find_first [OF v] by blast
  have "u \<in> insert v (set post)"
  proof -
    have "u \<in> set (pre @ v # post)" using u split(1) by (metis set_rev)
    moreover have "u \<notin> set pre" using split(2) assms(5) by (auto simp: alive_tick_def)
    ultimately show ?thesis by auto
  qed
  moreover have "sorted (rev (map t_now (pre @ v # post)))" using assms(3) split(1)
    by (metis rev_map rev_rev_ident)
  then have "\<forall>w \<in> set post. t_now w \<le> t_now v" by (simp add: sorted_append)
  ultimately have "t_now u \<le> t_now v" by auto
  moreover have "k_last ?k = t_now v" using v by (simp add: run_last)
  ultimately show ?thesis using d(2) by simp
qed

text \<open>
  The vehicle counts as near only with evidence.  After any observations that began with the
  counter at zero, an arrival means that the link is already up, or that the observation and as many
  right before it as the configuration asks for were all strong.
\<close>

theorem arrive_needs_evidence:
  assumes "k_consec k = 0"
    and "fst (presence_step c t (snd (presence_run c ts k))) = Action_arrive"
  shows "t_gatt t \<or> near_confirm c \<le> int (length (takeWhile (strong c) (rev (ts @ [t]))))"
proof -
  have "k_consec (snd (presence_run c ts k)) \<le> int (consec_spec c ts)"
    using run_consec [of k c ts] assms(1) by simp
  then show ?thesis using assms(2)
    by (auto simp: presence_step_def consec_spec_def Let_def split: if_splits)
qed

theorem arrive_needs_evidence_witness:
  "let c = default_presence_config\<lparr>near_confirm := 2\<rparr>;
       t = \<lparr>t_now = 0, t_seen = True, t_rssi = - 80, t_gatt = False\<rparr>
   in length (takeWhile (strong c) (rev ([t] @ [t]))) = 2"
proof -
  let ?c = "default_presence_config\<lparr>near_confirm := 2\<rparr>"
  let ?t = "\<lparr>t_now = 0, t_seen = True, t_rssi = - 80, t_gatt = False\<rparr>"
  let ?k = "\<lparr>k_near = False, k_consec = 0, k_last = 0\<rparr>"
  have "fst (presence_step ?c ?t (snd (presence_run ?c [?t] ?k))) = Action_arrive"
    by (simp add: presence_step_def strong_def default_presence_config_def)
  from arrive_needs_evidence [OF _ this]
  have "2 \<le> int (length (takeWhile (strong ?c) (rev ([?t] @ [?t]))))"
    by (simp add: default_presence_config_def)
  moreover have "length (takeWhile (strong ?c) (rev ([?t] @ [?t]))) \<le> 2"
    using length_takeWhile_le [of "strong ?c" "rev ([?t] @ [?t])"] by simp
  ultimately show ?thesis by (simp add: Let_def)
qed

theorem depart_only_after_silence_witness:
  "let c = default_presence_config in
   far_timeout c < 16 * SECOND - t_now \<lparr>t_now = 0, t_seen = False, t_rssi = 0, t_gatt = True\<rparr>"
proof -
  let ?t = "\<lparr>t_now = 16 * SECOND, t_seen = False, t_rssi = 0, t_gatt = False\<rparr>"
  let ?u = "\<lparr>t_now = 0, t_seen = False, t_rssi = 0, t_gatt = True\<rparr>"
  let ?k = "\<lparr>k_near = False, k_consec = 0, k_last = 0\<rparr>"
  have "fst (presence_step default_presence_config ?t
      (snd (presence_run default_presence_config [?u] ?k))) = Action_depart"
    by (simp add: presence_step_def strong_def default_presence_config_def SECOND_def)
  then have "far_timeout default_presence_config < t_now ?t - t_now ?u"
    by (rule depart_only_after_silence [rotated])
      (simp_all add: default_presence_config_def SECOND_def)
  then show ?thesis by simp
qed

lemma connect_loop_bounded:
  assumes "\<forall>x \<in> set xs. 0 \<le> snd x" "now \<le> deadline" "CONNECT_RETRY_INITIAL \<le> delay"
    and "delay \<le> CONNECT_RETRY_MAX"
    and "deadline - now < int (length xs) * CONNECT_RETRY_INITIAL"
  shows "\<exists>r ws. connect_loop deadline now delay xs = Some (r, ws)
    \<and> ws = map (\<lambda>i. (next_retry_delay ^^ i) delay) [0..<length ws] \<and> sum_list ws \<le> deadline - now"
  using assms
proof (induction xs arbitrary: now delay)
  case (Cons x xs)
  obtain a d where x: "x = (a, d)" by fastforce
  show ?case
  proof (cases a)
    case (Retry e)
    show ?thesis
    proof (cases "deadline \<le> now + d + delay")
      case True
      then show ?thesis using x Retry Cons.prems(2) by simp
    next
      case False
      let ?now = "now + d + delay"
      have d: "0 \<le> d" using Cons.prems(1) x by simp
      have "CONNECT_RETRY_INITIAL \<le> next_retry_delay delay \<and> next_retry_delay delay \<le> CONNECT_RETRY_MAX"
        using connect_backoff.delay_bounds Cons.prems(3,4) by blast
      moreover have "deadline - ?now < int (length xs) * CONNECT_RETRY_INITIAL"
        using Cons.prems(3,5) d by (simp add: algebra_simps)
      ultimately obtain r ws where ih: "connect_loop deadline ?now (next_retry_delay delay) xs = Some (r, ws)"
        "ws = map (\<lambda>i. (next_retry_delay ^^ i) (next_retry_delay delay)) [0..<length ws]"
        "sum_list ws \<le> deadline - ?now"
        using Cons.IH [of ?now "next_retry_delay delay"] Cons.prems(1) False by auto
      have "delay # ws = map (\<lambda>i. (next_retry_delay ^^ i) delay) [0..<length (delay # ws)]"
        using ih(2) by (simp add: map_upt_Suc funpow_swap1 del: upt_Suc)
      moreover have "connect_loop deadline now delay (x # xs) = Some (r, delay # ws)"
        using ih(1) x Retry False by simp
      moreover have "sum_list (delay # ws) \<le> deadline - now" using ih(3) d by simp
      ultimately show ?thesis
        by (intro exI [of _ r] exI [of _ "delay # ws"] conjI)
    qed
  qed (use x Cons.prems in auto)
qed simp

text \<open>
  C40: A connect that keeps failing backs off and stops.  With attempts that take no negative time, the
  delays waited are half a second doubled up to three seconds, their sum stays below the time budget,
  and the loop has ended before the attempts outnumber the half seconds of the budget.
\<close>

theorem connect_loop_ends:
  assumes "\<forall>x \<in> set xs. 0 \<le> snd x" "0 \<le> budget"
    and "budget < int (length xs) * CONNECT_RETRY_INITIAL"
  shows "\<exists>r ws. connect_loop (now + budget) now CONNECT_RETRY_INITIAL xs = Some (r, ws)
    \<and> ws = map (\<lambda>i. min (2 ^ i * CONNECT_RETRY_INITIAL) CONNECT_RETRY_MAX) [0..<length ws]
    \<and> sum_list ws \<le> budget"
proof -
  have "\<exists>r ws. connect_loop (now + budget) now CONNECT_RETRY_INITIAL xs = Some (r, ws)
    \<and> ws = map (\<lambda>i. (next_retry_delay ^^ i) CONNECT_RETRY_INITIAL) [0..<length ws] \<and> sum_list ws \<le> budget"
    using connect_loop_bounded [of xs now "now + budget" CONNECT_RETRY_INITIAL]
      assms connect_backoff.base_le by simp
  then show ?thesis by (simp add: connect_backoff.delay_power)
qed

theorem connect_loop_ends_witness:
  "\<exists>r ws. connect_loop (7 + SECOND) 7 CONNECT_RETRY_INITIAL
     (replicate 3 (Retry ''le-connection-abort-by-local'' :: unit attempt, 0)) = Some (r, ws) \<and> sum_list ws \<le> SECOND"
proof -
  let ?xs = "replicate 3 (Retry ''le-connection-abort-by-local'' :: unit attempt, 0 :: int)"
  have "\<forall>x \<in> set ?xs. 0 \<le> snd x" "SECOND < int (length ?xs) * CONNECT_RETRY_INITIAL"
    by (simp_all add: SECOND_def CONNECT_RETRY_INITIAL_def)
  then show ?thesis using connect_loop_ends [of ?xs SECOND 7] by (auto simp: SECOND_def)
qed

end
