(* ===== verification/Vehicle_Session.thy ===== *)
theory Vehicle_Session
  imports Vendor_Table Phone_Key_Presence
begin

text \<open>
  The session process's hold on the vehicle, \<^verbatim>\<open>session/main.go\<close>, \<^verbatim>\<open>navigate.go\<close> and
  \<^verbatim>\<open>pairing.go\<close>: the cached link with the subsystems its SDK session is ready for, the
  authentication tap, presence mode, the idle timer, the last beacon and the events sent to the
  core.  Every definition is one section under \<^verbatim>\<open>s.mu\<close> (or a sequence of them that the text
  names); what the radio, the vehicle, the key files and the clock answer is in \<^verbatim>\<open>radio\<close>.
  Watcher and D-Bus handles have no state here beyond their failures.
\<close>

section \<open>Handshakes with the vehicle's subsystems\<close>

text \<open>
  One round of \<^verbatim>\<open>dispatcher.StartSessions\<close>: the answer of each subsystem and which of them is
  heard first.  A session that is ready already answers at once.
\<close>

record handshake =
  hs_first :: domain
  hs_reply :: "domain \<Rightarrow> gerr option"

definition arrival :: "handshake \<Rightarrow> domain list \<Rightarrow> domain list" where
  "arrival h ds = filter (\<lambda>d. d = hs_first h) ds @ filter (\<lambda>d. d \<noteq> hs_first h) ds"

fun collect_sessions ::
    "(domain \<Rightarrow> gerr option) \<Rightarrow> domain list \<Rightarrow> domain list \<Rightarrow> gerr option
     \<Rightarrow> domain list \<times> gerr option" where
  "collect_sessions reply [] ready err = (ready, err)"
| "collect_sessions reply (d # ds) ready err =
    (case (if d \<in> set ready then None else reply d) of
       None \<Rightarrow> collect_sessions reply ds (List.insert d ready) None
     | Some e \<Rightarrow> if e \<noteq> E_canceled then (ready, Some e)
                 else collect_sessions reply ds ready (Some e))"

definition all_domains :: "domain list" where
  "all_domains = [VCSEC, Infotainment]"

definition requested :: "domain list option \<Rightarrow> domain list" where
  "requested ds = (case ds of None \<Rightarrow> all_domains | Some l \<Rightarrow> l)"

definition StartSessions ::
    "handshake \<Rightarrow> domain list option \<Rightarrow> domain list \<Rightarrow> domain list \<times> gerr option" where
  "StartSessions h ds ready =
    collect_sessions (hs_reply h) (arrival h (requested ds)) ready None"

definition ShouldRetry :: "gerr \<Rightarrow> bool" where
  "ShouldRetry e = (case e of E_command m maybe temporary \<Rightarrow> \<not> maybe \<and> temporary | _ \<Rightarrow> False)"

text \<open>\<^verbatim>\<open>Vehicle.StartSession\<close>: rounds until one settles it or the context ends.\<close>

fun StartSession ::
    "handshake list \<Rightarrow> domain list option \<Rightarrow> domain list \<Rightarrow> domain list \<times> gerr option" where
  "StartSession [] ds ready = (ready, Some E_deadline)"
| "StartSession (h # hs) ds ready =
    (case StartSessions h ds ready of
       (r, None) \<Rightarrow> (r, None)
     | (r, Some e) \<Rightarrow> if ShouldRetry e then StartSession hs ds r else (r, Some e))"

section \<open>State\<close>

record beacon =
  b_ref :: nat
  b_rssi :: "int option"

record vlink =
  l_id :: nat
  l_bluez :: bool
  l_ready :: "domain list"

record tap =
  tp_id :: nat
  tp_inbox :: "string list"

record vevent =
  ev_kind :: string
  ev_error :: "gerr option"
  ev_time :: int
  ev_link :: "nat option"

datatype key_file = Key_missing | Key_unreadable gerr | Key_file string "string option"

text \<open>
  \<^verbatim>\<open>vs_fresh\<close> numbers connection and inbox objects, whose pointers the code compares;
  \<^verbatim>\<open>ev_link\<close> notes the connection that was up when an event was sent.
\<close>

record vsess =
  vs_backend :: string
  vs_idle_timeout :: int
  vs_key :: key_file
  vs_link :: "vlink option"
  vs_bus :: bool
  vs_idle :: "int option"
  vs_presence :: bool
  vs_generation :: "64 word"
  vs_cfg :: presence_config
  vs_tap :: "tap option"
  vs_beacon :: "beacon option"
  vs_beacon_at :: "int option"
  vs_quiet :: quiet
  vs_prime :: "int option"
  vs_connected :: "int option"
  vs_user :: user_presence
  vs_inside :: bool
  vs_events :: "vevent list"
  vs_fresh :: nat

record radio =
  r_begin :: int
  r_end :: int
  r_go :: go_env
  r_bus :: "gerr option"
  r_adapter :: "gerr option"
  r_gatt :: "gerr option"
  r_vehicle :: "gerr option"
  r_attach :: "gerr option"
  r_rounds :: "handshake list"
  r_reply :: "car_call \<Rightarrow> (gerr, string) result"
  r_status :: "(gerr, user_presence) result"
  r_public :: "(gerr, string) result"
  r_attempts :: "((gerr, bool) result \<times> handshake list) list"
  r_float :: "string \<Rightarrow> f64 option"

section \<open>Events, the tap and teardown\<close>

definition emit :: "int \<Rightarrow> string \<Rightarrow> gerr option \<Rightarrow> vsess \<Rightarrow> vsess" where
  "emit now kind err s =
    s\<lparr>vs_events := vs_events s @
        [\<lparr>ev_kind = kind, ev_error = err, ev_time = now, ev_link = map_option l_id (vs_link s)\<rparr>]\<rparr>"

definition emit_disconnected :: "int \<Rightarrow> gerr \<Rightarrow> vsess \<Rightarrow> vsess" where
  "emit_disconnected now e s =
    (if \<not> vs_presence s then s else emit now ''presence_disconnected'' (Some e) s)"

definition stop_tap :: "vsess \<Rightarrow> vsess" where
  "stop_tap s = s\<lparr>vs_tap := None\<rparr>"

definition ensure_tap :: "vsess \<Rightarrow> vsess" where
  "ensure_tap s =
    (case vs_link s of
       None \<Rightarrow> s
     | Some l \<Rightarrow>
         if \<not> l_bluez l then s
         else case vs_tap s of
           Some t \<Rightarrow> s
         | None \<Rightarrow> s\<lparr>vs_tap := Some \<lparr>tp_id = vs_fresh s, tp_inbox = []\<rparr>,
                     vs_fresh := vs_fresh s + 1\<rparr>)"

definition teardown :: "vsess \<Rightarrow> vsess" where
  "teardown s =
    (stop_tap (s\<lparr>vs_idle := None\<rparr>))
      \<lparr>vs_link := None, vs_prime := None, vs_connected := None, vs_user := Presence_unknown,
       vs_inside := False\<rparr>"

definition reset_idle :: "int \<Rightarrow> vsess \<Rightarrow> vsess" where
  "reset_idle now s =
    (if vs_presence s then s\<lparr>vs_idle := None\<rparr>
     else s\<lparr>vs_idle := Some (now + vs_idle_timeout s)\<rparr>)"

definition idle_fires :: "vsess \<Rightarrow> vsess" where
  "idle_fires s = teardown s"

definition stop_presence :: "vsess \<Rightarrow> vsess" where
  "stop_presence s =
    (stop_tap (s\<lparr>vs_presence := False, vs_generation := vs_generation s + 1\<rparr>))
      \<lparr>vs_beacon := None, vs_beacon_at := None, vs_quiet := clear_backoff (vs_quiet s)\<rparr>"

section \<open>Connecting\<close>

definition commandsWithoutSession :: "string list" where
  "commandsWithoutSession = [''add-key-request'']"

definition sessionDomains :: "string \<Rightarrow> domain list option" where
  "sessionDomains c =
    (if c = [] then Some [VCSEC]
     else if c = ''state'' then Some [Infotainment]
     else case vendor c of
       Some info \<Rightarrow> (case vc_domain info of Some d \<Rightarrow> Some [d] | None \<Rightarrow> None)
     | None \<Rightarrow> None)"

definition presence_target :: "vsess \<Rightarrow> beacon option" where
  "presence_target s = (if \<not> vs_presence s then None else vs_beacon s)"

definition target_ready :: "vsess \<Rightarrow> beacon option \<Rightarrow> int \<Rightarrow> bool" where
  "target_ready s target now =
    (let c = (if scan_interval (vs_cfg s) \<le> 0 then default_presence_config else vs_cfg s)
     in case (target, vs_beacon s, vs_beacon_at s) of
          (Some b, Some b', Some seen) \<Rightarrow>
            b_ref b = b_ref b'
            \<and> (case b_rssi b of None \<Rightarrow> False | Some q \<Rightarrow> presence_live_near True q (near_rssi c))
            \<and> now - seen \<le> 2 * scan_interval c
        | _ \<Rightarrow> False)"

definition load_private_key :: "vsess \<Rightarrow> gerr option" where
  "load_private_key s =
    (case vs_key s of
       Key_missing \<Rightarrow> Some (E_plain ''no such file'')
     | Key_unreadable e \<Rightarrow> Some e
     | Key_file pub pem \<Rightarrow> None)"

text \<open>The first of a list of failures, in the order the steps are taken.\<close>

fun first_error :: "gerr option list \<Rightarrow> gerr option" where
  "first_error [] = None"
| "first_error (None # es) = first_error es"
| "first_error (Some e # es) = Some e"

text \<open>
  \<^verbatim>\<open>ensureConnectedLocked\<close>.  The bus is opened once for the life of the process, even when a later
  step fails.
\<close>

definition open_link :: "radio \<Rightarrow> string \<Rightarrow> vsess \<Rightarrow> vsess \<times> gerr option" where
  "open_link r c s =
    (let s1 = s\<lparr>vs_link := Some \<lparr>l_id = vs_fresh s, l_bluez = (vs_backend s = ''bluez''), l_ready = []\<rparr>,
                vs_fresh := vs_fresh s + 1\<rparr>
     in if c \<in> set commandsWithoutSession then (s1\<lparr>vs_connected := Some (r_end r)\<rparr>, None)
        else
          let s2 = ensure_tap s1
          in case StartSession (r_rounds r) (sessionDomains c) [] of
               (rd, Some e) \<Rightarrow> (teardown s2, Some e)
             | (rd, None) \<Rightarrow>
                 (s2\<lparr>vs_link := map_option (\<lambda>l. l\<lparr>l_ready := rd\<rparr>) (vs_link s2),
                     vs_connected := Some (r_end r)\<rparr>, None))"

definition ensure_connected ::
    "radio \<Rightarrow> string \<Rightarrow> beacon option \<Rightarrow> vsess \<Rightarrow> vsess \<times> gerr option" where
  "ensure_connected r c target s =
    (case vs_link s of
       Some l \<Rightarrow>
         if c \<in> set commandsWithoutSession then (s, None)
         else
           (let s1 = ensure_tap s
            in case sessionDomains c of
                 None \<Rightarrow> (s1, None)
               | Some ds \<Rightarrow>
                   (case StartSession (r_rounds r) (Some ds) (l_ready l) of
                      (rd, e) \<Rightarrow> (s1\<lparr>vs_link := Some (l\<lparr>l_ready := rd\<rparr>)\<rparr>, e)))
     | None \<Rightarrow>
         if vs_presence s \<and> vs_backend s = ''bluez'' \<and> \<not> target_ready s target (r_begin r)
         then (s, Some (E_plain ''vehicle not nearby; wait for phone key to connect and retry''))
         else case load_private_key s of
           Some e \<Rightarrow> (s, Some e)
         | None \<Rightarrow>
             if vs_backend s = ''bluez'' then
               (if \<not> vs_bus s \<and> r_bus r \<noteq> None then (s, r_bus r)
                else
                  let s1 = s\<lparr>vs_bus := True\<rparr>
                  in case first_error [r_gatt r, r_vehicle r, r_attach r] of
                       Some e \<Rightarrow> (s1, Some e)
                     | None \<Rightarrow> open_link r c s1)
             else
               (case first_error [r_adapter r, r_gatt r, r_vehicle r, r_attach r] of
                  Some e \<Rightarrow> (s, Some e)
                | None \<Rightarrow> open_link r c s))"

section \<open>Commands\<close>

text \<open>A response: the output of a success, or the exit code and the cause of a failure.\<close>

datatype answer = A_ok string | A_fail int gerr

fun answered :: "answer \<Rightarrow> bool" where
  "answered (A_ok t) = True"
| "answered (A_fail k e) = False"

definition exec_answer :: "(gerr, string) result \<Rightarrow> answer" where
  "exec_answer r = (case r of Inl e \<Rightarrow> A_fail 1 e | Inr t \<Rightarrow> A_ok t)"

definition execute_on :: "radio \<Rightarrow> string \<Rightarrow> string list \<Rightarrow> vsess \<Rightarrow> (gerr, string) result" where
  "execute_on r c as s =
    (case vs_link s of
       Some l \<Rightarrow> execute (r_go r) (l_ready l) (r_reply r) c as
     | None \<Rightarrow> and_then (checkReadiness c False False False) (\<lambda>info. Inl E_needs_vin))"

text \<open>
  \<^verbatim>\<open>waitForEnrollment\<close>, one element per attempt until the grace period ends: the vehicle's session
  info for the requested key (its status being OK), then, for this phone's own key, a handshake.
\<close>

fun wait_for_enrollment ::
    "bool \<Rightarrow> ((gerr, bool) result \<times> handshake list) list \<Rightarrow> domain list
     \<Rightarrow> domain list \<times> gerr option" where
  "wait_for_enrollment own [] ready = (ready, Some E_deadline)"
| "wait_for_enrollment own ((info, hs) # as) ready =
    (case info of
       Inr True \<Rightarrow>
         if own then
           (case StartSession hs (Some [VCSEC]) ready of
              (rd, None) \<Rightarrow> (rd, None)
            | (rd, Some e) \<Rightarrow> wait_for_enrollment own as rd)
         else (ready, None)
     | _ \<Rightarrow> wait_for_enrollment own as ready)"

definition confirm_enrollment :: "radio \<Rightarrow> vsess \<Rightarrow> gerr option" where
  "confirm_enrollment r s =
    (case r_public r of
       Inl e \<Rightarrow> Some e
     | Inr pub \<Rightarrow>
         (case vs_key s of
            Key_file own pem \<Rightarrow>
              (case vs_link s of
                 None \<Rightarrow> Some E_not_connected
               | Some l \<Rightarrow> snd (wait_for_enrollment (pub = own) (r_attempts r) (l_ready l)))
          | _ \<Rightarrow> load_private_key s))"

text \<open>\<^verbatim>\<open>dispatch\<close> for an ordinary command: one section under the mutex.\<close>

definition dispatch_command :: "radio \<Rightarrow> string \<Rightarrow> string list \<Rightarrow> vsess \<Rightarrow> vsess \<times> answer" where
  "dispatch_command r c as s =
    (case ensure_connected r c (presence_target s) s of
       (s1, Some e) \<Rightarrow> (s1, A_fail 1 e)
     | (s1, None) \<Rightarrow>
         (let res = execute_on r c as s1
          in if c \<in> set commandsWithoutSession then
               (let res1 = (case res of
                              Inl e \<Rightarrow> Inl e
                            | Inr t \<Rightarrow> (case confirm_enrollment r s1 of
                                          None \<Rightarrow> Inr t | Some e \<Rightarrow> Inl e))
                in (teardown s1, exec_answer res1))
             else (reset_idle (r_end r) s1, exec_answer res)))"

text \<open>\<^verbatim>\<open>dispatchPair\<close>.\<close>

definition dispatch_pair :: "radio \<Rightarrow> string list \<Rightarrow> vsess \<Rightarrow> vsess \<times> answer" where
  "dispatch_pair r as s =
    (if length as \<noteq> 3 then
       (s, A_fail 2 (E_plain ''pair requires public key, role, and form factor''))
     else case r_public r of
       Inl e \<Rightarrow> (s, A_fail 2 e)
     | Inr pub \<Rightarrow>
         (case vs_key s of
            Key_file own pem \<Rightarrow>
              if pub \<noteq> own then
                (s, A_fail 2 (E_plain ''public key does not match this phone's private key''))
              else dispatch_command r ''add-key-request'' as s
          | _ \<Rightarrow> (s, A_fail 2 (the (load_private_key s)))))"

text \<open>
  \<^verbatim>\<open>dispatchKeygen\<close>: \<^verbatim>\<open>fresh\<close> is the new key (public half, PEM text when it has one), or the
  generator's failure; \<^verbatim>\<open>saved\<close> is what writing the file did.
\<close>

definition dispatch_keygen ::
    "(gerr, string \<times> string option) result \<Rightarrow> gerr option \<Rightarrow> string list \<Rightarrow> vsess
     \<Rightarrow> vsess \<times> answer" where
  "dispatch_keygen fresh saved as s =
    (let force = (''-f'' \<in> set as);
         generate =
           (case fresh of
              Inl e \<Rightarrow> (s, A_fail 1 e)
            | Inr (pub, None) \<Rightarrow> (s, A_fail 1 (E_plain ''Failed to parse key''))
            | Inr (pub, Some pem) \<Rightarrow>
                (case saved of
                   Some e \<Rightarrow> (s, A_fail 1 e)
                 | None \<Rightarrow>
                     let s1 = s\<lparr>vs_key := Key_file pub (Some pem)\<rparr>
                     in (if force then teardown (stop_presence s1) else s1, A_ok pem)))
     in if force then generate
        else case vs_key s of
          Key_file pub (Some pem) \<Rightarrow> (s, A_ok pem)
        | Key_file pub None \<Rightarrow>
            (s, A_fail 1 (E_plain ''existing private key is invalid; use -f to replace it''))
        | Key_unreadable e \<Rightarrow> (s, A_fail 1 e)
        | Key_missing \<Rightarrow> generate)"

section \<open>Navigation\<close>

definition coordinate :: "radio \<Rightarrow> string \<Rightarrow> string \<Rightarrow> (gerr, f64) result" where
  "coordinate r what t =
    (case r_float r (trim t) of
       None \<Rightarrow> Inl (E_plain (''navigate: invalid '' @ what))
     | Some x \<Rightarrow> if f64_is_finite x then Inr x else Inl (E_plain (''navigate: invalid '' @ what)))"

definition navigate_call :: "radio \<Rightarrow> string list \<Rightarrow> (gerr, car_call) result" where
  "navigate_call r as =
    (case as of
       [] \<Rightarrow> Inl (E_plain ''navigate: missing kind argument'')
     | kind # rest \<Rightarrow>
         if kind = ''gps'' then
           (case rest of
              [a, b] \<Rightarrow>
                and_then (coordinate r ''lat'' a) (\<lambda>lat.
                and_then (coordinate r ''lon'' b) (\<lambda>lon.
                  if f64_within (- 90) 90 lat \<and> f64_within (- 180) 180 lon
                  then Inr (Car ''NavigateToGPS'' [CA_num lat, CA_num lon, CA_int 0])
                  else Inl (E_plain ''navigate: coordinates out of range'')))
            | _ \<Rightarrow> Inl (E_plain ''navigate: gps needs lat and lon''))
         else if kind = ''address'' then
           (case rest of
              [a] \<Rightarrow>
                if trim a = [] \<or> 2000 < char_count (trim a)
                then Inl (E_plain ''navigate: invalid address text'')
                else Inr (Car ''NavigateToDestination'' [CA_str (trim a)])
            | _ \<Rightarrow> Inl (E_plain ''navigate: address needs text''))
         else Inl (E_plain ''navigate: unknown kind (want gps or address)''))"

text \<open>
  \<^verbatim>\<open>dispatchNavigate\<close> connects in one section and sends in the next; \<^verbatim>\<open>between\<close> is whatever other
  sections do to the session in the meantime.
\<close>

definition navigate_send :: "radio \<Rightarrow> car_call \<Rightarrow> vsess \<Rightarrow> vsess \<times> answer" where
  "navigate_send r call s =
    (case vs_link s of
       None \<Rightarrow> (s, A_fail 1 (E_plain ''navigate: session lost''))
     | Some l \<Rightarrow>
         (case call_car (l_ready l) (r_reply r) call of
            Inl e \<Rightarrow> (s, A_fail 1 e)
          | Inr t \<Rightarrow> (reset_idle (r_end r) s, A_ok ''navigation started'')))"

definition dispatch_navigate ::
    "radio \<Rightarrow> (vsess \<Rightarrow> vsess) \<Rightarrow> string list \<Rightarrow> vsess \<Rightarrow> vsess \<times> answer" where
  "dispatch_navigate r between as s =
    (case navigate_call r as of
       Inl e \<Rightarrow> (s, A_fail 2 e)
     | Inr call \<Rightarrow>
         (case ensure_connected r [] (presence_target s) s of
            (s1, Some e) \<Rightarrow> (s1, A_fail 1 e)
          | (s1, None) \<Rightarrow> navigate_send r call (between s1)))"

section \<open>Presence\<close>

definition dispatch_presence_start :: "presence_config option \<Rightarrow> vsess \<Rightarrow> vsess \<times> answer" where
  "dispatch_presence_start args s =
    (case args of
       None \<Rightarrow> (s, A_fail 2 (E_plain ''bad flags''))
     | Some c \<Rightarrow>
         if vs_backend s \<noteq> ''bluez''
         then (s, A_fail 1 (E_plain ''presence mode requires -ble-backend=bluez''))
         else if vs_presence s then (s, A_ok ''presence mode already running'')
         else (s\<lparr>vs_presence := True, vs_generation := vs_generation s + 1, vs_cfg := c\<rparr>,
               A_ok ''presence mode started''))"

definition dispatch_presence_stop :: "vsess \<Rightarrow> vsess \<times> answer" where
  "dispatch_presence_stop s = (teardown (stop_presence s), A_ok ''presence mode stopped'')"

definition shutdown :: "vsess \<Rightarrow> vsess" where
  "shutdown s = (teardown (stop_presence s))\<lparr>vs_bus := False\<rparr>"

definition sessionDroppedError :: "gerr \<Rightarrow> bool" where
  "sessionDroppedError e =
    (case e of
       E_dbus n \<Rightarrow> n \<in> {''org.bluez.Error.NotConnected'',
                         ''org.freedesktop.DBus.Error.UnknownObject''}
     | E_not_connected \<Rightarrow> True
     | E_no_session \<Rightarrow> True
     | E_canceled \<Rightarrow> True
     | _ \<Rightarrow> False)"

definition prime_vcsec :: "radio \<Rightarrow> vsess \<Rightarrow> vsess" where
  "prime_vcsec r s =
    (if vs_link s = None then s
     else
       let s1 = s\<lparr>vs_user := Presence_unknown\<rparr>
       in case r_status r of
            Inl e \<Rightarrow>
              if sessionDroppedError e then emit_disconnected (r_end r) e (teardown s1) else s1
          | Inr p \<Rightarrow> s1\<lparr>vs_prime := Some (r_end r), vs_user := p\<rparr>)"

definition emit_inside :: "int \<Rightarrow> vsess \<Rightarrow> vsess" where
  "emit_inside now s =
    (if vs_link s = None \<or> \<not> vs_presence s \<or> vs_inside s
        \<or> \<not> ready_for_inside (vs_connected s) (vs_prime s) now (vs_user s)
     then s else emit now ''presence_inside'' None (s\<lparr>vs_inside := True\<rparr>))"

text \<open>The sections of one tick of \<^verbatim>\<open>runPresenceWatcher\<close>: while the link is up \<dots>\<close>

definition link_lost :: "int \<Rightarrow> nat \<Rightarrow> gerr \<Rightarrow> vsess \<Rightarrow> vsess" where
  "link_lost now i e s =
    (case vs_link s of
       Some l \<Rightarrow>
         if l_bluez l \<and> l_id l = i then emit_disconnected now e (teardown s) else s
     | None \<Rightarrow> s)"

definition tick_up :: "radio \<Rightarrow> vsess \<Rightarrow> vsess" where
  "tick_up r s =
    emit_inside (r_end r)
      (if vs_link s = None then s
       else reset_idle (r_end r)
              (if prime_due (vs_prime s) (r_begin r) then prime_vcsec r s else s))"

text \<open>\<dots> and while it is down.\<close>

definition store_beacon :: "int \<Rightarrow> beacon option \<Rightarrow> vsess \<Rightarrow> vsess" where
  "store_beacon now b s =
    s\<lparr>vs_beacon := b, vs_beacon_at := (if b = None then None else Some now)\<rparr>"

definition connect_target :: "beacon option \<Rightarrow> vsess \<Rightarrow> beacon option" where
  "connect_target b s = (if b = None then vs_beacon s else b)"

definition presence_connect :: "radio \<Rightarrow> beacon option \<Rightarrow> vsess \<Rightarrow> vsess \<times> gerr option" where
  "presence_connect r target s =
    (let (s2, e) =
       (case ensure_connected r [] target s of
          (s1, Some e) \<Rightarrow> (s1, Some e)
        | (s1, None) \<Rightarrow>
            (let s2 = reset_idle (r_end r)
                        (prime_vcsec r (ensure_tap (s1\<lparr>vs_quiet := clear_backoff (vs_quiet s1)\<rparr>)))
             in (s2, if vs_link s2 = None then Some E_not_connected else None)))
     in case e of
          Some e \<Rightarrow> (emit (r_end r) ''presence_error'' (Some e)
                       (s2\<lparr>vs_quiet := schedule_backoff (r_end r) (vs_quiet s2)\<rparr>), Some e)
        | None \<Rightarrow> (emit (r_end r) ''presence_near'' None s2, None))"

definition presence_depart :: "int \<Rightarrow> vsess \<Rightarrow> vsess" where
  "presence_depart now s =
    emit now ''presence_far'' None (teardown (s\<lparr>vs_quiet := clear_backoff (vs_quiet s)\<rparr>))"

definition beacon_live :: "beacon option \<Rightarrow> bool" where
  "beacon_live b = (case b of None \<Rightarrow> False | Some b \<Rightarrow> b_rssi b \<noteq> None)"

definition beacon_rssi :: "beacon option \<Rightarrow> int" where
  "beacon_rssi b = (case b of None \<Rightarrow> 0 | Some b \<Rightarrow> (case b_rssi b of None \<Rightarrow> 0 | Some q \<Rightarrow> q))"

text \<open>The whole tick with the link down, nothing interleaved; \<^verbatim>\<open>k\<close> is the loop's near/away state.\<close>

definition tick_down ::
    "radio \<Rightarrow> presence_config \<Rightarrow> beacon option \<Rightarrow> tracker \<Rightarrow> vsess \<Rightarrow> tracker \<times> vsess" where
  "tick_down r c b k s =
    (let s1 = store_beacon (r_begin r) b s;
         t = \<lparr>t_now = r_begin r, t_seen = beacon_live b, t_rssi = beacon_rssi b, t_gatt = False\<rparr>
     in case presence_step c t k of
          (a, k1) \<Rightarrow>
            if a = Action_arrive \<or> a = Action_stay then
              (if \<not> presence_live_near (beacon_live b) (beacon_rssi b) (near_rssi c) then (k1, s1)
               else if backoff_active (r_begin r) (vs_quiet s1) \<or> connect_target b s1 = None
               then (k1, s1)
               else case presence_connect r (connect_target b s1) s1 of
                      (s2, None) \<Rightarrow> (k1, s2)
                    | (s2, Some e) \<Rightarrow> (k1\<lparr>k_near := False, k_consec := 0\<rparr>, s2))
            else if a = Action_depart then (k1, presence_depart (r_end r) s1)
            else (k1, s1))"

text \<open>The deferred clean-up of a presence loop that ends, with the generation it was started with.\<close>

definition loop_ends :: "int \<Rightarrow> 64 word \<Rightarrow> vsess \<Rightarrow> vsess" where
  "loop_ends now g s =
    (if vs_generation s = g then emit now ''presence_stopped'' None (s\<lparr>vs_presence := False\<rparr>) else s)"

section \<open>The authentication responder\<close>

definition INBOX_CAP :: nat where
  "INBOX_CAP = 64"

definition enqueueAuthDatagram :: "string \<Rightarrow> tap \<Rightarrow> tap" where
  "enqueueAuthDatagram d t =
    (if length (tp_inbox t) < INBOX_CAP then t\<lparr>tp_inbox := tp_inbox t @ [d]\<rparr>
     else t\<lparr>tp_inbox := tl (tp_inbox t) @ [d]\<rparr>)"

definition inbound :: "string \<Rightarrow> vsess \<Rightarrow> vsess" where
  "inbound d s = s\<lparr>vs_tap := map_option (enqueueAuthDatagram d) (vs_tap s)\<rparr>"

datatype auth_level = Auth_none | Auth_unlock | Auth_drive | Auth_other int

definition authorizable :: "auth_level \<Rightarrow> bool" where
  "authorizable l = (l = Auth_unlock \<or> l = Auth_drive)"

text \<open>
  \<^verbatim>\<open>authResponderLoop\<close> on the oldest datagram of the inbox it was started with.  \<^verbatim>\<open>parse\<close> is
  \<^verbatim>\<open>parseAuthenticationRequest\<close> over the protobuf library, \<^verbatim>\<open>send\<close> the vehicle's answer to a
  signed response; the level sent, if any, is returned.
\<close>

definition auth_respond ::
    "(string \<Rightarrow> auth_level option) \<Rightarrow> (auth_level \<Rightarrow> gerr option) \<Rightarrow> int \<Rightarrow> nat \<Rightarrow> vsess
     \<Rightarrow> vsess \<times> auth_level option" where
  "auth_respond parse send now i s =
    (case vs_tap s of
       None \<Rightarrow> (s, None)
     | Some t \<Rightarrow>
         if tp_id t \<noteq> i then (s, None)
         else case tp_inbox t of
           [] \<Rightarrow> (s, None)
         | d # ds \<Rightarrow>
             (let s1 = s\<lparr>vs_tap := Some (t\<lparr>tp_inbox := ds\<rparr>)\<rparr>
              in case parse d of
                   None \<Rightarrow> (s1, None)
                 | Some lvl \<Rightarrow>
                     if lvl = Auth_none then (s1, None)
                     else if vs_link s1 = None then
                       (emit now ''presence_auth_failed'' (Some (E_plain ''no live session'')) s1, None)
                     else
                       (let (e, sent) =
                          (if \<not> authorizable lvl
                           then (Some (E_plain ''unsupported authentication level''), None)
                           else if VCSEC \<notin> set (l_ready (the (vs_link s1))) then (Some E_no_session, None)
                           else (send lvl, Some lvl));
                            s2 = (case e of
                                    Some x \<Rightarrow>
                                      if sessionDroppedError x
                                      then emit_disconnected now x (teardown s1) else s1
                                  | None \<Rightarrow> s1)
                        in (emit now (if e = None then ''presence_auth_ok'' else ''presence_auth_failed'')
                              e s2, sent))))"

end
