(* ===== verification/Session_Invariants.thy ===== *)
theory Session_Invariants
  imports Vehicle_Session
begin

text \<open>
  The runs of the session process and the invariant of its link, tap and events.  The request loop, the
  presence loop, the authentication responder and the idle timer take turns at the mutex; a run is
  any sequence of their sections, so it covers every order the goroutines can take.
\<close>

section \<open>Runs\<close>

datatype sess_op =
    Do_command radio string "string list"
  | Do_pair radio "string list"
  | Do_keygen "(gerr, string \<times> string option) result" "gerr option" "string list"
  | Do_nav_connect radio
  | Do_nav_send radio car_call
  | Do_presence_start "presence_config option"
  | Do_presence_stop
  | Do_shutdown
  | Do_idle
  | Do_link_lost int nat gerr
  | Do_tick_up radio
  | Do_beacon int "beacon option"
  | Do_presence_connect radio "beacon option"
  | Do_depart int
  | Do_loop_ends int "64 word"
  | Do_inbound string
  | Do_auth "string \<Rightarrow> auth_level option" "auth_level \<Rightarrow> gerr option" int nat

fun sess_step :: "sess_op \<Rightarrow> vsess \<Rightarrow> vsess" where
  "sess_step (Do_command r c as) s = fst (dispatch_command r c as s)"
| "sess_step (Do_pair r as) s = fst (dispatch_pair r as s)"
| "sess_step (Do_keygen k w as) s = fst (dispatch_keygen k w as s)"
| "sess_step (Do_nav_connect r) s = fst (ensure_connected r [] (presence_target s) s)"
| "sess_step (Do_nav_send r call) s = fst (navigate_send r call s)"
| "sess_step (Do_presence_start c) s = fst (dispatch_presence_start c s)"
| "sess_step Do_presence_stop s = fst (dispatch_presence_stop s)"
| "sess_step Do_shutdown s = shutdown s"
| "sess_step Do_idle s = idle_fires s"
| "sess_step (Do_link_lost n i e) s = link_lost n i e s"
| "sess_step (Do_tick_up r) s = tick_up r s"
| "sess_step (Do_beacon n b) s = store_beacon n b s"
| "sess_step (Do_presence_connect r t) s = fst (presence_connect r t s)"
| "sess_step (Do_depart n) s = presence_depart n s"
| "sess_step (Do_loop_ends n g) s = loop_ends n g s"
| "sess_step (Do_inbound d) s = inbound d s"
| "sess_step (Do_auth p f n i) s = fst (auth_respond p f n i s)"

definition sess_run :: "sess_op list \<Rightarrow> vsess \<Rightarrow> vsess" where
  "sess_run ops s = fold sess_step ops s"

definition fresh_session :: "string \<Rightarrow> int \<Rightarrow> key_file \<Rightarrow> vsess" where
  "fresh_session backend idle key =
    \<lparr>vs_backend = backend, vs_idle_timeout = idle, vs_key = key, vs_link = None, vs_bus = False,
     vs_idle = None, vs_presence = False, vs_generation = 0,
     vs_cfg = \<lparr>near_rssi = 0, near_confirm = 0, far_timeout = 0, scan_interval = 0\<rparr>,
     vs_tap = None, vs_beacon = None, vs_beacon_at = None,
     vs_quiet = \<lparr>q_until = None, q_delay = 0\<rparr>, vs_prime = None, vs_connected = None,
     vs_user = Presence_unknown, vs_inside = False, vs_events = [], vs_fresh = 0\<rparr>"

section \<open>Handshakes\<close>

lemma collect_bounds:
  "collect_sessions f ds ready err = (rd, e) \<Longrightarrow>
   set ready \<subseteq> set rd \<and> set rd \<subseteq> set ready \<union> set ds
   \<and> (e = None \<longrightarrow> ds \<noteq> [] \<longrightarrow> (\<exists>d \<in> set ds. d \<in> set rd))"
proof (induction ds arbitrary: ready err)
  case (Cons d ds)
  show ?case
  proof (cases "if d \<in> set ready then None else f d")
    case None
    then have "collect_sessions f ds (List.insert d ready) None = (rd, e)" using Cons.prems by simp
    from Cons.IH [OF this] show ?thesis by auto
  next
    case (Some x)
    show ?thesis
    proof (cases "x = E_canceled")
      case True
      then have c: "collect_sessions f ds ready (Some x) = (rd, e)" using Cons.prems Some by simp
      show ?thesis using Cons.IH [OF c] c by (cases ds) auto
    qed (use Cons.prems Some in auto)
  qed
qed simp

lemma arrival_set [simp]: "set (arrival h ds) = set ds" "arrival h ds = [] \<longleftrightarrow> ds = []"
  by (auto simp: arrival_def filter_empty_conv)

lemma StartSessions_bounds:
  assumes "StartSessions h ds ready = (rd, e)" "requested ds \<noteq> []"
  shows "set ready \<subseteq> set rd \<and> set rd \<subseteq> set ready \<union> set (requested ds)
   \<and> (e = None \<longrightarrow> (\<exists>d \<in> set (requested ds). d \<in> set rd))"
  using collect_bounds [OF assms(1) [unfolded StartSessions_def]] assms(2) by simp

lemma StartSession_bounds:
  "StartSession hs ds ready = (rd, e) \<Longrightarrow> requested ds \<noteq> [] \<Longrightarrow>
   set ready \<subseteq> set rd \<and> set rd \<subseteq> set ready \<union> set (requested ds)
   \<and> (e = None \<longrightarrow> (\<exists>d \<in> set (requested ds). d \<in> set rd))"
proof (induction hs arbitrary: ready)
  case (Cons h hs)
  obtain r1 e1 where 1: "StartSessions h ds ready = (r1, e1)" by fastforce
  note b = StartSessions_bounds [OF 1 Cons.prems(2)]
  show ?case
  proof (cases "\<exists>x. e1 = Some x \<and> ShouldRetry x")
    case True
    then have "StartSession hs ds r1 = (rd, e)" using Cons.prems(1) 1 by auto
    from Cons.IH [OF this Cons.prems(2)] b show ?thesis by blast
  next
    case False
    then have "rd = r1 \<and> e = e1" using Cons.prems(1) 1 by (auto split: option.splits)
    with b show ?thesis by simp
  qed
qed auto

lemma requested_domains [simp]: "requested (sessionDomains c) \<noteq> []"
  by (simp add: sessionDomains_def requested_def all_domains_def split: option.splits)

section \<open>The invariant\<close>

definition inside_links :: "vsess \<Rightarrow> nat option list" where
  "inside_links s = map ev_link (filter (\<lambda>e. ev_kind e = ''presence_inside'') (vs_events s))"

definition events_inv :: "vsess \<Rightarrow> bool" where
  "events_inv s =
    (distinct (inside_links s) \<and> (\<forall>x \<in> set (inside_links s). \<exists>i < vs_fresh s. x = Some i))"

text \<open>What holds of the link whenever no section is running.\<close>

definition link_inv :: "vsess \<Rightarrow> bool" where
  "link_inv s =
    (case vs_link s of
       None \<Rightarrow> vs_tap s = None \<and> vs_prime s = None \<and> vs_connected s = None \<and> \<not> vs_inside s
     | Some l \<Rightarrow>
         l_ready l \<noteq> [] \<and> l_id l < vs_fresh s \<and> vs_connected s \<noteq> None
         \<and> (\<forall>t. vs_tap s = Some t \<longrightarrow> l_bluez l \<and> length (tp_inbox t) \<le> INBOX_CAP)
         \<and> (Some (l_id l) \<in> set (inside_links s) \<longrightarrow> vs_inside s))"

definition sess_inv :: "vsess \<Rightarrow> bool" where
  "sess_inv s = (events_inv s \<and> link_inv s)"

lemma inside_links_emit [simp]:
  "inside_links (emit n k e s) =
    inside_links s @ (if k = ''presence_inside'' then [map_option l_id (vs_link s)] else [])"
  by (simp add: inside_links_def emit_def)

lemma emit_fields [simp]:
  "vs_link (emit n k e s) = vs_link s" "vs_tap (emit n k e s) = vs_tap s"
  "vs_prime (emit n k e s) = vs_prime s" "vs_connected (emit n k e s) = vs_connected s"
  "vs_inside (emit n k e s) = vs_inside s" "vs_fresh (emit n k e s) = vs_fresh s"
  "vs_presence (emit n k e s) = vs_presence s" "vs_user (emit n k e s) = vs_user s"
  by (simp_all add: emit_def)

text \<open>Fields the invariant does not read.\<close>

lemma inside_links_cong: "vs_events s = vs_events t \<Longrightarrow> inside_links s = inside_links t"
  by (simp add: inside_links_def)

definition same_core :: "vsess \<Rightarrow> vsess \<Rightarrow> bool" where
  "same_core s t =
    (vs_link s = vs_link t \<and> vs_tap s = vs_tap t \<and> vs_prime s = vs_prime t
     \<and> vs_connected s = vs_connected t \<and> vs_inside s = vs_inside t \<and> vs_fresh s = vs_fresh t
     \<and> inside_links s = inside_links t)"

lemma same_core_inv: "same_core s t \<Longrightarrow> sess_inv s = sess_inv t"
  unfolding same_core_def sess_inv_def events_inv_def link_inv_def by (cases "vs_link t") simp_all

lemma same_core_emit [simp]: "k \<noteq> ''presence_inside'' \<Longrightarrow> same_core (emit n k e s) s"
  by (simp add: same_core_def)

lemma inv_emit [simp]: "k \<noteq> ''presence_inside'' \<Longrightarrow> sess_inv (emit n k e s) = sess_inv s"
  by (intro same_core_inv same_core_emit)

lemma inv_reset_idle [simp]: "sess_inv (reset_idle n s) = sess_inv s"
  by (intro same_core_inv) (simp add: same_core_def reset_idle_def inside_links_def)

lemma inv_teardown [simp]: "sess_inv (teardown s) = events_inv s"
  by (simp add: sess_inv_def events_inv_def link_inv_def teardown_def stop_tap_def inside_links_def)

lemma teardown_fields [simp]:
  "vs_link (teardown s) = None" "vs_tap (teardown s) = None" "vs_presence (teardown s) = vs_presence s"
  "vs_fresh (teardown s) = vs_fresh s" "vs_events (teardown s) = vs_events s"
  "inside_links (teardown s) = inside_links s" "vs_key (teardown s) = vs_key s"
  by (simp_all add: teardown_def stop_tap_def inside_links_def)

lemma events_teardown [simp]: "events_inv (teardown s) = events_inv s"
  by (simp add: events_inv_def)

lemma inv_disconnected [simp]: "sess_inv (emit_disconnected n e s) = sess_inv s"
  by (simp add: emit_disconnected_def)

lemma sess_inv_events: "sess_inv s \<Longrightarrow> events_inv s"
  by (simp add: sess_inv_def)

lemma inv_stop_presence [inv_intros]: "sess_inv s \<Longrightarrow> sess_inv (stop_presence s)"
  by (auto simp: sess_inv_def events_inv_def link_inv_def stop_presence_def stop_tap_def
      inside_links_def split: option.splits)

lemma inv_ensure_tap [inv_intros]: "sess_inv s \<Longrightarrow> sess_inv (ensure_tap s)"
  by (auto simp: sess_inv_def events_inv_def link_inv_def ensure_tap_def inside_links_def
      intro: less_SucI split: option.splits)


section \<open>Every section keeps the invariant\<close>

lemma events_inv_fresh: "events_inv s \<Longrightarrow> events_inv (s\<lparr>vs_fresh := vs_fresh s + k\<rparr>)"
  by (auto simp: events_inv_def inside_links_def intro: trans_less_add1)

lemma events_inv_cong:
  "vs_events s = vs_events t \<Longrightarrow> vs_fresh t \<le> vs_fresh s \<Longrightarrow> events_inv t \<Longrightarrow> events_inv s"
  by (auto simp: events_inv_def inside_links_def)

lemma ensure_tap_fields [simp]:
  "vs_link (ensure_tap s) = vs_link s" "vs_events (ensure_tap s) = vs_events s"
  "vs_fresh s \<le> vs_fresh (ensure_tap s)" "vs_inside (ensure_tap s) = vs_inside s"
  "vs_presence (ensure_tap s) = vs_presence s" "vs_key (ensure_tap s) = vs_key s"
  by (simp_all add: ensure_tap_def split: option.splits)

lemma open_link_inv:
  assumes "sess_inv s" "vs_link s = None" "open_link r c s = (s1, e)"
  shows "events_inv s1 \<and> (e = None \<longleftrightarrow> vs_link s1 \<noteq> None) \<and> vs_events s1 = vs_events s
    \<and> (c \<notin> set commandsWithoutSession \<longrightarrow> sess_inv s1)"
proof -
  let ?l = "\<lparr>l_id = vs_fresh s, l_bluez = (vs_backend s = ''bluez''), l_ready = []\<rparr>"
  let ?s = "s\<lparr>vs_link := Some ?l, vs_fresh := vs_fresh s + 1\<rparr>"
  have ev: "events_inv s" and none: "vs_tap s = None" "\<not> vs_inside s"
    using assms(1,2) by (simp_all add: sess_inv_def link_inv_def)
  have fresh: "Some (vs_fresh s) \<notin> set (inside_links s)" using ev by (auto simp: events_inv_def)
  show ?thesis
  proof (cases "c \<in> set commandsWithoutSession")
    case True
    then have "s1 = ?s\<lparr>vs_connected := Some (r_end r)\<rparr>" "e = None"
      using assms(3) by (simp_all add: open_link_def)
    then show ?thesis using True by (auto intro: events_inv_cong [OF _ _ ev])
  next
    case False
    let ?t = "ensure_tap ?s"
    obtain rd x where h: "StartSession (r_rounds r) (sessionDomains c) [] = (rd, x)" by fastforce
    have evt: "events_inv ?t"
      by (rule events_inv_cong [OF _ _ ev]) (use ensure_tap_fields(3) [of ?s] in auto)
    show ?thesis
    proof (cases x)
      case None
      have rd: "rd \<noteq> []" using StartSession_bounds [OF h] None by auto
      have "vs_fresh s < vs_fresh ?t" using ensure_tap_fields(3) [of ?s] by simp
      moreover have "\<forall>t. vs_tap ?t = Some t \<longrightarrow> l_bluez ?l \<and> length (tp_inbox t) \<le> INBOX_CAP"
        using none by (auto simp: ensure_tap_def INBOX_CAP_def)
      moreover have "s1 = ?t\<lparr>vs_link := Some (?l\<lparr>l_ready := rd\<rparr>), vs_connected := Some (r_end r)\<rparr>" "e = None"
        using assms(3) False h None by (auto simp: open_link_def Let_def)
      ultimately show ?thesis using evt rd fresh False none
        by (auto simp: sess_inv_def link_inv_def events_inv_def inside_links_def)
    next
      case (Some y)
      then have "s1 = teardown ?t" "e = Some y"
        using assms(3) False h by (auto simp: open_link_def Let_def)
      then show ?thesis using evt by simp
    qed
  qed
qed

lemma inv_fields:
  "sess_inv (s\<lparr>vs_bus := b\<rparr>) = sess_inv s"
  "sess_inv (s\<lparr>vs_quiet := q\<rparr>) = sess_inv s"
  "sess_inv (s\<lparr>vs_key := k\<rparr>) = sess_inv s"
  "sess_inv (s\<lparr>vs_user := u\<rparr>) = sess_inv s"
  "sess_inv (s\<lparr>vs_presence := p\<rparr>) = sess_inv s"
  "sess_inv (s\<lparr>vs_beacon := bc, vs_beacon_at := ba\<rparr>) = sess_inv s"
  "sess_inv (s\<lparr>vs_presence := p, vs_generation := g, vs_cfg := c\<rparr>) = sess_inv s"
  by (rule same_core_inv; simp add: same_core_def inside_links_def)+

lemma ensure_fresh_cases:
  assumes "vs_link s = None" "ensure_connected r c target s = (s1, e)"
  obtains (failed) b where "e \<noteq> None" "s1 = s\<lparr>vs_bus := b\<rparr>"
  | (opened) b where "open_link r c (s\<lparr>vs_bus := b\<rparr>) = (s1, e)"
proof -
  have same: "s = s\<lparr>vs_bus := vs_bus s\<rparr>" by simp
  have "e \<noteq> None \<and> s1 = s \<or> e \<noteq> None \<and> s1 = s\<lparr>vs_bus := True\<rparr>
      \<or> open_link r c s = (s1, e) \<or> open_link r c (s\<lparr>vs_bus := True\<rparr>) = (s1, e)"
    using assms by (auto simp: ensure_connected_def Let_def split: if_splits option.splits)
  then show thesis using failed opened same by metis
qed

lemma ensure_inv:
  assumes "sess_inv s" "ensure_connected r c target s = (s1, e)"
  shows "events_inv s1 \<and> (e = None \<longrightarrow> vs_link s1 \<noteq> None) \<and> vs_events s1 = vs_events s
    \<and> (c \<notin> set commandsWithoutSession \<longrightarrow> sess_inv s1)"
proof (cases "vs_link s")
  case None
  from None assms(2) show ?thesis
  proof (cases rule: ensure_fresh_cases)
    case (failed b)
    then show ?thesis using assms(1) by (auto simp: inv_fields dest: sess_inv_events intro: events_inv_cong)
  next
    case (opened b)
    then show ?thesis using open_link_inv [OF _ _ opened] assms(1) None by (simp add: inv_fields)
  qed
next
  case (Some l)
  have t: "sess_inv (ensure_tap s)" using assms(1) by (rule inv_ensure_tap)
  show ?thesis
  proof (cases "c \<in> set commandsWithoutSession \<or> sessionDomains c = None")
    case True
    then show ?thesis using assms Some t
      by (auto simp: ensure_connected_def Let_def dest: sess_inv_events split: if_splits)
  next
    case False
    then obtain ds where ds: "sessionDomains c = Some ds" by auto
    obtain rd x where h: "StartSession (r_rounds r) (Some ds) (l_ready l) = (rd, x)" by fastforce
    have "l_ready l \<noteq> []" using assms(1) Some by (simp add: sess_inv_def link_inv_def)
    then have rd: "rd \<noteq> []"
      using StartSession_bounds [OF h] requested_domains [of c] ds by auto
    have "s1 = (ensure_tap s)\<lparr>vs_link := Some (l\<lparr>l_ready := rd\<rparr>)\<rparr>"
      using assms(2) Some False ds h by (simp add: ensure_connected_def Let_def)
    then show ?thesis using t rd Some
      by (auto simp: sess_inv_def link_inv_def events_inv_def inside_links_def)
  qed
qed


lemma inv_command [inv_intros]:
  assumes "sess_inv s" shows "sess_inv (fst (dispatch_command r c as s))"
proof -
  obtain s1 e where e: "ensure_connected r c (presence_target s) s = (s1, e)" by fastforce
  note k = ensure_inv [OF assms e]
  show ?thesis
  proof (cases e)
    case None
    with e k show ?thesis by (auto simp: dispatch_command_def Let_def)
  next
    case (Some x)
    show ?thesis
    proof (cases "c \<in> set commandsWithoutSession")
      case True
      have "sess_inv s1"
      proof (cases "vs_link s")
        case None
        from None e show ?thesis
        proof (cases rule: ensure_fresh_cases)
          case (failed b)
          then show ?thesis using assms by (simp add: inv_fields)
        next
          case (opened b)
          then show ?thesis using Some True by (simp add: open_link_def Let_def)
        qed
      qed (use e assms True Some in \<open>simp add: ensure_connected_def\<close>)
      then show ?thesis using e Some by (simp add: dispatch_command_def)
    qed (use e Some k in \<open>simp add: dispatch_command_def\<close>)
  qed
qed

lemma inv_pair [inv_intros]: "sess_inv s \<Longrightarrow> sess_inv (fst (dispatch_pair r as s))"
  by (auto simp: dispatch_pair_def intro: inv_intros split: sum.splits key_file.splits)

lemma inv_keygen [inv_intros]: "sess_inv s \<Longrightarrow> sess_inv (fst (dispatch_keygen k w as s))"
  by (auto simp: dispatch_keygen_def Let_def inv_fields intro!: sess_inv_events [OF inv_stop_presence]
      split: sum.splits key_file.splits option.splits)

lemma inv_navigate_send [inv_intros]: "sess_inv s \<Longrightarrow> sess_inv (fst (navigate_send r call s))"
  by (auto simp: navigate_send_def split: option.splits sum.splits)

lemma inv_presence_start [inv_intros]: "sess_inv s \<Longrightarrow> sess_inv (fst (dispatch_presence_start c s))"
  by (auto simp: dispatch_presence_start_def inv_fields split: option.splits)

lemma inv_prime [inv_intros]: "sess_inv s \<Longrightarrow> sess_inv (prime_vcsec r s)"
proof -
  assume s: "sess_inv s"
  have "sess_inv (s\<lparr>vs_user := u\<rparr>)" for u using s by (simp add: inv_fields)
  moreover have "sess_inv (s\<lparr>vs_prime := Some n, vs_user := u\<rparr>)" if "vs_link s = Some l" for u n l
    using s that by (simp add: sess_inv_def events_inv_def link_inv_def inside_links_def)
  ultimately show ?thesis using s
    by (auto simp: prime_vcsec_def Let_def intro: sess_inv_events split: sum.splits)
qed

lemma emit_inside_cases:
  obtains (quiet) "emit_inside n s = s"
  | (inside) l where "vs_link s = Some l" "vs_presence s" "\<not> vs_inside s"
      "ready_for_inside (vs_connected s) (vs_prime s) n (vs_user s)"
      "emit_inside n s = emit n ''presence_inside'' None (s\<lparr>vs_inside := True\<rparr>)"
proof (cases "vs_link s = None \<or> \<not> vs_presence s \<or> vs_inside s
    \<or> \<not> ready_for_inside (vs_connected s) (vs_prime s) n (vs_user s)")
  case True
  then show thesis by (intro quiet) (simp add: emit_inside_def)
next
  case False
  then obtain l where "vs_link s = Some l" by auto
  with False show thesis by (intro inside) (auto simp: emit_inside_def)
qed

lemma inv_emit_inside [inv_intros]: "sess_inv s \<Longrightarrow> sess_inv (emit_inside n s)"
proof (cases n s rule: emit_inside_cases)
  case (inside l)
  assume "sess_inv s"
  with inside show ?thesis
    by (auto simp: sess_inv_def events_inv_def link_inv_def inside_links_def emit_def)
qed simp

lemma inv_tick_up [inv_intros]: "sess_inv s \<Longrightarrow> sess_inv (tick_up r s)"
  by (auto simp: tick_up_def intro!: inv_intros)

lemma inv_link_lost [inv_intros]: "sess_inv s \<Longrightarrow> sess_inv (link_lost n i e s)"
  by (auto simp: link_lost_def dest: sess_inv_events split: option.splits)

lemma inv_presence_connect [inv_intros]: "sess_inv s \<Longrightarrow> sess_inv (fst (presence_connect r t s))"
proof -
  assume s: "sess_inv s"
  obtain s1 e where e: "ensure_connected r [] t s = (s1, e)" by fastforce
  have s1: "sess_inv s1" using ensure_inv [OF s e] by (simp add: commandsWithoutSession_def)
  then have "sess_inv (prime_vcsec r (ensure_tap (s1\<lparr>vs_quiet := q\<rparr>)))" for q
    by (simp add: inv_fields inv_intros)
  then show ?thesis using e s1
    by (auto simp: presence_connect_def Let_def inv_fields split: option.splits)
qed

lemma inv_depart [inv_intros]: "sess_inv s \<Longrightarrow> sess_inv (presence_depart n s)"
  by (simp add: presence_depart_def) (auto simp: sess_inv_def events_inv_def inside_links_def)

lemma inv_loop_ends [inv_intros]: "sess_inv s \<Longrightarrow> sess_inv (loop_ends n g s)"
  by (simp add: loop_ends_def inv_fields)

interpretation auth_inbox: drop_oldest enqueueAuthDatagram tp_inbox INBOX_CAP
proof
  show "0 < INBOX_CAP" by (simp add: INBOX_CAP_def)
  show "tp_inbox (enqueueAuthDatagram d t) = last_n INBOX_CAP (tp_inbox t @ [d])"
    if "length (tp_inbox t) \<le> INBOX_CAP" for t d
    using that by (cases "tp_inbox t") (auto simp: enqueueAuthDatagram_def last_n_def INBOX_CAP_def)
qed

lemma inv_inbound [inv_intros]: "sess_inv s \<Longrightarrow> sess_inv (inbound d s)"
  using auth_inbox.push_length
  by (auto simp: inbound_def sess_inv_def events_inv_def link_inv_def inside_links_def
      split: option.splits)

lemma inv_auth [inv_intros]: "sess_inv s \<Longrightarrow> sess_inv (fst (auth_respond p f n i s))"
proof -
  assume s: "sess_inv s"
  have "sess_inv (s\<lparr>vs_tap := Some (t\<lparr>tp_inbox := ds\<rparr>)\<rparr>)"
    if "vs_tap s = Some t" "tp_inbox t = d # ds" for t d ds
    using s that
    by (auto simp: sess_inv_def events_inv_def link_inv_def inside_links_def split: option.splits)
  then show ?thesis using s
    by (auto simp: auth_respond_def Let_def case_prod_beta dest: sess_inv_events
        split: option.splits list.splits)
qed

lemma inv_shutdown [inv_intros]: "sess_inv s \<Longrightarrow> sess_inv (shutdown s)"
  by (simp add: shutdown_def inv_fields sess_inv_events inv_stop_presence)

lemma inv_step: "sess_inv s \<Longrightarrow> sess_inv (sess_step op s)"
proof (cases op)
  case (Do_nav_connect r)
  assume s: "sess_inv s"
  obtain s1 e where e: "ensure_connected r [] (presence_target s) s = (s1, e)" by fastforce
  show ?thesis using ensure_inv [OF s e] Do_nav_connect e by (simp add: commandsWithoutSession_def)
qed (simp_all add: inv_intros dispatch_presence_stop_def idle_fires_def store_beacon_def inv_fields
      sess_inv_events inv_stop_presence)

lemma inv_fresh_session [simp]: "sess_inv (fresh_session b i k)"
  by (simp add: sess_inv_def events_inv_def link_inv_def inside_links_def fresh_session_def)

lemma inv_run: "sess_inv s \<Longrightarrow> sess_inv (sess_run ops s)"
  unfolding sess_run_def by (induction ops arbitrary: s) (simp_all add: inv_step)


section \<open>Which sections send the occupancy event\<close>

lemma inside_links_ensure:
  "sess_inv s \<Longrightarrow> inside_links (fst (ensure_connected r c t s)) = inside_links s"
  using ensure_inv [of s r c t] by (metis inside_links_cong prod.collapse)

lemma inside_links_fields [simp]:
  "inside_links (s\<lparr>vs_user := u\<rparr>) = inside_links s" "inside_links (s\<lparr>vs_quiet := q\<rparr>) = inside_links s"
  "inside_links (s\<lparr>vs_key := k\<rparr>) = inside_links s" "inside_links (s\<lparr>vs_bus := h\<rparr>) = inside_links s"
  "inside_links (s\<lparr>vs_prime := pm\<rparr>) = inside_links s"
  "inside_links (s\<lparr>vs_beacon := bc\<rparr>) = inside_links s"
  "inside_links (s\<lparr>vs_beacon_at := ba\<rparr>) = inside_links s"
  "inside_links (s\<lparr>vs_generation := g\<rparr>) = inside_links s" "inside_links (s\<lparr>vs_cfg := c\<rparr>) = inside_links s"
  "inside_links (s\<lparr>vs_presence := pr\<rparr>) = inside_links s" "inside_links (s\<lparr>vs_tap := tp\<rparr>) = inside_links s"
  "inside_links (s\<lparr>vs_inside := io\<rparr>) = inside_links s"
  "inside_links (reset_idle n s) = inside_links s" "inside_links (ensure_tap s) = inside_links s"
  "inside_links (stop_presence s) = inside_links s"
  by (simp_all add: inside_links_def reset_idle_def stop_presence_def stop_tap_def)

lemma inside_links_disconnected [simp]: "inside_links (emit_disconnected n e s) = inside_links s"
  by (simp add: emit_disconnected_def)

lemma inside_links_prime [simp]: "inside_links (prime_vcsec r s) = inside_links s"
  by (simp add: prime_vcsec_def Let_def split: sum.splits)

lemma inside_links_command:
  "sess_inv s \<Longrightarrow> inside_links (fst (dispatch_command r c as s)) = inside_links s"
  using inside_links_ensure [of s r c "presence_target s"]
  by (auto simp: dispatch_command_def Let_def split: prod.splits option.splits)

lemma inside_links_pair:
  "sess_inv s \<Longrightarrow> inside_links (fst (dispatch_pair r as s)) = inside_links s"
  using inside_links_command by (auto simp: dispatch_pair_def split: sum.splits key_file.splits)

lemma inside_links_presence_connect:
  "sess_inv s \<Longrightarrow> inside_links (fst (presence_connect r t s)) = inside_links s"
  using inside_links_ensure [of s r "[]" t]
  by (auto simp: presence_connect_def Let_def split: prod.splits option.splits)

lemma inside_links_auth: "inside_links (fst (auth_respond p f n i s)) = inside_links s"
  by (auto simp: auth_respond_def Let_def case_prod_beta split: option.splits list.splits)

lemma inside_links_other:
  assumes "sess_inv s" "\<nexists>r. op = Do_tick_up r"
  shows "inside_links (sess_step op s) = inside_links s"
proof (cases op)
  case (Do_keygen k w as)
  then show ?thesis
    by (auto simp: dispatch_keygen_def Let_def split: sum.splits key_file.splits option.splits)
qed (use assms in \<open>auto simp: inside_links_command inside_links_pair inside_links_ensure
      inside_links_presence_connect inside_links_auth navigate_send_def dispatch_presence_start_def
      dispatch_presence_stop_def shutdown_def idle_fires_def link_lost_def store_beacon_def
      presence_depart_def loop_ends_def inbound_def split: option.splits sum.splits\<close>)
section \<open>What a connect makes ready\<close>

lemma sessionDomains_nil [simp]: "sessionDomains [] = Some [VCSEC]"
  by (simp add: sessionDomains_def)

lemma ensure_vcsec_ready:
  assumes "ensure_connected r [] t s = (s1, None)"
  shows "\<exists>l1. vs_link s1 = Some l1 \<and>
    (Infotainment \<in> set (l_ready l1) \<longrightarrow>
       (\<exists>l. vs_link s = Some l \<and> Infotainment \<in> set (l_ready l)))"
proof (cases "vs_link s")
  case None
  from None assms show ?thesis
  proof (cases rule: ensure_fresh_cases)
    case (opened b)
    then obtain rd where h: "StartSession (r_rounds r) (Some [VCSEC]) [] = (rd, None)"
      and l: "vs_link s1 = Some \<lparr>l_id = vs_fresh s, l_bluez = (vs_backend s = ''bluez''), l_ready = rd\<rparr>"
      by (auto simp: open_link_def Let_def commandsWithoutSession_def split: prod.splits option.splits)
    have "Infotainment \<notin> set rd"
      using StartSession_bounds [OF h] by (auto simp: requested_def)
    with l show ?thesis by simp
  qed simp
next
  case (Some l)
  then obtain rd where h: "StartSession (r_rounds r) (Some [VCSEC]) (l_ready l) = (rd, None)"
    and l: "vs_link s1 = Some (l\<lparr>l_ready := rd\<rparr>)"
    using assms by (auto simp: ensure_connected_def Let_def commandsWithoutSession_def split: prod.splits)
  have "Infotainment \<in> set rd \<longrightarrow> Infotainment \<in> set (l_ready l)"
    using StartSession_bounds [OF h] by (auto simp: requested_def)
  with l Some show ?thesis by simp
qed

lemma navigate_domain: "navigate_call r as = Inr call \<Longrightarrow> call_domain call = Some Infotainment"
  by (auto simp: navigate_call_def call_domain_def split: list.splits if_splits)

lemma only_status_has_domain:
  "list_all (\<lambda>(c, i). vc_domain i \<noteq> None \<longrightarrow> c = ''body-controller-state'') vendor_commands"
  by code_simp

lemma sessionDomains_ordinary:
  assumes "vendor c = Some info" "c \<noteq> ''state''" "c \<noteq> ''body-controller-state''"
  shows "sessionDomains c = None"
proof -
  have "vc_domain info = None"
    using only_status_has_domain assms map_of_SomeD [of vendor_commands c info]
    by (auto simp: vendor_def list_all_iff)
  moreover have "c \<noteq> []" using assms(1) by (auto simp: vendor_def vendor_commands_def)
  ultimately show ?thesis using assms by (simp add: sessionDomains_def)
qed

lemma ordinary_on_link:
  assumes "vs_link s = Some l" "vendor_call g c as = Inr call" "call_domain call = Some Infotainment"
    and "c \<noteq> ''state''"
  shows "ensure_connected r c t s = (ensure_tap s, None)" "c \<notin> set commandsWithoutSession"
proof -
  obtain info where v: "vendor c = Some info"
    using assms(2) by (auto simp: vendor_call_def checkReadiness_def split: option.splits)
  have h: "handler g c (keywordArguments info as) = Inr call"
    using assms(2) v by (auto simp: vendor_call_def checkReadiness_def split: if_splits)
  have "c \<noteq> ''body-controller-state''"
    using h assms(3) by (auto simp: handler_def plain_calls_def call_domain_def)
  then have d: "sessionDomains c = None" using sessionDomains_ordinary [OF v assms(4)] by blast
  show n: "c \<notin> set commandsWithoutSession"
  proof
    assume "c \<in> set commandsWithoutSession"
    then have "c = ''add-key-request''" by (simp add: commandsWithoutSession_def)
    with h assms(3) show False
      by (auto simp: handler_def plain_calls_def state_calls_def h_add_key_def call_domain_def
          split: option.splits)
  qed
  show "ensure_connected r c t s = (ensure_tap s, None)"
    using assms(1) d n by (simp add: ensure_connected_def)
qed

lemma ensure_key: "vs_key (fst (ensure_connected r c t s)) = vs_key s"
proof -
  obtain s1 e where e: "ensure_connected r c t s = (s1, e)" by fastforce
  show ?thesis
  proof (cases "vs_link s")
    case None
    from None e show ?thesis
    proof (cases rule: ensure_fresh_cases)
      case (opened b)
      then show ?thesis using e
        by (auto simp: open_link_def Let_def split: if_splits prod.splits option.splits)
    qed (use e in simp)
  next
    case (Some l)
    then show ?thesis using e
      by (auto simp: ensure_connected_def Let_def split: if_splits prod.splits option.splits)
  qed
qed

lemma enrolled_session:
  "wait_for_enrollment True as ready = (rd, None) \<Longrightarrow>
   VCSEC \<in> set rd \<and> (\<exists>hs. (Inr True, hs) \<in> set as)"
proof (induction True as ready rule: wait_for_enrollment.induct)
  case (2 info hs as ready)
  then show ?case using StartSession_bounds [of hs "Some [VCSEC]" ready]
    by (auto simp: requested_def split: sum.splits bool.splits prod.splits option.splits)
qed simp

end
