(* ===== verification/Session_Properties.thy ===== *)
theory Session_Properties
  imports Session_Invariants
begin

text \<open>
  The properties of the session process: what holds of its link and events in every reachable state,
  what navigation, ordinary commands, key generation and pairing do with the link, and what the
  authentication responder grants.
\<close>

section \<open>A sample session\<close>

text \<open>Everything answers well; used to show that the properties' hypotheses can hold.\<close>

definition sample_radio :: "int \<Rightarrow> radio" where
  "sample_radio now =
    \<lparr>r_begin = now, r_end = now, r_go = sample_go, r_bus = None, r_adapter = None, r_gatt = None,
     r_vehicle = None, r_attach = None,
     r_rounds = [\<lparr>hs_first = VCSEC, hs_reply = \<lambda>_. None\<rparr>],
     r_reply = (\<lambda>_. Inr ''done''), r_status = Inr Presence_present, r_public = Inr ''K'',
     r_attempts = [(Inr True, [\<lparr>hs_first = VCSEC, hs_reply = \<lambda>_. None\<rparr>])],
     r_float = (\<lambda>_. Some (F_Fin 7))\<rparr>"

definition sample_new :: vsess where
  "sample_new = fresh_session ''bluez'' (90 * SECOND) (Key_file ''K'' (Some ''PEM''))"

definition sample_beacon :: beacon where
  "sample_beacon = \<lparr>b_ref = 5, b_rssi = Some (- 60)\<rparr>"

definition arrive_ops :: "sess_op list" where
  "arrive_ops = [Do_presence_start (Some default_presence_config), Do_beacon 0 (Some sample_beacon),
     Do_presence_connect (sample_radio 0) (Some sample_beacon)]"

definition sample_near :: vsess where
  "sample_near = sess_run arrive_ops sample_new"

lemma sample_near_link: "vs_link sample_near = Some \<lparr>l_id = 0, l_bluez = True, l_ready = [VCSEC]\<rparr>"
  by code_simp

lemma sample_connect:
  "vs_link (fst (ensure_connected (sample_radio 0) [] None sample_new)) \<noteq> None"
  "snd (ensure_connected (sample_radio 0) [] None sample_new) = None"
  by code_simp+

lemma sample_address:
  "navigate_call r [''address'', ''Home''] = Inr (Car ''NavigateToDestination'' [CA_str ''Home''])"
proof -
  have t: "trim ''Home'' = ''Home''" by (rule trim_plain) (simp add: plain_def byte_def)
  have "char_count ''Home'' \<le> 4" using char_count_le [of "''Home''"] by simp
  then show ?thesis by (simp add: navigate_call_def t)
qed

section \<open>Properties\<close>

text \<open>
  C5: In every reachable state of the session process a cached link is authenticated to at least
  one subsystem, an authentication tap exists only on a live BlueZ link and holds at most 64
  datagrams, and without a link nothing of the last one (status time, connect time, occupancy) is
  left behind.
\<close>

theorem link_always_authenticated:
  defines "s ops backend idle key \<equiv> sess_run ops (fresh_session backend idle key)"
  shows "case vs_link (s ops backend idle key) of
      Some l \<Rightarrow> l_ready l \<noteq> [] \<and> vs_connected (s ops backend idle key) \<noteq> None
        \<and> (\<forall>t. vs_tap (s ops backend idle key) = Some t \<longrightarrow>
             l_bluez l \<and> length (tp_inbox t) \<le> 64)
    | None \<Rightarrow> vs_tap (s ops backend idle key) = None \<and> vs_prime (s ops backend idle key) = None
        \<and> vs_connected (s ops backend idle key) = None \<and> \<not> vs_inside (s ops backend idle key)"
proof -
  have "link_inv (s ops backend idle key)"
    using inv_run [OF inv_fresh_session] unfolding s_def by (simp add: sess_inv_def)
  then show ?thesis by (auto simp: link_inv_def INBOX_CAP_def split: option.splits)
qed

theorem link_always_authenticated_witness:
  "vs_link sample_near \<noteq> None \<and> l_ready (the (vs_link sample_near)) \<noteq> []"
  using link_always_authenticated [of arrive_ops "''bluez''" "90 * SECOND" "Key_file ''K'' (Some ''PEM'')"]
    sample_near_link
  by (simp add: sample_near_def sample_new_def)

text \<open>
  C20: The occupancy event is sent at most once per connection, and only in presence mode while that
  connection has been up for 45 seconds and the vehicle itself reported an occupant in a status that
  is at most 30 seconds old.
\<close>

theorem inside_once_per_link:
  fixes ops op backend idle key
  defines "s \<equiv> sess_run ops (fresh_session backend idle key)"
  defines "t \<equiv> sess_step op s"
  defines "now \<equiv> ev_time (last (vs_events t))"
  shows "distinct (inside_links t)
    \<and> (inside_links t \<noteq> inside_links s \<longrightarrow>
        (\<exists>l since seen. inside_links t = inside_links s @ [Some (l_id l)]
           \<and> vs_link t = Some l \<and> vs_presence t
           \<and> vs_connected t = Some since \<and> since + 45 * SECOND \<le> now
           \<and> vs_prime t = Some seen \<and> seen \<le> now \<and> now - seen \<le> 30 * SECOND
           \<and> vs_user t = Presence_present))"
proof -
  have s: "sess_inv s" unfolding s_def by (rule inv_run [OF inv_fresh_session])
  have "distinct (inside_links t)"
    using inv_step [OF s] unfolding t_def by (simp add: sess_inv_def events_inv_def)
  moreover have "\<exists>l since seen. inside_links t = inside_links s @ [Some (l_id l)]
           \<and> vs_link t = Some l \<and> vs_presence t
           \<and> vs_connected t = Some since \<and> since + 45 * SECOND \<le> now
           \<and> vs_prime t = Some seen \<and> seen \<le> now \<and> now - seen \<le> 30 * SECOND
           \<and> vs_user t = Presence_present" if "inside_links t \<noteq> inside_links s"
  proof -
    obtain r where op: "op = Do_tick_up r"
      using inside_links_other [OF s] \<open>inside_links t \<noteq> inside_links s\<close> unfolding t_def by blast
    define u where "u = (if vs_link s = None then s
       else reset_idle (r_end r) (if prime_due (vs_prime s) (r_begin r) then prime_vcsec r s else s))"
    have t: "t = emit_inside (r_end r) u" unfolding t_def op u_def by (simp add: tick_up_def)
    have u: "inside_links u = inside_links s" by (simp add: u_def)
    show ?thesis
    proof (cases "r_end r" u rule: emit_inside_cases)
      case quiet
      then show ?thesis using that t u by simp
    next
      case (inside l)
      then show ?thesis using t u unfolding now_def
        by (auto simp: ready_for_inside_def INSIDE_SETTLE_def VCSEC_PRIME_INTERVAL_def emit_def
            inside_links_def split: option.splits)
    qed
  qed
  ultimately show ?thesis by blast
qed

theorem inside_once_per_link_witness:
  "vs_user (sess_step (Do_tick_up (sample_radio (50 * SECOND))) sample_near) = Presence_present"
proof -
  let ?t = "sess_step (Do_tick_up (sample_radio (50 * SECOND))) sample_near"
  have "inside_links ?t = [Some 0]" "inside_links sample_near = []" by code_simp+
  then have ne: "inside_links ?t \<noteq> inside_links sample_near" by simp
  note once = inside_once_per_link [of "Do_tick_up (sample_radio (50 * SECOND))" arrive_ops "''bluez''"
        "90 * SECOND" "Key_file ''K'' (Some ''PEM'')", folded sample_new_def, folded sample_near_def]
  from mp [OF conjunct2 [OF once] ne] show ?thesis by (elim exE conjE)
qed

text \<open>
  C15: Navigation works only over a link that already had an infotainment session.  The request
  itself handshakes with the body controller alone, so on a link it has just opened the SDK refuses
  to send, and it is answered with success only when the link was up before with infotainment ready.
\<close>

theorem navigate_needs_infotainment:
  assumes "dispatch_navigate r id as s = (s', a)"
  shows "(answered a \<longrightarrow> (\<exists>l. vs_link s = Some l \<and> Infotainment \<in> set (l_ready l)))
    \<and> (vs_link s = None \<longrightarrow> vs_link s' \<noteq> None \<longrightarrow>
         (\<exists>call. navigate_call r as = Inr call \<and>
            a = A_fail 1 (case call_check call of None \<Rightarrow> E_no_session | Some e \<Rightarrow> e)))"
proof (cases "navigate_call r as")
  case (Inl e)
  then show ?thesis using assms by (auto simp: dispatch_navigate_def)
next
  case (Inr call)
  obtain s1 e where e: "ensure_connected r [] (presence_target s) s = (s1, e)" by fastforce
  show ?thesis
  proof (cases e)
    case (Some x)
    then have "s' = s1 \<and> a = A_fail 1 x" using assms Inr e by (simp add: dispatch_navigate_def)
    moreover have "vs_link s1 = None" if "vs_link s = None"
      using that e
    proof (cases rule: ensure_fresh_cases)
      case (opened b)
      then show ?thesis using Some by (auto simp: open_link_def Let_def split: if_splits prod.splits option.splits)
    qed (use that in simp)
    ultimately show ?thesis by simp
  next
    case None
    then obtain l1 where l1: "vs_link s1 = Some l1"
      "Infotainment \<in> set (l_ready l1) \<longrightarrow> (\<exists>l. vs_link s = Some l \<and> Infotainment \<in> set (l_ready l))"
      using ensure_vcsec_ready e by blast
    have a: "(s', a) = navigate_send r call s1"
      using assms Inr e None by (simp add: dispatch_navigate_def)
    show ?thesis
    proof (cases "Infotainment \<in> set (l_ready l1)")
      case True
      then show ?thesis using l1(2) by auto
    next
      case False
      then have "a = A_fail 1 (case call_check call of None \<Rightarrow> E_no_session | Some e \<Rightarrow> e)"
        using a l1(1) navigate_domain [OF Inr]
        by (auto simp: navigate_send_def call_car_def split: option.splits)
      then show ?thesis using Inr by auto
    qed
  qed
qed

theorem navigate_needs_infotainment_witness:
  "snd (dispatch_navigate (sample_radio 0) id [''address'', ''Home''] sample_new) = A_fail 1 E_no_session"
proof -
  let ?d = "dispatch_navigate (sample_radio 0) id [''address'', ''Home''] sample_new"
  have new: "vs_link sample_new = None" "presence_target sample_new = None"
    by (simp_all add: sample_new_def fresh_session_def presence_target_def)
  then have "vs_link (fst ?d) \<noteq> None"
    using sample_connect
    by (auto simp: dispatch_navigate_def sample_address navigate_send_def reset_idle_def
        split: prod.splits option.splits sum.splits)
  then show ?thesis
    using navigate_needs_infotainment [of "sample_radio 0" "[''address'', ''Home'']" sample_new "fst ?d"
        "snd ?d"] new(1)
    by (simp add: sample_address call_check_def)
qed

text \<open>
  An address the app accepts by its character count but whose bytes exceed the SDK's bound is always
  refused.
\<close>

lemma long_address_refused:
  assumes "char_count (trim a) \<le> 2000" and "2000 < length (trim a)"
  shows "navigate_call r [''address'', a] = Inr (Car ''NavigateToDestination'' [CA_str (trim a)])"
    and "\<not> answered (snd (dispatch_navigate r between [''address'', a] s))"
proof -
  have "trim a \<noteq> []" using assms(2) by auto
  then show n: "navigate_call r [''address'', a]
      = Inr (Car ''NavigateToDestination'' [CA_str (trim a)])"
    using assms(1) by (simp add: navigate_call_def)
  show "\<not> answered (snd (dispatch_navigate r between [''address'', a] s))"
    using assms(2) unfolding dispatch_navigate_def n
    by (auto simp: navigate_send_def call_car_def call_check_def split: prod.splits option.splits)
qed

text \<open>
  On a live link an ordinary command that goes to infotainment is sent only if the link
  has an infotainment session already: no handshake is made for it, and without one it fails with the
  missing-session error while the link stays up.
\<close>

theorem command_on_live_link:
  assumes "vs_link s = Some l" and "vendor_call (r_go r) c as = Inr call"
    and "call_domain call = Some Infotainment" and "c \<noteq> ''state''"
  shows "snd (dispatch_command r c as s) =
      (case call_check call of
         Some e \<Rightarrow> A_fail 1 e
       | None \<Rightarrow> if Infotainment \<in> set (l_ready l) then exec_answer (r_reply r call)
                 else A_fail 1 E_no_session)
    \<and> vs_link (fst (dispatch_command r c as s)) = Some l"
proof -
  note e = ordinary_on_link [OF assms]
  show ?thesis
    using e assms
    by (auto simp: dispatch_command_def Let_def execute_on_def execute_def call_car_def
        exec_answer_def reset_idle_def split: option.splits)
qed

theorem command_on_live_link_witness:
  "snd (dispatch_command (sample_radio 0) ''flash-lights'' [] sample_near) = A_fail 1 E_no_session"
proof -
  have "vendor_call (r_go (sample_radio 0)) ''flash-lights'' [] = Inr (Car ''FlashLights'' [])"
    by code_simp
  then show ?thesis
    using command_on_live_link [OF sample_near_link, of "sample_radio 0" "''flash-lights''"]
    by (simp add: call_domain_def call_check_def)
qed

text \<open>
  C17: While presence mode runs without a link, a command or navigation request is answered
  with an error and touches neither the radio nor any state, unless a beacon at least as strong as the
  threshold was seen within the last two scan intervals.
\<close>

theorem away_commands_deferred:
  assumes "vs_presence s" and "vs_backend s = ''bluez''" and "vs_link s = None"
    and "0 < scan_interval (vs_cfg s)"
    and "\<And>b q seen. vs_beacon s = Some b \<Longrightarrow> b_rssi b = Some q \<Longrightarrow> near_rssi (vs_cfg s) \<le> q \<Longrightarrow>
           vs_beacon_at s = Some seen \<Longrightarrow> 2 * scan_interval (vs_cfg s) < r_begin r - seen"
  shows "fst (dispatch_command r c as s) = s \<and> \<not> answered (snd (dispatch_command r c as s))
    \<and> fst (dispatch_navigate r id as s) = s \<and> \<not> answered (snd (dispatch_navigate r id as s))"
proof -
  have "\<not> target_ready s (presence_target s) (r_begin r)"
    using assms(4,5)
    by (auto simp: target_ready_def Let_def presence_target_def presence_live_near_def
        split: option.splits) fastforce
  then have "ensure_connected r x (presence_target s) s =
      (s, Some (E_plain ''vehicle not nearby; wait for phone key to connect and retry''))" for x
    using assms(1,2,3) by (simp add: ensure_connected_def)
  then show ?thesis
    by (simp add: dispatch_command_def dispatch_navigate_def split: sum.splits)
qed

theorem away_commands_deferred_witness:
  "fst (dispatch_command (sample_radio 0) ''lock'' []
     (fst (dispatch_presence_start (Some default_presence_config) sample_new)))
   = fst (dispatch_presence_start (Some default_presence_config) sample_new)"
proof -
  let ?s = "fst (dispatch_presence_start (Some default_presence_config) sample_new)"
  have "vs_presence ?s" "vs_backend ?s = ''bluez''" "vs_link ?s = None" "vs_beacon ?s = None"
    "0 < scan_interval (vs_cfg ?s)"
    by (simp_all add: dispatch_presence_start_def sample_new_def fresh_session_def
        default_presence_config_def SECOND_def)
  then show ?thesis using away_commands_deferred [of ?s "sample_radio 0" "''lock''" "[]"] by simp
qed

text \<open>
  Key generation never replaces a key it was not told to: without the force flag an
  existing or unreadable key file is left alone, a failure changes nothing, a success prints the key
  that is in the file, and a forced replacement ends presence mode and the link of the old key.
\<close>

theorem keygen_keeps_existing_key:
  assumes "dispatch_keygen fresh saved as s = (t, a)"
  shows "(''-f'' \<notin> set as \<longrightarrow> vs_key s \<noteq> Key_missing \<longrightarrow> t = s)
    \<and> (\<not> answered a \<longrightarrow> t = s)
    \<and> (answered a \<longrightarrow> (\<exists>pub pem. vs_key t = Key_file pub (Some pem) \<and> a = A_ok pem))
    \<and> (answered a \<longrightarrow> ''-f'' \<in> set as \<longrightarrow>
         vs_link t = None \<and> vs_tap t = None \<and> \<not> vs_presence t)"
  using assms
  by (auto simp: dispatch_keygen_def Let_def stop_presence_def stop_tap_def
      split: if_splits sum.splits key_file.splits option.splits)

theorem keygen_keeps_existing_key_witness:
  "vs_link (fst (dispatch_keygen (Inr (''N'', Some ''NEW'')) None [''-f''] sample_near)) = None
   \<and> fst (dispatch_keygen (Inr (''N'', Some ''NEW'')) None [] sample_new) = sample_new"
proof -
  have "answered (snd (dispatch_keygen (Inr (''N'', Some ''NEW'')) None [''-f''] sample_near))"
    by (simp add: dispatch_keygen_def)
  moreover have "vs_key sample_new \<noteq> Key_missing" by (simp add: sample_new_def fresh_session_def)
  ultimately show ?thesis
    using keygen_keeps_existing_key [of "Inr (''N'', Some ''NEW'')" None "[''-f'']" sample_near]
      keygen_keeps_existing_key [of "Inr (''N'', Some ''NEW'')" None "[]" sample_new]
    by (metis list.set_intros(1) empty_iff list.set(1) prod.collapse)
qed

text \<open>
  C16: Pairing enrols only this phone's own key and reports success only after the vehicle
  confirmed it: a foreign public key is refused with nothing sent, and whatever happens the
  unauthenticated link it used is not kept.
\<close>

theorem pair_proves_own_key:
  assumes "dispatch_pair r as s = (t, a)"
  shows "(answered a \<longrightarrow>
      (\<exists>pub pem. r_public r = Inr pub \<and> vs_key s = Key_file pub pem
         \<and> (\<exists>hs. (Inr True, hs) \<in> set (r_attempts r))))
    \<and> (t = s \<or> vs_link t = None)
    \<and> (\<forall>pub own pem. r_public r = Inr pub \<longrightarrow> vs_key s = Key_file own pem \<longrightarrow> pub \<noteq> own \<longrightarrow>
         t = s \<and> \<not> answered a)"
proof (cases "length as = 3 \<and> (\<exists>pub pem. r_public r = Inr pub \<and> vs_key s = Key_file pub pem)")
  case False
  then show ?thesis using assms
    by (auto simp: dispatch_pair_def split: if_splits sum.splits key_file.splits)
next
  case True
  then obtain pub pem where k: "r_public r = Inr pub" "vs_key s = Key_file pub pem" by auto
  have d: "dispatch_command r ''add-key-request'' as s = (t, a)"
    using assms True k by (simp add: dispatch_pair_def)
  obtain s1 e where e: "ensure_connected r ''add-key-request'' (presence_target s) s = (s1, e)"
    by fastforce
  have k1: "vs_key s1 = Key_file pub pem" using ensure_key e k(2) by (metis fst_conv)
  have conf: "\<exists>hs. (Inr True, hs) \<in> set (r_attempts r)" if "confirm_enrollment r s1 = None"
    using that k(1) k1 enrolled_session [of "r_attempts r"]
    by (auto simp: confirm_enrollment_def split: option.splits) (metis prod.collapse)
  show ?thesis
  proof (cases e)
    case None
    then have "t = teardown s1" "answered a \<longrightarrow> confirm_enrollment r s1 = None"
      using d e
      by (auto simp: dispatch_command_def Let_def commandsWithoutSession_def exec_answer_def
          split: sum.splits option.splits)
    then show ?thesis using conf k by auto
  next
    case (Some x)
    then have "t = s1" "\<not> answered a" using d e by (auto simp: dispatch_command_def)
    moreover have "vs_link s1 = None"
    proof (cases "vs_link s")
      case None
      from None e show ?thesis
      proof (cases rule: ensure_fresh_cases)
        case (opened b)
        then show ?thesis using Some by (auto simp: open_link_def Let_def commandsWithoutSession_def)
      qed (use None in simp)
    qed (use e Some in \<open>simp add: ensure_connected_def commandsWithoutSession_def\<close>)
    ultimately show ?thesis using k by auto
  qed
qed

theorem pair_proves_own_key_witness:
  "answered (snd (dispatch_pair (sample_radio 0) [''k.pem'', ''owner'', ''cloud_key''] sample_new))
   \<and> (\<exists>hs. (Inr True, hs) \<in> set (r_attempts (sample_radio 0)))
   \<and> vs_link (fst (dispatch_pair (sample_radio 0) [''k.pem'', ''owner'', ''cloud_key''] sample_new)) = None"
proof -
  let ?d = "dispatch_pair (sample_radio 0) [''k.pem'', ''owner'', ''cloud_key''] sample_new"
  have a: "answered (snd ?d)" by code_simp
  have "vs_link sample_new = None" by (simp add: sample_new_def fresh_session_def)
  then show ?thesis
    using a pair_proves_own_key [of "sample_radio 0" "[''k.pem'', ''owner'', ''cloud_key'']" sample_new
        "fst ?d" "snd ?d"] by auto
qed

text \<open>
  C26: The responder grants exactly what the vehicle asked: it sends a response only for the
  oldest datagram of its own inbox, at the level requested there, unlock or drive, over a live link
  with a ready body-controller session.
\<close>

theorem auth_grants_what_was_asked:
  assumes "auth_respond parse send now i s = (t, Some lvl)"
  shows "\<exists>tp d ds l. vs_tap s = Some tp \<and> tp_id tp = i \<and> tp_inbox tp = d # ds \<and> parse d = Some lvl
    \<and> (lvl = Auth_unlock \<or> lvl = Auth_drive) \<and> vs_link s = Some l \<and> VCSEC \<in> set (l_ready l)"
  using assms
  by (auto simp: auth_respond_def Let_def authorizable_def split: if_splits option.splits list.splits)

theorem auth_grants_what_was_asked_witness:
  "\<exists>l. vs_link sample_near = Some l \<and> VCSEC \<in> set (l_ready l)"
proof -
  let ?s = "inbound ''x'' sample_near"
  let ?a = "auth_respond (\<lambda>_. Some Auth_unlock) (\<lambda>_. None) 0 1 ?s"
  have "snd ?a = Some Auth_unlock" by code_simp
  then have "?a = (fst ?a, Some Auth_unlock)" by (metis prod.collapse)
  from auth_grants_what_was_asked [OF this] show ?thesis by (auto simp: inbound_def)
qed

end
