(* ===== verification/Share_Properties.thy ===== *)
theory Share_Properties
  imports Core_Properties Session_Properties
begin

text \<open>
  Sharing a destination from end to end: what the core writes to the session process for a shared text,
  and what the session process makes of it.
\<close>

section \<open>The call a destination becomes\<close>

fun destination_call :: "destination \<Rightarrow> car_call" where
  "destination_call (LatLon lat lon) = Car ''NavigateToGPS'' [CA_num lat, CA_num lon, CA_int 0]"
| "destination_call (Address a) = Car ''NavigateToDestination'' [CA_str (trim a)]"

text \<open>
  Printing and parsing the coordinates sent: Rust prints a finite \<^verbatim>\<open>f64\<close> with as many digits as it
  takes to read it back, and Go's \<^verbatim>\<open>ParseFloat\<close> returns the nearest \<^verbatim>\<open>float64\<close>.
\<close>

definition reads_back :: "url_lib \<Rightarrow> radio \<Rightarrow> f64 \<Rightarrow> bool" where
  "reads_back lib r x = (r_float r (trim (ul_show lib x)) = Some x)"

section \<open>Examples\<close>

lemma sample_home: "parse_shared_text sample_lib ''Home'' = Inr (Address ''Home'')"
proof -
  have p: "list_all plain ''Home''" by (simp add: plain_def byte_def)
  note t = plain_text [OF p, simplified]
  have u: "first_url_token ''Home'' = None"
    by (simp add: first_url_token_def t trim_matches_def url_punctuation_def to_lower_def ascii_lower_def
        is_upper_def byte_def)
  have g: "strip_geo ''Home'' = None"
    by (simp add: strip_geo_def eq_ignore_case_def to_lower_def ascii_lower_def is_upper_def byte_def)
  have n: "numeric_pair ''Home'' = None" by (simp add: numeric_pair_def t trim_matches_def Let_def)
  have "char_count ''Home'' \<le> 2000" using char_count_le [of "''Home''"] by simp
  then show ?thesis
    by (simp add: parse_shared_text_def MAX_SHARE_TEXT_LEN_def t u parse_share_line_def g
        parse_plain_line_def parse_latlon_pair_def looks_like_latlon_pair_def n)
qed

lemma sample_sevens: "parse_shared_text sample_lib ''7,7'' = Inr (LatLon (F_Fin 7) (F_Fin 7))"
proof -
  have p: "list_all plain ''7,7''" by (simp add: plain_def byte_def)
  note t = plain_text [OF p, simplified]
  have u: "first_url_token ''7,7'' = None"
    by (simp add: first_url_token_def t trim_matches_def url_punctuation_def to_lower_def ascii_lower_def
        is_upper_def byte_def)
  have g: "strip_geo ''7,7'' = None" by (simp add: strip_geo_def)
  have n: "numeric_pair ''7,7'' = Some (F_Fin 7, F_Fin 7)"
    using sample_pair [of "''7''" "''7''"] round64_of_int [of 7]
    by (simp add: is_digit_def byte_def digits_val_def digit_val_def)
  have "char_count ''7,7'' \<le> 2000" using char_count_le [of "''7,7''"] by simp
  then show ?thesis
    by (simp add: parse_shared_text_def MAX_SHARE_TEXT_LEN_def t u parse_share_line_def g
        parse_plain_line_def parse_latlon_pair_def valid_latlon_def f64_is_finite_def f64_within_iff n)
qed

lemma sample_decodes: "decodes_short sample_lib"
proof -
  have "char_count ''999,999'' \<le> char_count sample_url" "char_count ''1,1'' \<le> char_count sample_url"
    by (simp_all add: sample_url_def char_count_def is_cont_def byte_def)
  then show ?thesis by (simp add: decodes_short_def sample_lib_def url_params_def)
qed

section \<open>Properties\<close>

text \<open>
  One parser, no drift: whatever destination the core parses from a shared text, the session
  process accepts the arguments it is sent for it and asks the vehicle for exactly that destination, the
  same coordinates or the same address; its own checks of shape, range and length never refuse one.
\<close>

theorem parsed_destination_accepted:
  assumes "parse_shared_text lib input = Inr d"
    and "\<And>lat lon. d = LatLon lat lon \<Longrightarrow> reads_back lib r lat \<and> reads_back lib r lon"
    and "decodes_short lib"
  shows "navigate_call r (navigate_args lib d) = Inr (destination_call d)"
proof (cases d)
  case (LatLon lat lon)
  have v: "valid_latlon lat lon"
    using shared_destination_bounds(2) [OF assms(1)] LatLon by (simp add: good_destination_def)
  then have "coordinate r ''lat'' (ul_show lib lat) = Inr lat" "coordinate r ''lon'' (ul_show lib lon) = Inr lon"
    using assms(2) [OF LatLon] by (simp_all add: coordinate_def reads_back_def valid_latlon_def)
  then show ?thesis using LatLon v by (simp add: navigate_call_def valid_latlon_def)
next
  case (Address a)
  have "trim a \<noteq> []" "char_count a \<le> 2000"
    using shared_destination_bounds(2) [OF assms(1)] shared_destination_bounds(3) [OF assms(1,3)] Address
    by (simp_all add: good_destination_def short_destination_def)
  moreover have "char_count (trim a) \<le> char_count a" by (rule char_count_trim)
  ultimately show ?thesis using Address by (simp add: navigate_call_def)
qed

theorem parsed_destination_accepted_witness:
  "navigate_call (sample_radio 0) (navigate_args sample_lib (LatLon (F_Fin 7) (F_Fin 7)))
    = Inr (Car ''NavigateToGPS'' [CA_num (F_Fin 7), CA_num (F_Fin 7), CA_int 0])"
  using parsed_destination_accepted [OF sample_sevens, of "sample_radio 0"] sample_decodes
  by (simp add: reads_back_def sample_radio_def)

text \<open>
  A share that is answered was parsed, found a VIN and no other command in progress, and wrote one
  navigation request to a live child, with exactly the kind and values the preview shows for the same
  text.  A share that is refused leaves the core as it was; a failed exchange leaves presence off; none
  of them touches settings or files.
\<close>

theorem share_sends_preview:
  assumes "core_inv k"
  shows "case share_destination e lib busy shared k of
      (Inr out, k') \<Rightarrow>
        \<not> busy \<and> vin (cfg k) \<noteq> [] \<and> cfg k' = cfg k \<and> disk k' = disk k
        \<and> (\<exists>s t ch kind a b. sess k = Some s \<and> sess k' = Some t \<and> s_child t = Some ch \<and> ch_alive ch
             \<and> preview_destination lib shared = Inr (kind, a, b)
             \<and> ch_sent ch = sent_to s @ [request_json (nat_digits (unat (s_next_id s))) ''navigate''
                              (if kind = ''gps'' then [kind, a, b] else [kind, a])])
    | (Inl err, k') \<Rightarrow>
        cfg k' = cfg k \<and> disk k' = disk k
        \<and> (k' = k \<or> (\<exists>m. err = SessionUnavailable m) \<and> \<not> presence_active k')
        \<and> (\<forall>err'. preview_destination lib shared = Inl err' \<longrightarrow> err = err' \<and> k' = k)"
proof (cases "parse_shared_text lib shared")
  case (Inl err)
  then show ?thesis by (simp add: share_destination_def preview_destination_def)
next
  case (Inr d)
  have prev: "\<exists>kind a b. preview_destination lib shared = Inr (kind, a, b)
      \<and> navigate_args lib d = (if kind = ''gps'' then [kind, a, b] else [kind, a])"
    using Inr by (cases d) (auto simp: preview_destination_def)
  show ?thesis
  proof (cases "busy \<or> vin (cfg k) = [] \<or> sess k = None")
    case True
    then show ?thesis using Inr prev by (auto simp: share_destination_def)
  next
    case False
    then obtain s where s: "sess k = Some s" "\<not> busy" "vin (cfg k) \<noteq> []" by auto
    obtain res t where call: "call_session e (e_main e) ''navigate'' (navigate_args lib d) (cfg k) s = (res, t)"
      by fastforce
    show ?thesis
    proof (cases res)
      case err: (Inl x)
      have "session_inv s" using assms s(1) by (simp add: core_inv_def)
      then have "\<not> is_presence_active t" using call_error_inactive call err by auto
      then show ?thesis using Inr s call err prev
        by (auto simp: share_destination_def presence_active_def)
    next
      case ok: (Inr q)
      obtain ch where "s_child t = Some ch" "ch_alive ch" "ch_sent ch
          = sent_to s @ [request_json (nat_digits (unat (s_next_id s))) ''navigate'' (navigate_args lib d)]"
        using session_run_sends call ok by (metis call_session_def)
      then show ?thesis using Inr s call ok prev by (auto simp: share_destination_def)
    qed
  qed
qed

theorem share_sends_preview_witness:
  "\<exists>t ch. sess (snd (share_destination sample_env sample_lib False ''Home'' sample_core)) = Some t
    \<and> s_child t = Some ch \<and> ch_sent ch = [request_json ''1'' ''navigate'' [''address'', ''Home'']]"
proof -
  let ?r = "share_destination sample_env sample_lib False ''Home'' sample_core"
  have id1: "nat_digits (Suc 0) = ''1''" by code_simp
  have "fst ?r = Inr (True, ''done'', [])"
    by (simp add: share_destination_def sample_home,
        simp add: sample_core_def sample_config_def new_session_def sample_call sample_reply_def)
  moreover have "preview_destination sample_lib ''Home'' = Inr (''address'', ''Home'', [])"
    by (simp add: preview_destination_def sample_home)
  ultimately show ?thesis
    using share_sends_preview [OF core_inv_sample, where e = sample_env and lib = sample_lib
        and busy = False and shared = "''Home''"]
    by (cases ?r) (auto simp: sample_core_def new_session_def sent_to_def id1)
qed

end
