(* ===== verification/Core_Abi.thy ===== *)
theory Core_Abi
  imports Core_Control
begin

text \<open>
  The C interface of the core, \<^verbatim>\<open>helper/src/ffi.rs\<close>.  A pointer argument is an option
  (\<^const>\<open>None\<close> is NULL), the handle is an optional core, and an output slot is what the call writes
  to it (\<^const>\<open>None\<close>: it is left as it was).  A string is its bytes; a C string ends at its first
  NUL byte.  Callers pass valid UTF-8 and slots for every output, as the only client does.
\<close>

section \<open>Strings and slots\<close>

datatype core_error = Rc_ok | BadArg | Internal

definition c_string :: "string \<Rightarrow> string" where
  "c_string s = takeWhile (\<lambda>c. c \<noteq> CHR 0x00) s"

definition cstr :: "string option \<Rightarrow> string option" where
  "cstr p = map_option c_string p"

definition into_cstring :: "string \<Rightarrow> string" where
  "into_cstring s =
    concat (map (\<lambda>c. if c = CHR 0x00 then [CHR 0xEF, CHR 0xBF, CHR 0xBD] else [c]) s)"

fun helper_error_text :: "helper_error \<Rightarrow> string" where
  "helper_error_text (Forbidden m) = ''forbidden: '' @ m"
| "helper_error_text (Busy m) = ''busy: '' @ m"
| "helper_error_text (NotConfigured m) = ''not configured: '' @ m"
| "helper_error_text (NoKey m) = ''no key: '' @ m"
| "helper_error_text (UnknownCommand m) = ''unknown command: '' @ m"
| "helper_error_text (InvalidArgument m) = ''invalid argument: '' @ m"
| "helper_error_text (SessionUnavailable m) = ''session unavailable: '' @ m"

record slots =
  sl_ok :: "bool option"
  sl_text :: "string option"
  sl_text2 :: "string option"
  sl_text3 :: "string option"
  sl_code :: "int option"
  sl_error :: "string option"

definition no_slots :: slots where
  "no_slots = \<lparr>sl_ok = None, sl_text = None, sl_text2 = None, sl_text3 = None, sl_code = None,
     sl_error = None\<rparr>"

type_synonym abi_result = "core_error \<times> slots \<times> core option"

section \<open>The calls\<close>

definition abi_new ::
    "op_env \<Rightarrow> read_result \<Rightarrow> disk \<Rightarrow> string option \<Rightarrow> string option \<Rightarrow> string option
     \<Rightarrow> string option \<Rightarrow> core option \<times> string option" where
  "abi_new e r d bin_dir state_dir session_bin ble_backend =
    (case cstr bin_dir of
       None \<Rightarrow> (None, Some (into_cstring ''core_new: bin_dir is NULL''))
     | Some _ \<Rightarrow>
         (case cstr state_dir of
            None \<Rightarrow> (None, Some (into_cstring ''core_new: state_dir is NULL''))
          | Some dir \<Rightarrow>
              let session = (case cstr session_bin of
                               None \<Rightarrow> None
                             | Some _ \<Rightarrow> Some (new_session (case cstr ble_backend of
                                                 None \<Rightarrow> ''hci'' | Some b \<Rightarrow> b)))
              in (case core_new (e\<lparr>e_state_dir := dir\<rparr>) r d session of
                    Inr k \<Rightarrow> (Some k, None)
                  | Inl err \<Rightarrow> (None, Some (into_cstring (helper_error_text err))))))"

definition abi_get_status :: "core option \<Rightarrow> core_error \<times> config_reply option" where
  "abi_get_status c =
    (case c of
       None \<Rightarrow> (BadArg, None)
     | Some k \<Rightarrow>
         let g = get_config k
         in (Rc_ok, Some (g\<lparr>g_vin := into_cstring (g_vin g), g_model := into_cstring (g_model g),
                g_key_name := into_cstring (g_key_name g),
                g_public_key := into_cstring (g_public_key g)\<rparr>)))"

definition abi_set_config ::
    "op_env \<Rightarrow> string option \<Rightarrow> string option \<Rightarrow> string option \<Rightarrow> int \<Rightarrow> int \<Rightarrow> core option
     \<Rightarrow> abi_result" where
  "abi_set_config e v m kn ct mt c =
    (case c of
       None \<Rightarrow> (BadArg, no_slots, c)
     | Some k \<Rightarrow>
         (case cstr v of
            None \<Rightarrow> (BadArg, no_slots, c)
          | Some v1 \<Rightarrow>
              let m1 = (case cstr m of None \<Rightarrow> [] | Some x \<Rightarrow> x);
                  kn1 = (case cstr kn of None \<Rightarrow> [] | Some x \<Rightarrow> x);
                  (r, k1) = set_config e v1 m1 kn1 ct mt k
              in (Rc_ok,
                  (case r of
                     Inr _ \<Rightarrow> no_slots\<lparr>sl_ok := Some True, sl_error := Some (into_cstring [])\<rparr>
                   | Inl err \<Rightarrow> no_slots\<lparr>sl_ok := Some False,
                        sl_error := Some (into_cstring (operation_error_text err))\<rparr>),
                  Some k1)))"

definition abi_generate_key :: "op_env \<Rightarrow> bool \<Rightarrow> core option \<Rightarrow> abi_result" where
  "abi_generate_key e force c =
    (case c of
       None \<Rightarrow> (BadArg, no_slots, c)
     | Some k \<Rightarrow>
         let (r, k1, _) = generate_key e force k
         in (Rc_ok,
             (case r of
                Inr p \<Rightarrow> no_slots\<lparr>sl_ok := Some True, sl_text := Some (into_cstring p),
                           sl_error := Some (into_cstring [])\<rparr>
              | Inl err \<Rightarrow> no_slots\<lparr>sl_ok := Some False, sl_text := Some (into_cstring []),
                             sl_error := Some (into_cstring (operation_error_text err))\<rparr>),
             Some k1))"

text \<open>The shape pairing and sharing have in common: an outcome, or only a message.\<close>

definition outcome_slots :: "(helper_error, bool \<times> string \<times> string) result \<Rightarrow> slots" where
  "outcome_slots r =
    (case r of
       Inr (ok, out, err) \<Rightarrow> no_slots\<lparr>sl_ok := Some ok, sl_text := Some (into_cstring out),
                                sl_error := Some (into_cstring err)\<rparr>
     | Inl e \<Rightarrow> no_slots\<lparr>sl_ok := Some False, sl_error := Some (into_cstring (helper_error_text e))\<rparr>)"

definition abi_pair :: "op_env \<Rightarrow> bool \<Rightarrow> core option \<Rightarrow> abi_result" where
  "abi_pair e busy c =
    (case c of
       None \<Rightarrow> (BadArg, no_slots, c)
     | Some k \<Rightarrow> let (r, k1) = pair e busy k in (Rc_ok, outcome_slots r, Some k1))"

definition abi_start_phone_key :: "op_env \<Rightarrow> core option \<Rightarrow> abi_result" where
  "abi_start_phone_key e c =
    (case c of
       None \<Rightarrow> (BadArg, no_slots, c)
     | Some k \<Rightarrow>
         let (r, k1) = start_phone_key e k
         in (Rc_ok,
             (case r of
                Inr _ \<Rightarrow> no_slots\<lparr>sl_ok := Some True, sl_error := Some (into_cstring [])\<rparr>
              | Inl err \<Rightarrow> no_slots\<lparr>sl_ok := Some False,
                             sl_error := Some (into_cstring (operation_error_text err))\<rparr>),
             Some k1))"

definition abi_handle_resume :: "op_env \<Rightarrow> core option \<Rightarrow> core_error \<times> core option" where
  "abi_handle_resume e c =
    (case c of None \<Rightarrow> (BadArg, c) | Some k \<Rightarrow> (Rc_ok, Some (handle_resume e k)))"

definition abi_poll_event ::
    "op_env \<Rightarrow> core option \<Rightarrow> core_error \<times> session_event option \<times> core option" where
  "abi_poll_event e c =
    (case c of
       None \<Rightarrow> (BadArg, None, c)
     | Some k \<Rightarrow>
         let (ev, k1) = poll_phone_key_event e k
         in (Rc_ok,
             map_option (\<lambda>v. \<lparr>ev_kind = into_cstring (ev_kind v), ev_vin = into_cstring (ev_vin v),
                          ev_time = into_cstring (ev_time v), ev_error = into_cstring (ev_error v)\<rparr>) ev,
             Some k1))"

text \<open>The argument array ends at its first NULL; the list holds the strings before it.\<close>

definition abi_run ::
    "op_env \<Rightarrow> bool \<Rightarrow> string option \<Rightarrow> string list option \<Rightarrow> core option
     \<Rightarrow> abi_result \<times> exec_log" where
  "abi_run e busy command argv c =
    (case c of
       None \<Rightarrow> ((BadArg, no_slots, c), [])
     | Some k \<Rightarrow>
         (case cstr command of
            None \<Rightarrow> ((BadArg, no_slots, c), [])
          | Some cm \<Rightarrow>
              let as = (case argv of None \<Rightarrow> [] | Some xs \<Rightarrow> map c_string xs);
                  (r, k1, log) = core_run e busy cm as k
              in ((Rc_ok,
                   (case r of
                      Inr o' \<Rightarrow> no_slots\<lparr>sl_ok := Some (o_ok o'), sl_text := Some (into_cstring (o_stdout o')),
                                  sl_text2 := Some (into_cstring (o_stderr o')),
                                  sl_code := Some (o_exit_code o')\<rparr>
                    | Inl err \<Rightarrow> no_slots\<lparr>sl_ok := Some False,
                                   sl_error := Some (into_cstring (helper_error_text err))\<rparr>),
                   Some k1), log)))"

definition abi_preview_destination :: "url_lib \<Rightarrow> string option \<Rightarrow> core option \<Rightarrow> core_error \<times> slots" where
  "abi_preview_destination lib shared c =
    (case c of
       None \<Rightarrow> (BadArg, no_slots)
     | Some _ \<Rightarrow>
         (case cstr shared of
            None \<Rightarrow> (BadArg, no_slots)
          | Some t \<Rightarrow>
              (Rc_ok,
               (case preview_destination lib t of
                  Inr (k, a, b) \<Rightarrow> no_slots\<lparr>sl_ok := Some True, sl_text := Some (into_cstring k),
                     sl_text2 := Some (into_cstring a), sl_text3 := Some (into_cstring b),
                     sl_error := Some (into_cstring [])\<rparr>
                | Inl err \<Rightarrow> no_slots\<lparr>sl_ok := Some False,
                               sl_error := Some (into_cstring (helper_error_text err))\<rparr>))))"

definition abi_share_destination ::
    "op_env \<Rightarrow> url_lib \<Rightarrow> bool \<Rightarrow> string option \<Rightarrow> core option \<Rightarrow> abi_result" where
  "abi_share_destination e lib busy shared c =
    (case c of
       None \<Rightarrow> (BadArg, no_slots, c)
     | Some k \<Rightarrow>
         (case cstr shared of
            None \<Rightarrow> (BadArg, no_slots, c)
          | Some t \<Rightarrow>
              let (r, k1) = share_destination e lib busy t k in (Rc_ok, outcome_slots r, Some k1)))"

section \<open>Lemmas\<close>

lemma into_cstring_simps [simp]:
  "into_cstring [] = []"
  "into_cstring (c # s) = (if c = CHR 0x00 then [CHR 0xEF, CHR 0xBF, CHR 0xBD] else [c]) @ into_cstring s"
  by (simp_all add: into_cstring_def)

lemma into_cstring_append [simp]: "into_cstring (s @ t) = into_cstring s @ into_cstring t"
  by (simp add: into_cstring_def)

lemma into_cstring_no_nul: "CHR 0x00 \<notin> set (into_cstring s)"
  by (induction s) auto

text \<open>What the core hands over is read back in full.\<close>

lemma c_string_into [simp]: "c_string (into_cstring s) = into_cstring s"
  using into_cstring_no_nul [of s] by (auto simp: c_string_def takeWhile_eq_all_conv)

lemma into_cstring_id: "CHR 0x00 \<notin> set s \<Longrightarrow> into_cstring s = s"
  by (induction s) auto

lemma into_cstring_eq:
  assumes "CHR 0x00 \<notin> set t" "CHR 0xEF \<notin> set t"
  shows "into_cstring s = t \<longleftrightarrow> s = t"
proof (cases "CHR 0x00 \<in> set s")
  case True
  then have "CHR 0xEF \<in> set (into_cstring s)" by (induction s) auto
  then show ?thesis using assms True by auto
next
  case False
  then show ?thesis by (simp add: into_cstring_id)
qed

lemma into_cstring_Nil [simp]: "into_cstring s = [] \<longleftrightarrow> s = []"
  by (cases s) auto

end
