(* ===== verification/Client_Worker.thy ===== *)
theory Client_Worker
  imports Core_Abi Core_Frames
begin

text \<open>
  The Qt client, \<^verbatim>\<open>app/src/teslaclient.cpp\<close>: the worker object that owns the core on a thread of
  its own, and the client object QML talks to.  Requests reach the worker as queued calls and its
  replies come back as queued signals, so the state is the worker, the two queues and what the client
  shows.  A QString is its UTF-8 bytes.  The worker runs one call at a time, so the core's lock on the
  radio is never found taken.
\<close>

section \<open>The worker\<close>

datatype job =
    J_initialize string string string
  | J_run string string "string list"
  | J_generate_key bool
  | J_pair
  | J_set_config string string string int int
  | J_refresh_config
  | J_preview string string
  | J_share string string
  | J_resume
  | J_poll
  | J_shutdown

datatype signal =
    Initialized bool string
  | Command_finished string bool string string int
  | Command_error string string
  | Key_generated bool string string
  | Paired_done bool string string
  | Config_saved bool string
  | Config_loaded string string string int int bool string
  | Phone_key_started bool string
  | Phone_key_event string string string string
  | Destination_previewed string bool string string string string
  | Share_finished string bool string string

record worker =
  w_core :: "core option"
  w_timer :: bool

text \<open>One round of the polling loop: what the reader thread took in before it, its clock.\<close>

record poll_env =
  p_wires :: "wire list"
  p_env :: op_env
  p_now :: string

record job_env =
  j_main :: op_env
  j_refresh :: op_env
  j_read :: read_result
  j_disk :: disk
  j_lib :: url_lib
  j_polls :: "poll_env list"

definition ble_backend :: string where
  "ble_backend = ''bluez''"

definition take_c :: "string option \<Rightarrow> string" where
  "take_c p = (case p of None \<Rightarrow> [] | Some s \<Rightarrow> c_string s)"

definition slot_flag :: "bool option \<Rightarrow> bool" where
  "slot_flag b = (b = Some True)"

fun rc_text :: "core_error \<Rightarrow> string" where
  "rc_text Rc_ok = ''0''"
| "rc_text BadArg = ''1''"
| "rc_text Internal = ''2''"

definition abi_failure :: "string \<Rightarrow> core_error \<Rightarrow> string \<Rightarrow> string" where
  "abi_failure f rc m = (if m = [] then f @ '' failed (ABI error '' @ rc_text rc @ '')'' else m)"

definition no_core :: string where
  "no_core = ''control core not initialized''"

definition refresh_phone_key :: "op_env \<Rightarrow> core option \<Rightarrow> signal list \<times> core option" where
  "refresh_phone_key e c =
    (let (rc, sl, c1) = abi_start_phone_key e c;
         m = take_c (sl_error sl)
     in ([Phone_key_started (slot_flag (sl_ok sl))
            (if rc \<noteq> Rc_ok then abi_failure ''core_start_phone_key'' rc m else m)], c1))"

text \<open>
  The endless loop of \<^verbatim>\<open>pollPhoneKeyEvents\<close> over the rounds given: what it emits, the core it
  leaves, and whether it has returned.
\<close>

definition core_wires :: "op_env \<Rightarrow> wire list \<Rightarrow> core \<Rightarrow> core" where
  "core_wires e ws k = fold (core_reader e) ws k"

definition event_signal :: "string \<Rightarrow> session_event \<Rightarrow> signal" where
  "event_signal now v =
    Phone_key_event (c_string (ev_kind v)) (c_string (ev_vin v))
      (let t = c_string (ev_time v) in if t = [] then now else t) (c_string (ev_error v))"

fun poll_loop :: "poll_env list \<Rightarrow> core option \<Rightarrow> signal list \<times> core option \<times> bool" where
  "poll_loop [] c = ([], c, False)"
| "poll_loop (p # ps) c =
    (case abi_poll_event (p_env p) (map_option (core_wires (p_env p) (p_wires p)) c) of
       (rc, ev, c1) \<Rightarrow>
         if rc \<noteq> Rc_ok then ([], c1, True)
         else (case ev of
                 None \<Rightarrow> ([], c1, True)
               | Some v \<Rightarrow>
                   (let (sg, c2, fin) = poll_loop ps c1 in (event_signal (p_now p) v # sg, c2, fin))))"

definition run_command_job :: "op_env \<Rightarrow> string \<Rightarrow> string \<Rightarrow> string list \<Rightarrow> core option
    \<Rightarrow> signal list \<times> core option" where
  "run_command_job e i cm as c =
    (let ((rc, sl, c1), log) = abi_run e False (Some cm) (Some as) c
     in ([if rc \<noteq> Rc_ok then Command_error i (abi_failure ''core_run'' rc (take_c (sl_error sl)))
          else if sl_error sl \<noteq> None then Command_error i (take_c (sl_error sl))
          else Command_finished i (slot_flag (sl_ok sl)) (take_c (sl_text sl)) (take_c (sl_text2 sl))
                 (case sl_code sl of None \<Rightarrow> 0 | Some n \<Rightarrow> n)], c1))"

definition generate_key_job :: "op_env \<Rightarrow> op_env \<Rightarrow> bool \<Rightarrow> core option \<Rightarrow> signal list \<times> core option" where
  "generate_key_job e e2 force c =
    (let (rc, sl, c1) = abi_generate_key e force c
     in if rc \<noteq> Rc_ok
        then ([Key_generated False [] (abi_failure ''core_generate_key'' rc (take_c (sl_error sl)))], c1)
        else let (sg, c2) = refresh_phone_key e2 c1
             in (Key_generated (slot_flag (sl_ok sl)) (take_c (sl_text sl)) (take_c (sl_error sl)) # sg, c2))"

definition pair_job :: "op_env \<Rightarrow> op_env \<Rightarrow> core option \<Rightarrow> signal list \<times> core option" where
  "pair_job e e2 c =
    (let (rc, sl, c1) = abi_pair e False c
     in if rc \<noteq> Rc_ok
        then ([Paired_done False [] (abi_failure ''core_pair'' rc (take_c (sl_error sl)))], c1)
        else let (sg, c2) = refresh_phone_key e2 c1
             in (Paired_done (slot_flag (sl_ok sl)) (take_c (sl_text sl)) (take_c (sl_error sl)) # sg, c2))"

definition set_config_job :: "op_env \<Rightarrow> op_env \<Rightarrow> string \<Rightarrow> string \<Rightarrow> string \<Rightarrow> int \<Rightarrow> int \<Rightarrow> core option
    \<Rightarrow> signal list \<times> core option" where
  "set_config_job e e2 v m kn ct mt c =
    (let (rc, sl, c1) = abi_set_config e (Some v) (Some m) (Some kn) ct mt c
     in if rc \<noteq> Rc_ok
        then ([Config_saved False (abi_failure ''core_set_config'' rc (take_c (sl_error sl)))], c1)
        else let ok = slot_flag (sl_ok sl);
                 (sg, c2) = (if ok then refresh_phone_key e2 c1 else ([], c1))
             in (Config_saved ok (take_c (sl_error sl)) # sg, c2))"

definition refresh_config_job :: "core option \<Rightarrow> signal list" where
  "refresh_config_job c =
    (case abi_get_status c of
       (Rc_ok, Some g) \<Rightarrow> [Config_loaded (c_string (g_vin g)) (c_string (g_model g))
          (c_string (g_key_name g)) (g_connect g) (g_command g) (g_has_key g) (c_string (g_public_key g))]
     | _ \<Rightarrow> [Config_loaded [] [] [] 0 0 False []])"

definition preview_job :: "url_lib \<Rightarrow> string \<Rightarrow> string \<Rightarrow> core option \<Rightarrow> signal list" where
  "preview_job lib i shared c =
    (let (rc, sl) = abi_preview_destination lib (Some shared) c
     in if rc \<noteq> Rc_ok
        then [Destination_previewed i False [] [] [] (abi_failure ''core_preview_destination'' rc [])]
        else [Destination_previewed i (slot_flag (sl_ok sl)) (take_c (sl_text sl)) (take_c (sl_text2 sl))
                (take_c (sl_text3 sl)) (take_c (sl_error sl))])"

definition share_job :: "op_env \<Rightarrow> url_lib \<Rightarrow> string \<Rightarrow> string \<Rightarrow> core option \<Rightarrow> signal list \<times> core option" where
  "share_job e lib i shared c =
    (let (rc, sl, c1) = abi_share_destination e lib False (Some shared) c
     in ([if rc \<noteq> Rc_ok then Share_finished i False [] (abi_failure ''core_share_destination'' rc [])
          else Share_finished i (slot_flag (sl_ok sl)) (take_c (sl_text sl)) (take_c (sl_error sl))], c1))"

definition resume_job :: "op_env \<Rightarrow> op_env \<Rightarrow> core option \<Rightarrow> signal list \<times> core option" where
  "resume_job e e2 c =
    (let (rc, c1) = abi_handle_resume e c
     in if rc \<noteq> Rc_ok then ([Phone_key_started False ''Resume failed''], c1)
        else refresh_phone_key e2 c1)"

definition initialize_job ::
    "job_env \<Rightarrow> string \<Rightarrow> string \<Rightarrow> string \<Rightarrow> worker \<Rightarrow> signal list \<times> worker" where
  "initialize_job je bin_dir state_dir session_bin w =
    (let (c, err) = abi_new (j_main je) (j_read je) (j_disk je) (Some bin_dir) (Some state_dir)
                      (Some session_bin) (Some ble_backend)
     in case c of
          None \<Rightarrow>
            let m = take_c err
            in ([Initialized False (if m = [] then ''core_new failed: unknown error'' else m)],
                w\<lparr>w_core := None\<rparr>)
        | Some k \<Rightarrow>
            let (sg, c1) = refresh_phone_key (j_refresh je) (Some k)
            in (sg @ [Initialized True []], w\<lparr>w_core := c1, w_timer := True\<rparr>))"

text \<open>
  A queued call, whole: without a core most answer at once.  The last component tells whether the call
  has returned.
\<close>

fun run_job :: "job_env \<Rightarrow> job \<Rightarrow> worker \<Rightarrow> signal list \<times> worker \<times> bool" where
  "run_job je (J_initialize b d s) w =
     (let (sg, w1) = initialize_job je b d s w in (sg, w1, True))"
| "run_job je (J_run i cm as) w =
     (if w_core w = None then ([Command_error i no_core], w, True)
      else let (sg, c) = run_command_job (j_main je) i cm as (w_core w) in (sg, w\<lparr>w_core := c\<rparr>, True))"
| "run_job je (J_generate_key force) w =
     (if w_core w = None then ([Key_generated False [] no_core], w, True)
      else let (sg, c) = generate_key_job (j_main je) (j_refresh je) force (w_core w)
           in (sg, w\<lparr>w_core := c\<rparr>, True))"
| "run_job je J_pair w =
     (if w_core w = None then ([Paired_done False [] no_core], w, True)
      else let (sg, c) = pair_job (j_main je) (j_refresh je) (w_core w) in (sg, w\<lparr>w_core := c\<rparr>, True))"
| "run_job je (J_set_config v m kn ct mt) w =
     (if w_core w = None then ([Config_saved False no_core], w, True)
      else let (sg, c) = set_config_job (j_main je) (j_refresh je) v m kn ct mt (w_core w)
           in (sg, w\<lparr>w_core := c\<rparr>, True))"
| "run_job je J_refresh_config w = (refresh_config_job (w_core w), w, True)"
| "run_job je (J_preview i shared) w =
     (if w_core w = None then ([Destination_previewed i False [] [] [] no_core], w, True)
      else (preview_job (j_lib je) i shared (w_core w), w, True))"
| "run_job je (J_share i shared) w =
     (if w_core w = None then ([Share_finished i False [] no_core], w, True)
      else let (sg, c) = share_job (j_main je) (j_lib je) i shared (w_core w)
           in (sg, w\<lparr>w_core := c\<rparr>, True))"
| "run_job je J_resume w =
     (if w_core w = None then ([], w, True)
      else let (sg, c) = resume_job (j_main je) (j_refresh je) (w_core w) in (sg, w\<lparr>w_core := c\<rparr>, True))"
| "run_job je J_poll w =
     (if w_core w = None then ([], w, True)
      else let (sg, c, fin) = poll_loop (j_polls je) (w_core w) in (sg, w\<lparr>w_core := c\<rparr>, fin))"
| "run_job je J_shutdown w = ([], w\<lparr>w_core := None, w_timer := False\<rparr>, True)"

section \<open>The client\<close>

datatype app_state = App_active | App_inactive | App_hidden | App_suspended

record client =
  c_available :: bool
  c_status :: string
  c_active :: bool
  c_suspended :: bool

text \<open>What the dashboard says of an event; other kinds leave the text alone.\<close>

definition event_status :: "string \<Rightarrow> string \<Rightarrow> string option" where
  "event_status kind err =
    (if kind = ''presence_near'' then Some ''Phone key connected''
     else if kind \<in> {''presence_far'', ''presence_restarted'', ''presence_disconnected''}
     then Some ''Phone key scanning''
     else if kind = ''presence_auth_ok'' then Some ''Phone key authorized''
     else if kind = ''presence_stopped''
     then Some (if err = [] then ''Phone key stopped'' else ''Phone key stopped: '' @ err)
     else if kind \<in> {''presence_error'', ''presence_auth_failed''}
     then Some (if err = [] then ''Phone key error'' else ''Phone key error: '' @ err)
     else None)"

fun on_signal :: "signal \<Rightarrow> client \<Rightarrow> client" where
  "on_signal (Initialized ok m) c = c\<lparr>c_available := ok\<rparr>"
| "on_signal (Phone_key_started active m) c =
     c\<lparr>c_active := active,
       c_status := (if active then ''Phone key scanning''
                    else if m = [] then ''Phone key inactive'' else m)\<rparr>"
| "on_signal (Phone_key_event kind v t err) c =
     (let c1 = (if kind = ''presence_stopped'' then c\<lparr>c_active := False\<rparr>
                else if kind = ''presence_restarted'' \<or> kind = ''presence_near''
                then c\<lparr>c_active := True\<rparr> else c)
      in case event_status kind err of None \<Rightarrow> c1 | Some st \<Rightarrow> c1\<lparr>c_status := st\<rparr>)"
| "on_signal sg c = c"

text \<open>A change of the application's state; the flag asks for the session to be recycled.\<close>

definition on_app_state :: "app_state \<Rightarrow> client \<Rightarrow> bool \<times> client" where
  "on_app_state st c =
    (if st = App_suspended then (False, c\<lparr>c_suspended := True\<rparr>)
     else if st = App_active \<and> c_suspended c then (True, c\<lparr>c_suspended := False\<rparr>)
     else if st = App_active then (False, c\<lparr>c_suspended := False\<rparr>)
     else (False, c))"

section \<open>The application\<close>

record app =
  a_worker :: worker
  a_jobs :: "job list"
  a_signals :: "signal list"
  a_client :: client
  a_delivered :: "signal list"

text \<open>The calls QML may make.\<close>

datatype request =
    Ask_run string string "string list"
  | Ask_generate bool
  | Ask_pair
  | Ask_set_config string string string int int
  | Ask_config
  | Ask_preview string string
  | Ask_share string string

fun job_of :: "request \<Rightarrow> job" where
  "job_of (Ask_run i cm as) = J_run i cm as"
| "job_of (Ask_generate force) = J_generate_key force"
| "job_of Ask_pair = J_pair"
| "job_of (Ask_set_config v m kn ct mt) = J_set_config v m kn ct mt"
| "job_of Ask_config = J_refresh_config"
| "job_of (Ask_preview i shared) = J_preview i shared"
| "job_of (Ask_share i shared) = J_share i shared"

datatype app_event =
    Ask request
  | State_changed app_state
  | Timer_fires nat
  | Work job_env
  | Reader_takes op_env wire
  | Deliver
  | Quit

text \<open>
  A timer tick may be served before queued calls, so it enters the queue anywhere.  Quitting queues the
  shutdown behind what is there and waits for it.
\<close>

fun app_step :: "app_event \<Rightarrow> app \<Rightarrow> app" where
  "app_step (Ask q) a = a\<lparr>a_jobs := a_jobs a @ [job_of q]\<rparr>"
| "app_step (State_changed st) a =
     (let (resume, c) = on_app_state st (a_client a)
      in a\<lparr>a_client := c, a_jobs := a_jobs a @ (if resume then [J_resume] else [])\<rparr>)"
| "app_step (Timer_fires n) a =
     (if w_timer (a_worker a) then a\<lparr>a_jobs := take n (a_jobs a) @ J_poll # drop n (a_jobs a)\<rparr> else a)"
| "app_step (Work je) a =
     (case a_jobs a of
        [] \<Rightarrow> a
      | j # js \<Rightarrow>
          (let (sg, w, fin) = run_job je j (a_worker a)
           in a\<lparr>a_worker := w, a_signals := a_signals a @ sg,
                a_jobs := (if fin then js else j # js)\<rparr>))"
| "app_step (Reader_takes e w) a =
     a\<lparr>a_worker := (a_worker a)\<lparr>w_core := map_option (core_reader e w) (w_core (a_worker a))\<rparr>\<rparr>"
| "app_step Deliver a =
     (case a_signals a of
        [] \<Rightarrow> a
      | sg # ss \<Rightarrow> a\<lparr>a_signals := ss, a_client := on_signal sg (a_client a),
                      a_delivered := a_delivered a @ [sg]\<rparr>)"
| "app_step Quit a = a\<lparr>a_jobs := a_jobs a @ [J_shutdown]\<rparr>"

definition app_start :: "string \<Rightarrow> bool \<Rightarrow> app" where
  "app_start state_dir suspended =
    \<lparr>a_worker = \<lparr>w_core = None, w_timer = False\<rparr>,
     a_jobs = [J_initialize ''/usr/share/harbour-electric-eel/bin'' state_dir
                 ''/usr/share/harbour-electric-eel/bin/tesla-session''],
     a_signals = [],
     a_client = \<lparr>c_available = False, c_status = [], c_active = False, c_suspended = suspended\<rparr>,
     a_delivered = []\<rparr>"

section \<open>Lemmas: one reply for each request\<close>

datatype ticket =
    T_run string | T_key | T_pair | T_saved | T_loaded | T_preview string | T_share string

fun job_ticket :: "job \<Rightarrow> ticket option" where
  "job_ticket (J_run i cm as) = Some (T_run i)"
| "job_ticket (J_generate_key force) = Some T_key"
| "job_ticket J_pair = Some T_pair"
| "job_ticket (J_set_config v m kn ct mt) = Some T_saved"
| "job_ticket J_refresh_config = Some T_loaded"
| "job_ticket (J_preview i shared) = Some (T_preview i)"
| "job_ticket (J_share i shared) = Some (T_share i)"
| "job_ticket j = None"

fun signal_ticket :: "signal \<Rightarrow> ticket option" where
  "signal_ticket (Command_finished i ok out err n) = Some (T_run i)"
| "signal_ticket (Command_error i m) = Some (T_run i)"
| "signal_ticket (Key_generated ok p m) = Some T_key"
| "signal_ticket (Paired_done ok out m) = Some T_pair"
| "signal_ticket (Config_saved ok m) = Some T_saved"
| "signal_ticket (Config_loaded v m kn ct mt h p) = Some T_loaded"
| "signal_ticket (Destination_previewed i ok kd a b m) = Some (T_preview i)"
| "signal_ticket (Share_finished i ok out m) = Some (T_share i)"
| "signal_ticket sg = None"

definition tickets :: "('a \<Rightarrow> ticket option) \<Rightarrow> 'a list \<Rightarrow> ticket list" where
  "tickets f xs = List.map_filter f xs"

lemma tickets_simps [simp]:
  "tickets f [] = []"
  "tickets f (x # xs) = (case f x of None \<Rightarrow> [] | Some t \<Rightarrow> [t]) @ tickets f xs"
  "tickets f (xs @ ys) = tickets f xs @ tickets f ys"
  by (auto simp: tickets_def List.map_filter_def split: option.splits)

lemma refresh_tickets [simp]: "tickets signal_ticket (fst (refresh_phone_key e c)) = []"
  by (simp add: refresh_phone_key_def Let_def split: prod.splits)

lemma poll_tickets [simp]: "tickets signal_ticket (fst (poll_loop ps c)) = []"
  by (induction ps arbitrary: c)
    (simp_all add: event_signal_def Let_def case_prod_beta split: option.splits)

lemma job_tickets [simp]:
  "tickets signal_ticket (fst (initialize_job je b d s w)) = []"
  "tickets signal_ticket (fst (run_command_job e i cm as c)) = [T_run i]"
  "tickets signal_ticket (fst (generate_key_job e e2 force c)) = [T_key]"
  "tickets signal_ticket (fst (pair_job e e2 c)) = [T_pair]"
  "tickets signal_ticket (fst (set_config_job e e2 v m kn ct mt c)) = [T_saved]"
  "tickets signal_ticket (preview_job lib i shared c) = [T_preview i]"
  "tickets signal_ticket (fst (share_job e lib i shared c)) = [T_share i]"
  "tickets signal_ticket (fst (resume_job e e2 c)) = []"
  "tickets signal_ticket (refresh_config_job c) = [T_loaded]"
          apply (simp add: initialize_job_def Let_def case_prod_beta split: option.splits)
         apply (simp add: run_command_job_def Let_def case_prod_beta)
        apply (simp add: generate_key_job_def Let_def case_prod_beta)
       apply (simp add: pair_job_def Let_def case_prod_beta)
      apply (simp add: set_config_job_def Let_def case_prod_beta)
     apply (simp add: preview_job_def Let_def case_prod_beta)
    apply (simp add: share_job_def Let_def case_prod_beta)
   apply (simp add: resume_job_def Let_def case_prod_beta)
  apply (simp add: refresh_config_job_def abi_get_status_def Let_def split: option.splits)
  done

text \<open>Whatever happens, a call answers its own request, once, and a call that has not returned is
  the polling one.\<close>

lemma run_job_tickets:
  "tickets signal_ticket (fst (run_job je j w)) = (case job_ticket j of None \<Rightarrow> [] | Some t \<Rightarrow> [t])"
  by (cases j) (simp_all add: case_prod_beta)

lemma run_job_returns: "snd (snd (run_job je j w)) \<or> j = J_poll"
  by (cases j) (simp_all add: case_prod_beta)

definition asked :: "app_event \<Rightarrow> ticket option" where
  "asked v = (case v of Ask q \<Rightarrow> job_ticket (job_of q) | _ \<Rightarrow> None)"

definition all_tickets :: "app \<Rightarrow> ticket list" where
  "all_tickets a = tickets signal_ticket (a_delivered a @ a_signals a) @ tickets job_ticket (a_jobs a)"

lemma tickets_split [simp]: "tickets f (take n xs) @ tickets f (drop n xs) = tickets f xs"
  using tickets_simps(3) [of f "take n xs" "drop n xs"] by simp

lemma app_step_tickets:
  "all_tickets (app_step v a) = all_tickets a @ (case asked v of None \<Rightarrow> [] | Some t \<Rightarrow> [t])"
proof (cases v)
  case (Work je)
  show ?thesis
  proof (cases "a_jobs a")
    case (Cons j js)
    obtain sg w fin where r: "run_job je j (a_worker a) = (sg, w, fin)" by (metis prod_cases3)
    then show ?thesis using run_job_tickets [of je j "a_worker a"] run_job_returns [of je j "a_worker a"] Work Cons
      by (auto simp: all_tickets_def asked_def)
  qed (simp add: Work asked_def)
qed (auto simp: all_tickets_def asked_def case_prod_beta Let_def split: list.splits)

section \<open>Lemmas: the worker drives the core only through its operations\<close>

definition core_path :: "op_env set \<Rightarrow> core option \<Rightarrow> core option \<Rightarrow> bool" where
  "core_path E c c1 =
    (\<forall>k1. c1 = Some k1 \<longrightarrow>
      (\<exists>k xs. c = Some k \<and> k1 = fold core_step xs k \<and> (\<forall>x \<in> set xs. fst x \<in> E)))"

lemma path_refl [simp]: "core_path E c c"
  unfolding core_path_def by (metis empty_iff fold_simps(1) list.set(1))

lemma path_none [simp]: "core_path E c None"
  by (simp add: core_path_def)

lemma path_trans:
  assumes "core_path E c c1" "core_path E c1 c2" shows "core_path E c c2"
  unfolding core_path_def
proof (intro allI impI)
  fix k2
  assume "c2 = Some k2"
  then obtain k1 ys where "c1 = Some k1" "k2 = fold core_step ys k1" "\<forall>x \<in> set ys. fst x \<in> E"
    using assms(2) by (auto simp: core_path_def)
  moreover from this obtain k xs where "c = Some k" "k1 = fold core_step xs k" "\<forall>x \<in> set xs. fst x \<in> E"
    using assms(1) by (auto simp: core_path_def)
  ultimately show "\<exists>k zs. c = Some k \<and> k2 = fold core_step zs k \<and> (\<forall>x \<in> set zs. fst x \<in> E)"
    by (intro exI [of _ k] exI [of _ "xs @ ys"]) auto
qed

lemma path_step: "e \<in> E \<Longrightarrow> core_path E (Some k) (Some (core_step (e, op) k))"
  unfolding core_path_def by (intro allI impI exI [of _ k] exI [of _ "[(e, op)]"]) simp

lemma path_map:
  "(\<And>k. core_path E (Some k) (Some (f k))) \<Longrightarrow> core_path E c (map_option f c)"
  by (cases c) simp_all

lemma abi_core:
  "snd (snd (abi_start_phone_key e c)) = map_option (core_step (e, Start)) c"
  "snd (snd (abi_generate_key e force c)) = map_option (core_step (e, Generate force)) c"
  "snd (snd (abi_pair e busy c)) = map_option (core_step (e, Pair_key busy)) c"
  "snd (snd (abi_set_config e (Some v) (Some m) (Some kn) ct mt c))
    = map_option (core_step (e, Configure (c_string v) (c_string m) (c_string kn) ct mt)) c"
  "snd (snd (fst (abi_run e busy (Some cm) (Some as) c)))
    = map_option (core_step (e, Run busy (c_string cm) (map c_string as))) c"
  "snd (snd (abi_share_destination e lib busy (Some shared) c))
    = map_option (core_step (e, Share lib busy (c_string shared))) c"
  "snd (abi_handle_resume e c) = map_option (core_step (e, Resume)) c"
  "snd (snd (abi_poll_event e c)) = map_option (core_step (e, Poll_event)) c"
         apply (cases c; simp add: abi_start_phone_key_def case_prod_beta Let_def)
        apply (cases c; simp add: abi_generate_key_def case_prod_beta Let_def)
       apply (cases c; simp add: abi_pair_def case_prod_beta Let_def)
      apply (cases c; simp add: abi_set_config_def cstr_def case_prod_beta Let_def)
     apply (cases c; simp add: abi_run_def cstr_def case_prod_beta Let_def)
    apply (cases c; simp add: abi_share_destination_def cstr_def case_prod_beta Let_def)
   apply (cases c; simp add: abi_handle_resume_def)
  apply (cases c; simp add: abi_poll_event_def case_prod_beta Let_def)
  done

lemma path_op: "e \<in> E \<Longrightarrow> core_path E c (map_option (core_step (e, op)) c)"
  by (rule path_map) (rule path_step)

lemma path_wires: "e \<in> E \<Longrightarrow> core_path E (Some k) (Some (core_wires e ws k))"
proof (induction ws arbitrary: k)
  case (Cons w ws)
  then have "core_path E (Some (core_reader e w k)) (Some (core_wires e (w # ws) k))"
    by (simp add: core_wires_def)
  moreover have "core_path E (Some k) (Some (core_reader e w k))"
    using path_step [OF Cons.prems, of k "Reader w"] by simp
  ultimately show ?case by (rule path_trans [rotated])
qed (simp add: core_wires_def)

lemma path_refresh: "e \<in> E \<Longrightarrow> core_path E c (snd (refresh_phone_key e c))"
  using path_op by (simp add: refresh_phone_key_def case_prod_beta Let_def abi_core)

lemma path_poll:
  assumes "p_env ` set ps \<subseteq> E" shows "core_path E c (fst (snd (poll_loop ps c)))"
  using assms
proof (induction ps arbitrary: c)
  case (Cons p ps)
  let ?c = "map_option (core_wires (p_env p) (p_wires p)) c"
  have e: "p_env p \<in> E" using Cons.prems by simp
  obtain rc ev c1 where r: "abi_poll_event (p_env p) ?c = (rc, ev, c1)" by (metis prod_cases3)
  have "c1 = map_option (core_step (p_env p, Poll_event)) ?c" using abi_core(8) [of "p_env p" ?c] r by simp
  moreover have "core_path E c (map_option (core_step (p_env p, Poll_event)) ?c)"
    by (rule path_trans [OF path_map path_op]) (simp_all add: path_wires e)
  ultimately have "core_path E c c1" by (simp only:)
  moreover have "core_path E c1 (fst (snd (poll_loop ps c1)))" using Cons by simp
  ultimately have "core_path E c (fst (snd (poll_loop ps c1)))" by (rule path_trans)
  with \<open>core_path E c c1\<close> show ?case
    by (simp add: r case_prod_beta Let_def split: option.split)
qed simp

definition job_envs :: "job_env \<Rightarrow> op_env set" where
  "job_envs je = {j_main je, j_refresh je} \<union> p_env ` set (j_polls je)"

lemma path_jobs:
  assumes "e \<in> E" "e2 \<in> E"
  shows "core_path E c (snd (run_command_job e i cm as c))"
    "core_path E c (snd (generate_key_job e e2 force c))"
    "core_path E c (snd (pair_job e e2 c))"
    "core_path E c (snd (set_config_job e e2 v m kn ct mt c))"
    "core_path E c (snd (share_job e lib i shared c))"
    "core_path E c (snd (resume_job e e2 c))"
proof -
  have again: "core_path E c (snd (refresh_phone_key e2 (map_option (core_step (e, op)) c)))" for op
    by (rule path_trans [OF path_op path_refresh]) (fact assms)+
  show "core_path E c (snd (run_command_job e i cm as c))"
    "core_path E c (snd (share_job e lib i shared c))"
    using path_op [OF assms(1)] by (simp_all add: run_command_job_def share_job_def case_prod_beta Let_def abi_core)
  show "core_path E c (snd (generate_key_job e e2 force c))"
    "core_path E c (snd (pair_job e e2 c))"
    "core_path E c (snd (set_config_job e e2 v m kn ct mt c))"
    "core_path E c (snd (resume_job e e2 c))"
    using again path_op [OF assms(1)]
    by (simp_all add: generate_key_job_def pair_job_def set_config_job_def resume_job_def
        case_prod_beta Let_def abi_core)
qed

lemma path_run_job:
  assumes "\<forall>b d x. j \<noteq> J_initialize b d x" "job_envs je \<subseteq> E"
  shows "core_path E (w_core w) (w_core (fst (snd (run_job je j w))))"
proof -
  have e: "j_main je \<in> E" "j_refresh je \<in> E" "p_env ` set (j_polls je) \<subseteq> E"
    using assms(2) by (auto simp: job_envs_def)
  show ?thesis using assms(1) path_jobs [OF e(1,2), of "w_core w"] path_poll [OF e(3), of "w_core w"]
    by (cases j) (simp_all add: case_prod_beta)
qed

end
