(* ===== verification/Client_Properties.thy ===== *)
theory Client_Properties
  imports Client_Worker Core_Properties
begin

text \<open>
  What the Qt client and its worker promise together: one reply for each request, a core that is only
  ever driven through its operations, a dashboard that never shows a running phone key as off, and a
  polling loop that ends, with the one case in which it does not.
\<close>

section \<open>Every state of the core is one its operations reach\<close>

definition reached :: "string \<Rightarrow> core \<Rightarrow> bool" where
  "reached dir k =
    (\<exists>e r d k0 xs. e_state_dir e = dir \<and> core_new e r d (Some (new_session ''bluez'')) = Inr k0
       \<and> list_all (\<lambda>x. e_state_dir (fst x) = dir) xs \<and> k = fold core_step xs k0)"

lemma reached_path:
  assumes "core_path E c (Some k1)" "\<forall>e \<in> E. e_state_dir e = dir" "\<And>k. c = Some k \<Longrightarrow> reached dir k"
  shows "reached dir k1"
proof -
  obtain k xs where "c = Some k" "k1 = fold core_step xs k" "\<forall>x \<in> set xs. fst x \<in> E"
    using assms(1) by (auto simp: core_path_def)
  moreover from this assms(3) obtain e r d k0 ys where "e_state_dir e = dir"
    "core_new e r d (Some (new_session ''bluez'')) = Inr k0"
    "list_all (\<lambda>x. e_state_dir (fst x) = dir) ys" "k = fold core_step ys k0"
    unfolding reached_def by blast
  moreover have "k1 = fold core_step (ys @ xs) k0" using calculation by simp
  moreover have "list_all (\<lambda>x. e_state_dir (fst x) = dir) (ys @ xs)"
    using calculation assms(2) by (auto simp: list_all_iff)
  ultimately show ?thesis unfolding reached_def by blast
qed

lemma abi_new_reached:
  assumes "abi_new e r d (Some b) (Some dir) (Some x) (Some ble_backend) = (Some k, err)"
  shows "reached (c_string dir) k"
proof -
  have "c_string ble_backend = ''bluez''" by (simp add: ble_backend_def c_string_def)
  then have "core_new (e\<lparr>e_state_dir := c_string dir\<rparr>) r d (Some (new_session ''bluez'')) = Inr k"
    using assms by (auto simp: abi_new_def cstr_def split: sum.splits)
  then show ?thesis unfolding reached_def
    by (intro exI [of _ "e\<lparr>e_state_dir := c_string dir\<rparr>"] exI [of _ r] exI [of _ d] exI [of _ k]
        exI [of _ "[]"]) simp
qed

lemma initialize_cases:
  obtains (failed) m where "initialize_job je b d x w = ([Initialized False m], w\<lparr>w_core := None\<rparr>)"
  | (made) k sg c err where
      "abi_new (j_main je) (j_read je) (j_disk je) (Some b) (Some d) (Some x) (Some ble_backend) = (Some k, err)"
      "refresh_phone_key (j_refresh je) (Some k) = (sg, c)"
      "initialize_job je b d x w = (sg @ [Initialized True []], w\<lparr>w_core := c, w_timer := True\<rparr>)"
proof -
  obtain c err where new: "abi_new (j_main je) (j_read je) (j_disk je) (Some b) (Some d) (Some x)
      (Some ble_backend) = (c, err)" by fastforce
  show thesis
  proof (cases c)
    case None
    then show thesis using new failed by (simp add: initialize_job_def Let_def)
  next
    case (Some k)
    obtain sg c1 where "refresh_phone_key (j_refresh je) (Some k) = (sg, c1)" by fastforce
    then show thesis using made new Some by (simp add: initialize_job_def Let_def)
  qed
qed

lemma reached_initialize:
  assumes "w_core (snd (initialize_job je b d x w)) = Some k" "e_state_dir (j_refresh je) = c_string d"
  shows "reached (c_string d) k"
proof (cases rule: initialize_cases [of je b d x w])
  case (made k0 sg c err)
  have "core_path {j_refresh je} (Some k0) c"
    using path_refresh [of "j_refresh je" "{j_refresh je}" "Some k0"] made(2) by simp
  moreover have "c = Some k" using made(3) assms(1) by simp
  ultimately have path: "core_path {j_refresh je} (Some k0) (Some k)" by simp
  show ?thesis
    by (rule reached_path [OF path]) (use abi_new_reached [OF made(1)] assms(2) in auto)
qed (use assms in simp)

definition event_dir :: "string \<Rightarrow> app_event \<Rightarrow> bool" where
  "event_dir dir v =
    (case v of
       Work je \<Rightarrow> (\<forall>e \<in> job_envs je. e_state_dir e = dir)
     | Reader_takes e w \<Rightarrow> e_state_dir e = dir
     | _ \<Rightarrow> True)"

definition app_reached :: "string \<Rightarrow> app \<Rightarrow> bool" where
  "app_reached dir a =
    ((\<forall>k. w_core (a_worker a) = Some k \<longrightarrow> reached (c_string dir) k)
     \<and> (\<forall>b d x. J_initialize b d x \<in> set (a_jobs a) \<longrightarrow> d = dir))"

lemma job_of_no_init [simp]: "job_of q \<noteq> J_initialize b d x" "J_initialize b d x \<noteq> job_of q"
  by (cases q; simp)+

lemma run_job_reached:
  assumes "\<forall>e \<in> job_envs je. e_state_dir e = c_string dir"
    and "\<forall>k. w_core w = Some k \<longrightarrow> reached (c_string dir) k"
    and "\<forall>b d x. j = J_initialize b d x \<longrightarrow> d = dir"
    and "w_core (fst (snd (run_job je j w))) = Some k"
  shows "reached (c_string dir) k"
proof (cases "\<exists>b d x. j = J_initialize b d x")
  case True
  then show ?thesis using assms reached_initialize [of je _ dir _ w k]
    by (auto simp: case_prod_beta Let_def job_envs_def)
next
  case False
  then show ?thesis
    using reached_path [of "job_envs je" "w_core w" k "c_string dir"] path_run_job [of j je "job_envs je" w] assms
    by simp
qed

lemma app_step_reached:
  assumes "app_reached dir a" "event_dir (c_string dir) v"
  shows "app_reached dir (app_step v a)"
proof (cases v)
  case (Work je)
  show ?thesis
  proof (cases "a_jobs a")
    case (Cons j js)
    then show ?thesis
      using assms Work run_job_reached [of je dir "a_worker a" j]
      by (auto simp: app_reached_def event_dir_def case_prod_beta Let_def)
  qed (use assms Work in simp)
next
  case (Reader_takes e w)
  have "reached (c_string dir) (core_reader e w k)" if "w_core (a_worker a) = Some k" for k
    using reached_path [of "{e}" "Some k" "core_reader e w k"] path_step [of e "{e}" k "Reader w"] that assms
      Reader_takes
    by (simp add: app_reached_def event_dir_def)
  then show ?thesis using assms Reader_takes by (auto simp: app_reached_def)
next
  case (Timer_fires n)
  have "set (take n (a_jobs a) @ J_poll # drop n (a_jobs a)) = insert J_poll (set (a_jobs a))"
    using set_append [of "take n (a_jobs a)" "drop n (a_jobs a)"] by auto
  then show ?thesis using assms(1) Timer_fires by (simp add: app_reached_def del: set_append)
qed (use assms in \<open>auto simp: app_reached_def case_prod_beta Let_def split: list.splits\<close>)

lemma app_steps_reached:
  "app_reached dir a \<Longrightarrow> list_all (event_dir (c_string dir)) evs \<Longrightarrow> app_reached dir (fold app_step evs a)"
  by (induction evs arbitrary: a) (simp_all add: app_step_reached)

section \<open>What the dashboard shows of the phone key\<close>

fun signal_active :: "signal \<Rightarrow> bool \<Rightarrow> bool" where
  "signal_active (Phone_key_started active m) b = active"
| "signal_active (Phone_key_event kind v t err) b =
     (if kind = ''presence_stopped'' then False
      else if kind = ''presence_restarted'' \<or> kind = ''presence_near'' then True else b)"
| "signal_active sg b = b"

lemma on_signal_active: "c_active (on_signal sg c) = signal_active sg (c_active c)"
  by (cases "(sg, c)" rule: on_signal.cases) (auto simp: Let_def split: option.splits)

lemma on_signals_active: "c_active (fold on_signal sgs c) = fold signal_active sgs (c_active c)"
  by (induction sgs arbitrary: c) (simp_all add: on_signal_active)

text \<open>A running phone key is shown as running.\<close>

definition lit :: "core option \<Rightarrow> bool \<Rightarrow> bool" where
  "lit c b = (\<forall>k. c = Some k \<longrightarrow> core_inv k \<and> (phone_key_started k \<longrightarrow> b))"

lemma lit_none [simp]: "lit None b"
  by (simp add: lit_def)

lemma lit_refresh:
  assumes "core_inv k" "refresh_phone_key e (Some k) = (sg, c)"
  shows "lit c (fold signal_active sg b)"
proof -
  obtain r k1 where st: "start_phone_key e k = (r, k1)" by fastforce
  have "core_inv k1" using core_inv_start [OF assms(1), of e] st by simp
  moreover have "phone_key_started k1 \<Longrightarrow> \<exists>u. r = Inr u"
    using assms(1) by (cases rule: start_cases [where e = e]) (use st in auto)
  ultimately show ?thesis using assms(2) st
    by (auto simp: refresh_phone_key_def abi_start_phone_key_def lit_def slot_flag_def no_slots_def)
qed

lemma lit_refreshed:
  assumes "lit c b" "refresh_phone_key e (map_option (core_step x) c) = (sg, c1)"
  shows "lit c1 (fold signal_active sg b1)"
proof (cases c)
  case None
  then show ?thesis using assms(2)
    by (auto simp: refresh_phone_key_def abi_start_phone_key_def)
next
  case (Some k)
  then have "core_inv (core_step x k)" using assms(1) core_inv_step by (simp add: lit_def)
  then show ?thesis using lit_refresh assms(2) Some by simp
qed

lemma started_run: "phone_key_started (fst (snd (core_run e busy c as k))) = phone_key_started k"
  by (auto simp: core_run_def Let_def case_prod_beta split: sum.splits option.splits)

lemma started_share: "phone_key_started (snd (share_destination e lib busy t k)) = phone_key_started k"
  using share_sess [of e lib busy t k] by auto

lemma started_set_config:
  "fst (set_config e v m kn ct mt k) = Inl err \<Longrightarrow>
   phone_key_started (snd (set_config e v m kn ct mt k)) = phone_key_started k"
  by (cases rule: set_config_cases [of v m kn ct mt e k]) auto

lemma lit_keeps:
  assumes "lit c b" "\<And>k. phone_key_started (core_step x k) = phone_key_started k"
  shows "lit (map_option (core_step x) c) b"
  using assms by (auto simp: lit_def core_inv_step)

lemma lit_set_config:
  assumes "lit c b" "set_config_job e e2 v m kn ct mt c = (sg, c1)"
  shows "lit c1 (fold signal_active sg b)"
proof (cases c)
  case (Some k)
  obtain rc sl c0 where r: "abi_set_config e (Some v) (Some m) (Some kn) ct mt c = (rc, sl, c0)"
    by (metis prod_cases3)
  then have c0: "c0 = map_option (core_step (e, Configure (c_string v) (c_string m) (c_string kn) ct mt)) c"
    using abi_core(4) [of e v m kn ct mt c] by simp
  have rc: "rc = Rc_ok" using r Some by (auto simp: abi_set_config_def cstr_def case_prod_beta Let_def)
  show ?thesis
  proof (cases "slot_flag (sl_ok sl)")
    case True
    then show ?thesis using assms(2) r rc lit_refreshed [OF assms(1)] c0
      by (auto simp: set_config_job_def Let_def split: prod.splits)
  next
    case False
    then have "\<exists>err. fst (set_config e (c_string v) (c_string m) (c_string kn) ct mt k) = Inl err"
      using r Some by (auto simp: abi_set_config_def cstr_def slot_flag_def case_prod_beta Let_def split: sum.splits)
    then have "phone_key_started (core_step (e, Configure (c_string v) (c_string m) (c_string kn) ct mt) k)
        = phone_key_started k"
      using started_set_config by auto
    then have "lit c0 b" using assms(1) Some c0 core_inv_set_config by (simp add: lit_def)
    then show ?thesis using assms(2) r rc False by (auto simp: set_config_job_def Let_def)
  qed
qed (use assms in \<open>auto simp: set_config_job_def abi_set_config_def Let_def\<close>)

lemma lit_jobs:
  assumes "lit c b"
  shows "run_command_job e i cm as c = (sg, c1) \<Longrightarrow> lit c1 (fold signal_active sg b)"
    "generate_key_job e e2 force c = (sg, c1) \<Longrightarrow> lit c1 (fold signal_active sg b)"
    "pair_job e e2 c = (sg, c1) \<Longrightarrow> lit c1 (fold signal_active sg b)"
    "share_job e lib i shared c = (sg, c1) \<Longrightarrow> lit c1 (fold signal_active sg b)"
    "resume_job e e2 c = (sg, c1) \<Longrightarrow> lit c1 (fold signal_active sg b)"
proof -
  have refreshed: "lit (snd (refresh_phone_key e2 (map_option (core_step x) c)))
      (fold signal_active (fst (refresh_phone_key e2 (map_option (core_step x) c))) b)" for x
    using lit_refreshed [OF assms] by (metis prod.collapse)
  have rc: "fst (abi_generate_key e force (Some k)) = Rc_ok" "fst (abi_pair e False (Some k)) = Rc_ok" for k
    by (simp_all add: abi_generate_key_def abi_pair_def case_prod_beta Let_def)
  show "lit c1 (fold signal_active sg b)" if "run_command_job e i cm as c = (sg, c1)"
    using that lit_keeps [OF assms, of "(e, Run False (c_string cm) (map c_string as))"]
    by (auto simp: run_command_job_def case_prod_beta Let_def abi_core started_run)
  show "lit c1 (fold signal_active sg b)" if "share_job e lib i shared c = (sg, c1)"
    using that lit_keeps [OF assms, of "(e, Share lib False (c_string shared))"]
    by (auto simp: share_job_def case_prod_beta Let_def abi_core started_share)
  show "lit c1 (fold signal_active sg b)" if "generate_key_job e e2 force c = (sg, c1)"
    using that refreshed [of "(e, Generate force)"] rc(1)
    by (cases c) (auto simp: generate_key_job_def case_prod_beta Let_def abi_core split: if_splits)
  show "lit c1 (fold signal_active sg b)" if "pair_job e e2 c = (sg, c1)"
    using that refreshed [of "(e, Pair_key False)"] rc(2)
    by (cases c) (auto simp: pair_job_def case_prod_beta Let_def abi_core split: if_splits)
  show "lit c1 (fold signal_active sg b)" if "resume_job e e2 c = (sg, c1)"
    using that refreshed [of "(e, Resume)"]
    by (cases c) (auto simp: resume_job_def abi_handle_resume_def case_prod_beta Let_def)
qed

text \<open>One poll: a running phone key after it was either running and untouched, or just restarted.\<close>

lemma poll_started:
  assumes "core_inv k" "poll_phone_key_event e k = (ev, k')" "phone_key_started k'"
  shows "case ev of
      None \<Rightarrow> phone_key_started k
    | Some v \<Rightarrow> ev_kind v = ''presence_restarted'' \<or> ev_kind v \<noteq> ''presence_stopped'' \<and> phone_key_started k"
proof -
  have same: "phone_key_started (snd (next_event e k)) = phone_key_started k"
    using next_event_core [of e k] by auto
  show ?thesis
  proof (cases rule: poll_cases [of e k])
    case (recovers v)
    let ?k = "invalidate_session ((snd (next_event e k))\<lparr>phone_key_started := False\<rparr>)"
    obtain r k1 where st: "start_phone_key e ?k = (r, k1)" by fastforce
    show ?thesis
    proof (cases r)
      case (Inl err)
      have "core_inv ?k"
        using core_inv_next_event [OF assms(1)] by (simp add: core_inv_invalidate core_inv_unstarted)
      then have "\<not> phone_key_started k1"
        by (cases rule: start_cases [where e = e]) (use st Inl in auto)
      then show ?thesis using recovers(4) st Inl assms(2,3) by (auto simp: recover_presence_def Let_def)
    next
      case (Inr u)
      then show ?thesis using recovers(4) st assms(2) by (auto simp: recover_presence_def Let_def)
    qed
  qed (use assms(2,3) same in auto)
qed

lemma core_inv_wires: "core_inv k \<Longrightarrow> core_inv (core_wires e ws k)"
  unfolding core_wires_def by (induction ws arbitrary: k) (simp_all add: core_inv_reader)

lemma wires_fields [simp]:
  "phone_key_started (core_wires e ws k) = phone_key_started k"
  "phone_key_enabled (core_wires e ws k) = phone_key_enabled k"
  "phone_key_retry_at (core_wires e ws k) = phone_key_retry_at k"
  "cfg (core_wires e ws k) = cfg k" "disk (core_wires e ws k) = disk k"
  unfolding core_wires_def by (induction ws arbitrary: k; simp add: core_reader_def)+

lemma kind_read_back [simp]:
  "into_cstring s = ''presence_stopped'' \<longleftrightarrow> s = ''presence_stopped''"
  "into_cstring s = ''presence_restarted'' \<longleftrightarrow> s = ''presence_restarted''"
  "into_cstring s = ''presence_near'' \<longleftrightarrow> s = ''presence_near''"
  by (simp_all add: into_cstring_eq)

lemma lit_poll:
  assumes "lit c b" shows "lit (fst (snd (poll_loop ps c))) (fold signal_active (fst (poll_loop ps c)) b)"
  using assms
proof (induction ps arbitrary: c b)
  case (Cons p ps)
  show ?case
  proof (cases c)
    case None
    then show ?thesis by (simp add: abi_poll_event_def)
  next
    case (Some k)
    let ?k = "core_wires (p_env p) (p_wires p) k"
    have inv: "core_inv ?k" using Cons.prems Some by (simp add: lit_def core_inv_wires)
    obtain ev k1 where r: "poll_phone_key_event (p_env p) ?k = (ev, k1)" by fastforce
    have inv1: "core_inv k1" using core_inv_poll [OF inv, of "p_env p"] r by simp
    note st = poll_started [OF inv r]
    show ?thesis
    proof (cases ev)
      case None
      then show ?thesis using r st Some Cons.prems inv1 by (auto simp: abi_poll_event_def lit_def)
    next
      case ev: (Some v)
      let ?b = "if ev_kind v = ''presence_stopped'' then False
                else if ev_kind v = ''presence_restarted'' \<or> ev_kind v = ''presence_near'' then True else b"
      have "lit (Some k1) ?b" using st ev Some Cons.prems inv1 by (auto simp: lit_def)
      from Cons.IH [OF this] show ?thesis using r Some ev
        by (auto simp: abi_poll_event_def case_prod_beta Let_def event_signal_def)
    qed
  qed
qed simp

lemma run_job_lit:
  assumes "lit (w_core w) b"
  shows "lit (w_core (fst (snd (run_job je j w)))) (fold signal_active (fst (run_job je j w)) b)"
proof (cases j)
  case (J_initialize bd d x)
  show ?thesis
  proof (cases rule: initialize_cases [of je bd d x w])
    case (made k sg c err)
    obtain s0 where "core_new ((j_main je)\<lparr>e_state_dir := c_string d\<rparr>) (j_read je) (j_disk je) (Some (new_session s0)) = Inr k"
      using made(1) by (auto simp: abi_new_def cstr_def Let_def split: sum.splits)
    then have "core_inv k" using core_inv_new by blast
    from lit_refresh [OF this made(2)] show ?thesis using made(3) J_initialize by (simp add: Let_def)
  qed (simp add: J_initialize Let_def)
next
  case (J_set_config v m kn ct mt)
  then show ?thesis using lit_set_config [OF assms] assms by (auto simp: case_prod_beta Let_def)
next
  case J_poll
  then show ?thesis using lit_poll [OF assms] assms by (auto simp: case_prod_beta Let_def)
next
  case J_refresh_config
  then show ?thesis using assms
    by (auto simp: refresh_config_job_def abi_get_status_def Let_def split: option.splits)
next
  case (J_preview i t)
  then show ?thesis using assms by (auto simp: preview_job_def case_prod_beta Let_def)
qed (use lit_jobs [OF assms] assms in \<open>auto simp: case_prod_beta Let_def\<close>)

definition app_lit :: "app \<Rightarrow> bool" where
  "app_lit a = lit (w_core (a_worker a)) (fold signal_active (a_signals a) (c_active (a_client a)))"

lemma app_step_lit:
  assumes "app_lit a" shows "app_lit (app_step v a)"
proof (cases v)
  case (Work je)
  then show ?thesis using assms run_job_lit
    by (auto simp: app_lit_def case_prod_beta Let_def split: list.splits)
next
  case (Reader_takes e w)
  have "lit (map_option (core_reader e w) c) b" if "lit c b" for c b
    using that core_inv_reader by (auto simp: lit_def core_reader_def)
  then show ?thesis using assms Reader_takes by (simp add: app_lit_def)
next
  case (State_changed st)
  then show ?thesis using assms by (auto simp: app_lit_def on_app_state_def)
qed (use assms in \<open>auto simp: app_lit_def on_signal_active split: list.splits\<close>)

lemma app_steps_lit: "app_lit a \<Longrightarrow> app_lit (fold app_step evs a)"
  by (induction evs arbitrary: a) (simp_all add: app_step_lit)

section \<open>A concrete application\<close>

text \<open>It starts with the paired configuration of the examples on disk, and its child answers.\<close>

definition paired_job :: job_env where
  "paired_job = \<lparr>j_main = sample_env\<lparr>e_parse := \<lambda>_. Some (config_json sample_config)\<rparr>,
     j_refresh = sample_env, j_read = R_data ''c'', j_disk = sample_disk, j_lib = sample_lib,
     j_polls = []\<rparr>"

definition paired_core :: core where
  "paired_core = \<lparr>cfg = sample_config, disk = sample_disk, sess = Some (new_session ''bluez''),
     phone_key_started = False, phone_key_enabled = False, phone_key_retry_at = None\<rparr>"

lemma paired_core_new:
  "core_new (sample_env\<lparr>e_parse := \<lambda>_. Some (config_json sample_config), e_state_dir := ''/d''\<rparr>)
     (R_data ''c'') sample_disk (Some (new_session ''bluez'')) = Inr paired_core"
proof -
  have "ensure_writable sample_config = Inr ()"
    by (simp add: ensure_writable_def sample_config_def default_config_def CURRENT_def)
  then have "deserialize (config_json sample_config) = Some sample_config"
    using deserialize_config_json wf_in_i32 [OF wf_sample_config] by blast
  then have "load (\<lambda>_. Some (config_json sample_config)) (R_data ''c'') = (Inr sample_config, None)"
    using sanitize_wf [OF wf_sample_config] by (simp add: load_def)
  then show ?thesis
    by (simp add: core_new_def paired_core_def sample_config_def default_config_def CURRENT_def)
qed

lemma paired_refresh:
  obtains t where "refresh_phone_key sample_env (Some paired_core)
    = ([Phone_key_started True []], Some (paired_core\<lparr>sess := Some t, phone_key_enabled := True, phone_key_started := True\<rparr>))"
proof -
  have "eligible paired_core"
    by (simp add: eligible_def paired_core_def sample_config_def sample_disk_def)
  moreover have "sess paired_core = Some (new_session ''bluez'')" "\<not> phone_key_started paired_core"
    "phone_key_retry_at paired_core = None"
    by (simp_all add: paired_core_def)
  ultimately have "\<exists>t. start_phone_key sample_env paired_core
      = (Inr (), paired_core\<lparr>sess := Some t, phone_key_enabled := True, phone_key_started := True\<rparr>)"
    by (simp add: start_phone_key_def eligible_def new_session_def sample_call sample_reply_def Let_def
        paired_core_def)
  then show thesis using that
    by (auto simp: refresh_phone_key_def abi_start_phone_key_def take_c_def slot_flag_def no_slots_def
        c_string_def)
qed

lemma paired_start:
  "\<exists>t. w_core (a_worker (app_step (Work paired_job) (app_start ''/d'' False)))
     = Some (paired_core\<lparr>sess := Some t, phone_key_enabled := True, phone_key_started := True\<rparr>)"
proof -
  obtain t where t: "refresh_phone_key sample_env (Some paired_core)
    = ([Phone_key_started True []], Some (paired_core\<lparr>sess := Some t, phone_key_enabled := True, phone_key_started := True\<rparr>))" by (rule paired_refresh)
  have "abi_new (j_main paired_job) (R_data ''c'') sample_disk (Some b) (Some ''/d'') (Some x)
      (Some ble_backend) = (Some paired_core, None)" for b x
    using paired_core_new
    by (simp add: abi_new_def cstr_def c_string_def ble_backend_def paired_job_def)
  then have "fst (snd (run_job paired_job (J_initialize b ''/d'' x) w))
      = w\<lparr>w_core := Some (paired_core\<lparr>sess := Some t, phone_key_enabled := True, phone_key_started := True\<rparr>),
          w_timer := True\<rparr>" for b x w
    using t by (simp add: initialize_job_def paired_job_def)
  then show ?thesis by (intro exI [of _ t]) (simp add: app_start_def case_prod_beta Let_def)
qed

section \<open>Properties\<close>

text \<open>
  C9: Every request is answered exactly once, in the order the requests were made.  Whatever happens in
  between (a core that could not be made, refused or failed commands, polls, suspends, shutting down),
  the replies the page has been given, those on their way and the calls still queued are together the
  requests made, each in its turn and under its own identifier.
\<close>

theorem requests_answered_in_order:
  "tickets signal_ticket (a_delivered (fold app_step evs (app_start dir b))
       @ a_signals (fold app_step evs (app_start dir b)))
     @ tickets job_ticket (a_jobs (fold app_step evs (app_start dir b)))
   = tickets asked evs"
proof -
  have "all_tickets (fold app_step evs a) = all_tickets a @ tickets asked evs" for a
    by (induction evs arbitrary: a) (simp_all add: app_step_tickets)
  from this [of "app_start dir b"] show ?thesis by (simp add: all_tickets_def app_start_def)
qed

text \<open>
  C7: The app drives the core only through its operations.  The core of any state the app reaches, by
  any interleaving of requests, timer ticks, suspends, deliveries and lines from the child, is one that a
  start with a BlueZ session and a sequence of core operations on the app's own directory reaches, so
  what is proved of such sequences holds of the app.
\<close>

theorem app_refines_core:
  assumes "list_all (event_dir (c_string dir)) evs"
    and "w_core (a_worker (fold app_step evs (app_start dir b))) = Some k"
  shows "\<exists>e r d k0 xs. e_state_dir e = c_string dir
    \<and> core_new e r d (Some (new_session ''bluez'')) = Inr k0
    \<and> list_all (\<lambda>x. e_state_dir (fst x) = c_string dir) xs \<and> k = fold core_step xs k0"
proof -
  have "app_reached dir (app_start dir b)" by (simp add: app_reached_def app_start_def)
  from app_steps_reached [OF this assms(1)] assms(2) show ?thesis
    by (simp add: app_reached_def reached_def)
qed

theorem app_refines_core_witness:
  "\<exists>k e xs. w_core (a_worker (fold app_step [Work paired_job] (app_start ''/d'' False))) = Some k
     \<and> e_state_dir e = ''/d'' \<and> list_all (\<lambda>x. e_state_dir (fst x) = ''/d'') xs
     \<and> (\<exists>r d k0. core_new e r d (Some (new_session ''bluez'')) = Inr k0 \<and> k = fold core_step xs k0)"
proof -
  have d: "c_string ''/d'' = ''/d''" by (simp add: c_string_def)
  have "list_all (event_dir (c_string ''/d'')) [Work paired_job]"
    by (simp add: event_dir_def d job_envs_def paired_job_def)
  moreover obtain k where k: "w_core (a_worker (fold app_step [Work paired_job] (app_start ''/d'' False))) = Some k"
    using paired_start by auto
  ultimately obtain e r ds k0 xs where "e_state_dir e = ''/d''"
    "core_new e r ds (Some (new_session ''bluez'')) = Inr k0"
    "list_all (\<lambda>x. e_state_dir (fst x) = ''/d'') xs" "k = fold core_step xs k0"
    using app_refines_core [of "''/d''" "[Work paired_job]" False k] unfolding d by blast
  with k show ?thesis by blast
qed

text \<open>
  C23: A running phone key is never shown as off.  After any interleaving of events, if presence is
  running in the core then, once the signals on their way are delivered, the app's phone-key flag, which
  keeps the app awake, is set.
\<close>

theorem running_phone_key_shown:
  assumes "w_core (a_worker (fold app_step evs (app_start dir b))) = Some k" "phone_key_started k"
  shows "c_active (fold on_signal (a_signals (fold app_step evs (app_start dir b)))
           (a_client (fold app_step evs (app_start dir b))))"
proof -
  have "app_lit (app_start dir b)" by (simp add: app_lit_def app_start_def)
  from app_steps_lit [OF this, of evs] show ?thesis
    using assms by (simp add: app_lit_def lit_def on_signals_active)
qed

theorem running_phone_key_shown_witness:
  "c_active (fold on_signal (a_signals (fold app_step [Work paired_job] (app_start ''/d'' False)))
     (a_client (fold app_step [Work paired_job] (app_start ''/d'' False))))"
proof -
  obtain t where "w_core (a_worker (fold app_step [Work paired_job] (app_start ''/d'' False)))
     = Some (paired_core\<lparr>sess := Some t, phone_key_enabled := True, phone_key_started := True\<rparr>)"
    using paired_start by auto
  then show ?thesis by (rule running_phone_key_shown) simp
qed

end
