(* ===== verification/Poll_Loop.thy ===== *)
theory Poll_Loop
  imports Client_Properties
begin

text \<open>
  The polling loop of the worker, an endless \<^verbatim>\<open>for\<close> in the source: how far it has to go before it
  returns, and the state in which it never does.
\<close>

section \<open>What a start leaves in the event queue\<close>

definition is_event_line :: "(string \<Rightarrow> json option) \<Rightarrow> wire \<Rightarrow> bool" where
  "is_event_line parse w =
    (case w of Closed \<Rightarrow> False
     | Line l \<Rightarrow> (case decode_line parse l of Some (F_event v) \<Rightarrow> True | _ \<Rightarrow> False))"

definition quiet_start :: "op_env \<Rightarrow> bool" where
  "quiet_start e = (\<forall>w \<in> set (ce_lines (e_start e)). \<not> is_event_line (e_parse e) w)"

definition few_events :: "session \<Rightarrow> bool" where
  "few_events s = (length (s_events s) \<le> 1 \<and> (is_alive s \<longrightarrow> s_events s = []))"

lemma few_reader:
  assumes "few_events s" "\<not> is_event_line parse w" shows "few_events (reader_step parse w s)"
  using assms
  by (auto simp: few_events_def reader_step_def reader_frame_def reader_end_def is_alive_def
      is_event_line_def split: wire.splits option.splits frame.splits)

lemma few_await:
  assumes "few_events s" "\<forall>w \<in> set ws. \<not> is_event_line parse w"
  shows "few_events (snd (await_response parse ws s))"
  using assms
proof (induction ws arbitrary: s)
  case Nil
  then show ?case
    by (cases "s_child s"; cases "ch_responses (the (s_child s))")
      (auto simp: await_rules few_events_def is_alive_def)
next
  case (Cons w ws)
  show ?case
  proof (cases "s_child s")
    case (Some c)
    then show ?thesis using Cons few_reader [OF Cons.prems(1), of parse w]
      by (cases "ch_responses c"; cases "ch_alive c")
        (auto simp: await_rules few_events_def is_alive_def)
  qed (simp add: await_rules Cons.prems)
qed

lemma transport_failed_events [simp]: "length (s_events (transport_failed s)) = 1"
  by (simp add: transport_failed_def)

lemma fresh_exchange_events:
  assumes "is_alive s" "s_events s = []" "\<forall>w \<in> set (ce_lines e). \<not> is_event_line parse w"
    and "exchange parse e c as s = (res, t)"
  shows "length (s_events t) \<le> 1 \<and> (\<forall>r. res = Inr r \<longrightarrow> s_events t = [])"
  using assms(1)
proof (cases rule: exchange_cases [where parse = parse and e = e and c = c and as = as])
  case (failed err u)
  then show ?thesis using assms(4) by simp
next
  case (answered r u)
  have "few_events (send_request j (s\<lparr>s_next_id := n\<rparr>))" for j n
    using assms(1,2) by (simp add: few_events_def)
  then have "few_events u" using few_await [OF _ assms(3)] answered(1) by (metis snd_conv)
  then show ?thesis using answered(3,5) assms(4) by (auto simp: few_events_def)
qed

lemma fresh_call_events:
  assumes "call_session e ce c as conf (invalidate s) = (res, t)"
    and "\<forall>w \<in> set (ce_lines ce). \<not> is_event_line (e_parse e) w"
  shows "length (s_events t) \<le> 1 \<and> (\<forall>r. res = Inr r \<longrightarrow> s_events t = [])"
proof -
  have run: "session_run (e_parse e) ce c as (child_argv e conf (invalidate s)) (invalidate s) = (res, t)"
    using assms(1) by (simp add: call_session_def)
  have reap: "reap_dead (invalidate s) = invalidate s"
    by (simp add: reap_dead_def invalidate_def kill_child_def)
  have none: "s_events (invalidate s) = []" by (simp add: invalidate_def)
  show ?thesis
  proof (cases rule: session_run_cases [of "e_parse e" ce c as "child_argv e conf (invalidate s)" "invalidate s"])
    case (no_child err)
    then show ?thesis using run reap none by simp
  next
    case (running s1)
    have "s_events s1 = []"
      using running(1) none unfolding reap by (auto simp: ensure_child_def split: option.splits sum.splits)
    moreover have "exchange (e_parse e) ce c as s1 = (res, t)" using running(3) run by simp
    ultimately show ?thesis by (rule fresh_exchange_events [OF running(2) _ assms(2)])
  qed
qed

section \<open>One round\<close>

definition pollable :: "core \<Rightarrow> session \<Rightarrow> bool" where
  "pollable k s = (sess k = Some s \<and> s_backend s = ''bluez'' \<and> eligible k)"

lemma recover_result:
  assumes "pollable k s" "quiet_start e" "\<not> phone_key_started k"
    and "start_phone_key e (invalidate_session k) = (r, k1)"
  shows "\<exists>t. pollable k1 t \<and> length (s_events t) \<le> 1
    \<and> (case r of Inr _ \<Rightarrow> s_events t = [] \<and> phone_key_retry_at k1 = None
       | Inl _ \<Rightarrow> phone_key_retry_at k1 = Some (e_now3 e + 5000))"
proof -
  obtain res t where call: "call_session e (e_start e) ''presence-start'' [] (cfg k) (invalidate s) = (res, t)"
    by fastforce
  have ev: "length (s_events t) \<le> 1 \<and> (\<forall>r. res = Inr r \<longrightarrow> s_events t = [])"
    using fresh_call_events [OF call] assms(2) by (simp add: quiet_start_def)
  have b: "s_backend t = ''bluez''"
    using call_session_backend [of e "e_start e" "''presence-start''" "[]" "cfg k" "invalidate s"] call assms(1)
    by (simp add: pollable_def frame_simps)
  have "start_phone_key e (invalidate_session k) =
      (case res of
         Inr q \<Rightarrow> if r_ok q
           then (Inr (), (invalidate_session k)\<lparr>sess := Some t, phone_key_enabled := True,
                   phone_key_started := True, phone_key_retry_at := None\<rparr>)
           else (Inl (PresenceFailed (trim (r_stderr q))), schedule_phone_key_retry (e_now3 e)
                  ((invalidate_session k)\<lparr>phone_key_started := False, sess := Some t, phone_key_enabled := True\<rparr>))
       | Inl err \<Rightarrow> (Inl (PresenceFailed (session_error_text err)), schedule_phone_key_retry (e_now3 e)
                  ((invalidate_session k)\<lparr>phone_key_started := False, sess := Some t, phone_key_enabled := True\<rparr>)))"
    using assms(1,3) call
    by (simp add: start_phone_key_def pollable_def eligible_def Let_def invalidate_session_def frame_simps
        split: sum.splits)
  then show ?thesis using assms(1,4) ev b
    by (auto simp: pollable_def eligible_def schedule_phone_key_retry_def split: sum.splits if_splits)
qed

lemma poll_round:
  assumes "pollable k s" "quiet_start e" "e_now1 e \<le> e_now2 e" "poll_phone_key_event e k = (ev, k')"
  shows "ev = None
    \<or> (\<exists>t. pollable k' t \<and> length (s_events s) = Suc (length (s_events t))
         \<and> phone_key_retry_at k' = phone_key_retry_at k)
    \<or> (\<not> pending (e_now2 e) (phone_key_retry_at k)
       \<and> (s_events s \<noteq> [] \<or> due (e_now1 e) (phone_key_retry_at k))
       \<and> (\<exists>t. pollable k' t \<and> length (s_events t) \<le> 1
            \<and> (phone_key_retry_at k' = None \<and> s_events t = []
               \<or> phone_key_retry_at k' = Some (e_now3 e + 5000))))"
proof -
  let ?k1 = "snd (next_event e k)"
  have k1: "?k1 = k\<lparr>sess := Some (snd (poll_event s))\<rparr>"
    using next_event_core [of e k] assms(1) by (auto simp: pollable_def)
  have s1: "pollable ?k1 (snd (poll_event s))"
    using assms(1) k1 by (simp add: pollable_def eligible_def frame_simps)
  have src: "s_events s \<noteq> [] \<or> due (e_now1 e) (phone_key_retry_at k)" if "fst (next_event e k) = Some v" for v
    using that assms(1) by (auto simp: pollable_def next_event_def poll_event_def Let_def split: if_splits)
  have popped: "\<exists>t. pollable ?k1 t \<and> length (s_events s) = Suc (length (s_events t))
      \<and> phone_key_retry_at ?k1 = phone_key_retry_at k" if "s_events s \<noteq> []"
    using that s1 k1 by (intro exI [of _ "snd (poll_event s)"]) (auto simp: poll_event_def split: list.splits)
  show ?thesis
  proof (cases rule: poll_cases [of e k])
    case quiet
    then show ?thesis using assms(4) by simp
  next
    case (other v)
    then have "s_events s \<noteq> []"
      using assms(1) by (auto simp: pollable_def next_event_def poll_event_def Let_def split: if_splits)
    then show ?thesis using popped other assms(4) by auto
  next
    case (held v)
    have "s_events s \<noteq> []"
    proof
      assume none: "s_events s = []"
      then have "due (e_now1 e) (phone_key_retry_at k)" "phone_key_enabled k"
        using held(1) assms(1)
        by (auto simp: pollable_def next_event_def poll_event_def Let_def split: if_splits)
      then show False using held(2,3) k1 assms(3)
        by (auto simp: wants_retry_def due_def pending_def split: option.splits)
    qed
    from popped [OF this] obtain t where "pollable ?k1 t" "length (s_events s) = Suc (length (s_events t))"
      "phone_key_retry_at ?k1 = phone_key_retry_at k" by blast
    then show ?thesis using held assms(4)
      by (intro disjI2 disjI1 exI [of _ t]) (simp add: pollable_def eligible_def)
  next
    case (recovers v)
    let ?k2 = "?k1\<lparr>phone_key_started := False\<rparr>"
    obtain r k2 where st: "start_phone_key e (invalidate_session ?k2) = (r, k2)" by fastforce
    have "pollable ?k2 (snd (poll_event s))" using s1 by (simp add: pollable_def eligible_def)
    from recover_result [OF this assms(2) _ st] obtain t where t: "pollable k2 t" "length (s_events t) \<le> 1"
      "phone_key_retry_at k2 = None \<and> s_events t = [] \<or> phone_key_retry_at k2 = Some (e_now3 e + 5000)"
      by (cases r) auto
    have "k' = k2" using recovers(4) st assms(4)
      by (auto simp: recover_presence_def Let_def split: sum.splits)
    moreover have "\<not> pending (e_now2 e) (phone_key_retry_at k)"
      using recovers(3) k1 by (simp add: wants_retry_def)
    ultimately show ?thesis using t src [OF recovers(1)] by blast
  qed
qed

section \<open>The loop\<close>

lemma reader_event_count: "length (s_events (reader_step parse w s)) \<le> Suc (length (s_events s))"
  by (auto simp: reader_step_def reader_frame_def reader_end_def push_event_def
      split: wire.splits option.splits frame.splits)

lemma wires_pollable:
  "pollable k s \<Longrightarrow>
   \<exists>t. pollable (core_wires e ws k) t \<and> length (s_events t) \<le> length (s_events s) + length ws"
proof (induction ws arbitrary: k s)
  case (Cons w ws)
  let ?t = "reader_step (e_parse e) w s"
  have "pollable (core_reader e w k) ?t"
    using Cons.prems by (simp add: pollable_def core_reader_def eligible_def frame_simps)
  from Cons.IH [OF this] reader_event_count [of "e_parse e" w s] show ?case
    by (force simp: core_wires_def)
qed (auto simp: core_wires_def)

text \<open>The clock over the loop: a retry scheduled in one round is not due in a later one.\<close>

definition before_retry :: "poll_env \<Rightarrow> poll_env \<Rightarrow> bool" where
  "before_retry p q =
    (e_now1 (p_env q) < e_now3 (p_env p) + 5000 \<and> e_now2 (p_env q) < e_now3 (p_env p) + 5000)"

definition holds_off :: "poll_env list \<Rightarrow> int option \<Rightarrow> bool" where
  "holds_off ps r = (\<exists>d. r = Some d \<and> (\<forall>p \<in> set ps. e_now1 (p_env p) < d \<and> e_now2 (p_env p) < d))"

text \<open>The recovery attempts the loop may still make.\<close>

definition attempts :: "poll_env list \<Rightarrow> int option \<Rightarrow> nat" where
  "attempts ps r = (if holds_off ps r then 0 else case r of None \<Rightarrow> 1 | Some d \<Rightarrow> 2)"

lemma attempts_tl: "attempts ps r \<le> attempts (p # ps) r"
  by (auto simp: attempts_def holds_off_def split: option.splits)

lemma attempts_le: "attempts ps r \<le> 2"
  by (simp add: attempts_def split: option.splits)

definition loop_env :: "poll_env \<Rightarrow> bool" where
  "loop_env p = (quiet_start (p_env p) \<and> e_now1 (p_env p) \<le> e_now2 (p_env p))"

definition arriving :: "poll_env list \<Rightarrow> nat" where
  "arriving ps = sum_list (map (\<lambda>p. length (p_wires p)) ps)"

lemma arriving_simps [simp]: "arriving [] = 0" "arriving (p # ps) = length (p_wires p) + arriving ps"
  by (simp_all add: arriving_def)

lemma poll_loop_returns:
  assumes "pollable k s" "list_all loop_env ps" "sorted_wrt before_retry ps"
    and "length (s_events s) + arriving ps + attempts ps (phone_key_retry_at k) < length ps"
  shows "snd (snd (poll_loop ps (Some k)))"
  using assms
proof (induction ps arbitrary: k s)
  case (Cons p ps)
  let ?e = "p_env p"
  let ?k0 = "core_wires ?e (p_wires p) k"
  obtain s0 where s0: "pollable ?k0 s0" "length (s_events s0) \<le> length (s_events s) + length (p_wires p)"
    using wires_pollable [OF Cons.prems(1)] by blast
  obtain ev k1 where r: "poll_phone_key_event ?e ?k0 = (ev, k1)" by fastforce
  have env: "quiet_start ?e" "e_now1 ?e \<le> e_now2 ?e" using Cons.prems(2) by (simp_all add: loop_env_def)
  show ?case
  proof (cases ev)
    case None
    then show ?thesis using r by (simp add: abi_poll_event_def)
  next
    case (Some v)
    have "\<exists>t. pollable k1 t \<and> length (s_events t) + arriving ps + attempts ps (phone_key_retry_at k1) < length ps"
    proof -
      consider (pop) t where "pollable k1 t" "length (s_events s0) = Suc (length (s_events t))"
          "phone_key_retry_at k1 = phone_key_retry_at k"
        | (attempt) t where "\<not> pending (e_now2 ?e) (phone_key_retry_at k)"
          "s_events s0 \<noteq> [] \<or> due (e_now1 ?e) (phone_key_retry_at k)" "pollable k1 t" "length (s_events t) \<le> 1"
          "phone_key_retry_at k1 = None \<and> s_events t = [] \<or> phone_key_retry_at k1 = Some (e_now3 ?e + 5000)"
        using poll_round [OF s0(1) env r] Some by auto
      then show ?thesis
      proof cases
        case pop
        then show ?thesis
          using Cons.prems(4) s0(2) attempts_tl [of ps "phone_key_retry_at k" p] by (intro exI [of _ t]) simp
      next
        case attempt
        have "\<not> holds_off (p # ps) (phone_key_retry_at k)"
          using attempt(1) by (auto simp: holds_off_def pending_def)
        then have "1 + arriving ps < length ps"
          using Cons.prems(4) s0(2) attempt(2)
          by (cases "phone_key_retry_at k"; cases "s_events s0") (auto simp: attempts_def due_def)
        moreover have "attempts ps (Some (e_now3 ?e + 5000)) = 0"
          using Cons.prems(3) by (auto simp: attempts_def holds_off_def before_retry_def)
        moreover have "attempts ps None = 1" by (simp add: attempts_def holds_off_def)
        ultimately show ?thesis using attempt(3-5) by (intro exI [of _ t]) auto
      qed
    qed
    then have "snd (snd (poll_loop ps (Some k1)))" using Cons.IH Cons.prems(2,3) by auto
    then show ?thesis using r Some by (simp add: abi_poll_event_def case_prod_beta Let_def)
  qed
qed simp

section \<open>A retry that is due and refused\<close>

text \<open>
  The retry is due and the vehicle is not eligible, because the key file is gone: the start is refused
  before anything is rescheduled.
\<close>

lemma poll_refused:
  assumes "phone_key_enabled k" "\<not> eligible k" "phone_key_retry_at k = Some d"
    "d \<le> e_now1 e" "d \<le> e_now2 e" "\<forall>s. sess k = Some s \<longrightarrow> s_events s = []"
  shows "\<exists>v k1. poll_phone_key_event e k = (Some v, k1) \<and> ev_kind v = ''presence_stopped''
    \<and> ev_error v = operation_error_text NotPaired
    \<and> phone_key_enabled k1 \<and> \<not> eligible k1 \<and> phone_key_retry_at k1 = Some d
    \<and> (\<forall>s. sess k1 = Some s \<longrightarrow> s_events s = [])"
proof -
  have nx: "\<exists>v. fst (next_event e k) = Some v \<and> ev_kind v = ''presence_stopped''"
    "snd (next_event e k) = k"
    using assms by (auto simp: next_event_def due_def poll_event_def Let_def split: option.splits)
  then have "wants_retry e k (fst (next_event e k))" using assms(1,3,5) by (auto simp: wants_retry_def pending_def)
  then obtain v where v: "ev_kind v = ''presence_stopped''"
    and run: "poll_phone_key_event e k = (let (v, k') = recover_presence e v (k\<lparr>phone_key_started := False\<rparr>)
                in (Some v, k'))"
    using nx by (cases rule: poll_cases [of e k]) (auto simp: wants_retry_def)
  have el: "\<not> eligible ((invalidate_session (k\<lparr>phone_key_started := False\<rparr>))\<lparr>phone_key_started := False\<rparr>)"
    using assms(2) by (simp add: eligible_def invalidate_session_def)
  let ?k1 = "(invalidate_session (k\<lparr>phone_key_started := False\<rparr>))\<lparr>phone_key_started := False\<rparr>"
  have "start_phone_key e (invalidate_session (k\<lparr>phone_key_started := False\<rparr>)) = (Inl NotPaired, ?k1)"
    using el by (simp add: start_phone_key_def Let_def)
  then have "poll_phone_key_event e k = (Some (v\<lparr>ev_error := operation_error_text NotPaired\<rparr>), ?k1)"
    using run by (simp add: recover_presence_def)
  moreover have "\<forall>s. sess ?k1 = Some s \<longrightarrow> s_events s = []"
    by (auto simp: invalidate_session_def invalidate_def)
  ultimately show ?thesis using v el assms(1,3)
    by (intro exI [of _ "v\<lparr>ev_error := operation_error_text NotPaired\<rparr>"] exI [of _ ?k1]) simp
qed

section \<open>A concrete round\<close>

definition sample_round :: poll_env where
  "sample_round = \<lparr>p_wires = [], p_env = sample_env, p_now = ''2026-01-01T00:00:00.000Z''\<rparr>"

lemma sample_no_events: "\<not> is_event_line sample_parse w"
proof (cases w)
  case (Line l)
  have "decode_line sample_parse l \<noteq> Some (F_event v)" for v
    by (simp add: decode_line_def sample_parse_def frame_of_json_def frame_of_tag_def fields_from_def
        required_def de_str_def de_u32_def de_bool_def de_i32_def de_response_def in_i32_def)
  then show ?thesis using Line by (simp add: is_event_line_def split: option.splits frame.splits)
qed (simp add: is_event_line_def)

lemma sample_rounds:
  "list_all loop_env (replicate n sample_round)" "sorted_wrt before_retry (replicate n sample_round)"
  "arriving (replicate n sample_round) = 0"
  by (induction n) (simp_all add: loop_env_def quiet_start_def sample_no_events sample_round_def before_retry_def)

section \<open>Properties\<close>



text \<open>
  C31: The polling loop never returns when the key file has disappeared while a retry is due: each round
  reports that presence stopped and schedules nothing, so the worker answers no other request.
\<close>

theorem poll_loop_stuck:
  assumes "phone_key_enabled k" "\<not> eligible k" "phone_key_retry_at k = Some d"
    and "\<forall>s. sess k = Some s \<longrightarrow> s_events s = []"
    and "list_all (\<lambda>p. d \<le> e_now1 (p_env p) \<and> d \<le> e_now2 (p_env p) \<and> p_wires p = []) ps"
  shows "\<not> snd (snd (poll_loop ps (Some k)))
    \<and> list_all (\<lambda>sg. \<exists>v t. sg = Phone_key_event ''presence_stopped'' v t
                    ''phone key is waiting for a configured VIN and completed pairing'')
        (fst (poll_loop ps (Some k)))
    \<and> length (fst (poll_loop ps (Some k))) = length ps"
  using assms
proof (induction ps arbitrary: k)
  case (Cons p ps)
  obtain v k1 where r: "poll_phone_key_event (p_env p) k = (Some v, k1)" "ev_kind v = ''presence_stopped''"
    "ev_error v = operation_error_text NotPaired" "phone_key_enabled k1" "\<not> eligible k1"
    "phone_key_retry_at k1 = Some d" "\<forall>s. sess k1 = Some s \<longrightarrow> s_events s = []"
    using poll_refused [OF Cons.prems(1-3), of "p_env p"] Cons.prems(4,5) by auto
  have w: "core_wires (p_env p) (p_wires p) k = k" using Cons.prems(5) by (simp add: core_wires_def)
  have m: "c_string (into_cstring (operation_error_text NotPaired))
      = ''phone key is waiting for a configured VIN and completed pairing''"
    by (simp add: c_string_def)
  have "c_string ''presence_stopped'' = ''presence_stopped''" by (simp add: c_string_def)
  with m r w Cons.IH [OF r(4-7)] Cons.prems(5) show ?case
    by (simp add: abi_poll_event_def case_prod_beta Let_def event_signal_def)
qed simp

theorem poll_loop_stuck_witness:
  "\<not> snd (snd (poll_loop (replicate 3 sample_round)
     (Some (sample_core\<lparr>disk := sample_disk\<lparr>d_private := None\<rparr>\<rparr>))))"
  using poll_loop_stuck [of "sample_core\<lparr>disk := sample_disk\<lparr>d_private := None\<rparr>\<rparr>" 5000 "replicate 3 sample_round"]
  by (simp add: sample_core_def eligible_def new_session_def sample_round_def list_all_iff)

end
