(* ===== verification/Client_Pages.thy ===== *)
theory Client_Pages
  imports Client_Properties
begin

text \<open>
  The pages that talk to the client beside the dashboard and the command pages:
  \<^verbatim>\<open>SettingsPage.qml\<close>, \<^verbatim>\<open>PairingPage.qml\<close>, \<^verbatim>\<open>NavigationPage.qml\<close> and the share handlers of
  \<^verbatim>\<open>harbour-electric-eel.qml\<close>.  A page is the record of
  its properties; a button is the request it makes, if its guard lets it, and the page it leaves; a
  signal handler is a function on the page.  Texts are the untranslated ones, \<^verbatim>\<open>qsTr\<close> being the identity.
\<close>

section \<open>Requests under way\<close>

definition outstanding :: "app \<Rightarrow> ticket list" where
  "outstanding a = tickets signal_ticket (a_signals a) @ tickets job_ticket (a_jobs a)"

lemma outstanding_step:
  "outstanding (app_step v a) =
    (case v of
       Ask q \<Rightarrow> outstanding a @ tickets job_ticket [job_of q]
     | Deliver \<Rightarrow> (case a_signals a of [] \<Rightarrow> outstanding a
         | sg # ss \<Rightarrow> (case signal_ticket sg of None \<Rightarrow> outstanding a | Some t \<Rightarrow> tl (outstanding a)))
     | _ \<Rightarrow> outstanding a)"
proof (cases v)
  case (Work je)
  show ?thesis
  proof (cases "a_jobs a")
    case (Cons j js)
    obtain sg w fin where r: "run_job je j (a_worker a) = (sg, w, fin)" by (metis prod_cases3)
    then show ?thesis using run_job_tickets [of je j "a_worker a"] run_job_returns [of je j "a_worker a"] Work Cons
      by (auto simp: outstanding_def)
  qed (simp add: Work)
next
  case Deliver
  then show ?thesis by (auto simp: outstanding_def split: list.split option.split)
qed (auto simp: outstanding_def case_prod_beta Let_def)

lemma outstanding_head:
  "a_signals a = sg # ss \<Longrightarrow> signal_ticket sg = Some t \<Longrightarrow> \<exists>ts. outstanding a = t # ts"
  by (simp add: outstanding_def)

section \<open>The settings page\<close>

record settings_page =
  sp_status :: string
  sp_loading :: bool
  sp_ready :: bool
  sp_vin :: string
  sp_model :: nat
  sp_key_name :: string
  sp_connect :: int
  sp_command :: int

definition settings_start :: "int \<Rightarrow> int \<Rightarrow> settings_page" where
  "settings_start ct mt = \<lparr>sp_status = ''Loading current configuration...'', sp_loading = False,
     sp_ready = False, sp_vin = [], sp_model = 0, sp_key_name = [], sp_connect = ct, sp_command = mt\<rparr>"

text \<open>The text field's change handler, silent while the page fills itself in.\<close>

definition vin_text :: "string \<Rightarrow> settings_page \<Rightarrow> settings_page" where
  "vin_text t p =
    (let p1 = p\<lparr>sp_vin := t\<rparr>
     in if sp_vin p = t \<or> sp_loading p then p1 else p1\<lparr>sp_model := modelIndex (guessModel t)\<rparr>)"

text \<open>
  The slider is Sailfish's: \<^verbatim>\<open>slider lo hi v\<close> is the value it holds when \<^verbatim>\<open>v\<close> is assigned to a
  slider of those bounds.
\<close>

definition settings_signal :: "(int \<Rightarrow> int \<Rightarrow> int \<Rightarrow> int) \<Rightarrow> signal \<Rightarrow> settings_page \<Rightarrow> settings_page" where
  "settings_signal slider sg p =
    (case sg of
       Config_loaded v m kn ct mt has_key pem \<Rightarrow>
         let p1 = vin_text v (p\<lparr>sp_loading := True\<rparr>);
             p2 = p1\<lparr>sp_model := modelIndex m, sp_key_name := kn, sp_connect := slider 5 300 ct,
                     sp_command := slider 2 300 mt\<rparr>
         in p2\<lparr>sp_loading := False, sp_ready := True,
               sp_status := (if has_key then ''Key on file''
                             else ''No key yet - use Pair Vehicle from the main menu'')\<rparr>
     | Config_saved ok m \<Rightarrow> p\<lparr>sp_status := (if ok then ''Saved'' else ''Save failed: '' @ m)\<rparr>
     | _ \<Rightarrow> p)"

definition press_save :: "settings_page \<Rightarrow> request option" where
  "press_save p =
    (if sp_ready p
     then Some (Ask_set_config (sp_vin p) (m_id (MODELS ! sp_model p)) (sp_key_name p) (sp_connect p)
                  (sp_command p))
     else None)"

section \<open>The pairing page\<close>

record pairing_page =
  pp_pem :: string
  pp_generating :: bool
  pp_pairing :: bool
  pp_status :: string
  pp_keys :: string
  pp_ready :: bool
  pp_list_id :: string

definition pairing_start :: pairing_page where
  "pairing_start = \<lparr>pp_pem = [], pp_generating = False, pp_pairing = False, pp_status = [],
     pp_keys = [], pp_ready = False, pp_list_id = []\<rparr>"

definition pairing_signal :: "signal \<Rightarrow> pairing_page \<Rightarrow> pairing_page" where
  "pairing_signal sg p =
    (case sg of
       Key_generated ok pem m \<Rightarrow>
         let p1 = p\<lparr>pp_generating := False\<rparr>
         in if ok then p1\<lparr>pp_pem := pem,
                pp_status := ''Key generated. Tap \"Pair with Vehicle\", then tap your NFC card on the center console when prompted on the car'' @ CHR 0x27 # ''s screen.''\<rparr>
            else p1\<lparr>pp_status := ''Key generation failed: '' @ m\<rparr>
     | Paired_done ok out m \<Rightarrow>
         p\<lparr>pp_pairing := False,
           pp_status := (if ok then ''Paired.'' @ CHR 0x0A # out else ''Pairing failed: '' @ m)\<rparr>
     | Command_finished i ok out err n \<Rightarrow>
         if i \<noteq> pp_list_id p then p else p\<lparr>pp_keys := (if ok then out else err)\<rparr>
     | Command_error i m \<Rightarrow> if i \<noteq> pp_list_id p then p else p\<lparr>pp_keys := m\<rparr>
     | Config_loaded v m kn ct mt has_key pem \<Rightarrow>
         let p1 = p\<lparr>pp_ready := True\<rparr> in if has_key then p1\<lparr>pp_pem := pem\<rparr> else p1
     | _ \<Rightarrow> p)"

definition press_generate :: "pairing_page \<Rightarrow> request option \<times> pairing_page" where
  "press_generate p =
    (if pp_ready p \<and> \<not> pp_generating p \<and> \<not> pp_pairing p
     then (Some (Ask_generate False), p\<lparr>pp_generating := True\<rparr>) else (None, p))"

definition press_pair :: "pairing_page \<Rightarrow> request option \<times> pairing_page" where
  "press_pair p =
    (if \<not> pp_pairing p \<and> 0 < length (pp_pem p)
     then (Some Ask_pair, p\<lparr>pp_pairing := True,
             pp_status := ''Requesting pairing over BLE - approve on the car'' @ CHR 0x27 # ''s touchscreen / NFC card now.''\<rparr>)
     else (None, p))"

definition press_list :: "string \<Rightarrow> string \<Rightarrow> pairing_page \<Rightarrow> request option \<times> pairing_page" where
  "press_list now random p =
    (let i = ''list-keys#'' @ now @ ''@'' @ random
     in (Some (Ask_run i ''list-keys'' []), p\<lparr>pp_list_id := i\<rparr>))"

section \<open>The navigation page\<close>

record navigation_page =
  np_text :: string
  np_sending :: bool
  np_preview :: string
  np_result :: string
  np_seq :: nat
  np_preview_id :: string
  np_send_id :: string

text \<open>White space of JavaScript: as above without U+0085 and with U+FEFF.\<close>

definition js_ws_codes :: "string list" where
  "js_ws_codes = map (char_of :: nat \<Rightarrow> char) [239, 187, 191]
     # filter (\<lambda>w. w \<noteq> map (char_of :: nat \<Rightarrow> char) [194, 133]) ws_codes"

definition js_blank :: "string \<Rightarrow> bool" where
  "js_blank s = (strip_codes js_ws_codes (length s) s = [])"

definition navigation_start :: navigation_page where
  "navigation_start = \<lparr>np_text = [], np_sending = False, np_preview = [], np_result = [], np_seq = 0,
     np_preview_id = [], np_send_id = []\<rparr>"

definition checking_text :: string where
  "checking_text = ''Checking...''"

definition nav_preview :: "string \<Rightarrow> navigation_page \<Rightarrow> request option \<times> navigation_page" where
  "nav_preview now p =
    (let p1 = p\<lparr>np_result := []\<rparr>
     in if js_blank (np_text p1)
        then (None, p1\<lparr>np_preview := ''Paste or type a destination first.''\<rparr>)
        else let n = np_seq p1 + 1; i = ''nav:preview#'' @ nat_digits n @ ''@'' @ now
             in (Some (Ask_preview i (np_text p1)),
                 p1\<lparr>np_preview := checking_text, np_seq := n, np_preview_id := i\<rparr>))"

definition nav_send :: "string \<Rightarrow> navigation_page \<Rightarrow> request option \<times> navigation_page" where
  "nav_send now p =
    (if js_blank (np_text p) then (None, p\<lparr>np_result := ''Nothing to send.''\<rparr>)
     else let n = np_seq p + 1; i = ''nav:send#'' @ nat_digits n @ ''@'' @ now
          in (Some (Ask_share i (np_text p)),
              p\<lparr>np_sending := True, np_result := [], np_seq := n, np_send_id := i\<rparr>))"

text \<open>Both buttons are disabled while a send is under way.\<close>

definition press_preview :: "string \<Rightarrow> navigation_page \<Rightarrow> request option \<times> navigation_page" where
  "press_preview now p = (if np_sending p then (None, p) else nav_preview now p)"

definition press_send :: "string \<Rightarrow> navigation_page \<Rightarrow> request option \<times> navigation_page" where
  "press_send now p = (if np_sending p then (None, p) else nav_send now p)"

definition em_dash :: string where
  "em_dash = [CHR 0xE2, CHR 0x80, CHR 0x94]"

definition navigation_signal :: "signal \<Rightarrow> navigation_page \<Rightarrow> navigation_page" where
  "navigation_signal sg p =
    (case sg of
       Destination_previewed i ok kind a b m \<Rightarrow>
         if i \<noteq> np_preview_id p then p
         else if \<not> ok then p\<lparr>np_preview := ''Cannot use this: '' @ m\<rparr>
         else if kind = ''gps''
         then p\<lparr>np_preview := ''Coordinates '' @ a @ '', '' @ b @ '' '' @ em_dash @ '' navigation will start there.''\<rparr>
         else p\<lparr>np_preview := ''Address \"'' @ a @ ''\" '' @ em_dash @ '' the car will look it up.''\<rparr>
     | Share_finished i ok out m \<Rightarrow>
         if i \<noteq> np_send_id p then p
         else p\<lparr>np_sending := False, np_result := (if ok then out else ''Send failed: '' @ m)\<rparr>
     | _ \<Rightarrow> p)"

text \<open>Opened with a shared text, the page previews it at once.\<close>

definition navigation_opened :: "string \<Rightarrow> string \<Rightarrow> request option \<times> navigation_page" where
  "navigation_opened now initial =
    (if 0 < length initial then nav_preview now (navigation_start\<lparr>np_text := initial\<rparr>)
     else (None, navigation_start))"

section \<open>Texts shared from other apps\<close>

text \<open>
  \<^verbatim>\<open>harbour-electric-eel.qml\<close>: a shared resource may carry its text as data or, from the browser,
  as status; an absent or empty member counts as missing.  The share provider opens the navigation page
  in any case, the D-Bus adaptor only with a text.
\<close>

record shared_resource =
  sr_data :: "string option"
  sr_status :: "string option"

definition truthy_text :: "string option \<Rightarrow> bool" where
  "truthy_text x = (case x of None \<Rightarrow> False | Some s \<Rightarrow> s \<noteq> [])"

definition join_line :: "string \<Rightarrow> string \<Rightarrow> string" where
  "join_line t x = t @ (if 0 < length t then [CHR 0x0A] else []) @ x"

definition provider_text :: "shared_resource list \<Rightarrow> string" where
  "provider_text rs =
    fold (\<lambda>r t. if truthy_text (sr_data r) then join_line t (the (sr_data r))
                else if truthy_text (sr_status r) then join_line t (the (sr_status r)) else t) rs []"

definition adaptor_text :: "shared_resource list \<Rightarrow> string" where
  "adaptor_text rs =
    fold (\<lambda>r t. if truthy_text (sr_status r) then join_line t (the (sr_status r))
                else if truthy_text (sr_data r) then join_line t (the (sr_data r)) else t) rs []"

definition provider_opens :: "string \<Rightarrow> shared_resource list \<Rightarrow> (request option \<times> navigation_page) option" where
  "provider_opens now rs = Some (navigation_opened now (provider_text rs))"

definition adaptor_opens :: "string \<Rightarrow> shared_resource list \<Rightarrow> (request option \<times> navigation_page) option" where
  "adaptor_opens now rs =
    (if 0 < length (adaptor_text rs) then Some (navigation_opened now (adaptor_text rs)) else None)"

text \<open>The two entry points read the same text from every share whose resources carry only one member.\<close>

lemma provider_adaptor_agree:
  assumes "list_all (\<lambda>r. \<not> (truthy_text (sr_data r) \<and> truthy_text (sr_status r))) rs"
  shows "provider_text rs = adaptor_text rs"
  unfolding provider_text_def adaptor_text_def
  by (rule fold_cong) (use assms in \<open>auto simp: list_all_iff\<close>)

section \<open>A page on the application\<close>

text \<open>
  A page is run on the whole application: pressing a button may queue a request, delivering a signal
  runs the page's handler, and everything else goes on beside it.
\<close>

definition ask :: "request option \<Rightarrow> app \<Rightarrow> app" where
  "ask q a = (case q of None \<Rightarrow> a | Some r \<Rightarrow> app_step (Ask r) a)"

definition handled :: "(signal \<Rightarrow> 'p \<Rightarrow> 'p) \<Rightarrow> app_event \<Rightarrow> app \<Rightarrow> 'p \<Rightarrow> 'p" where
  "handled h v a p = (case (v, a_signals a) of (Deliver, sg # ss) \<Rightarrow> h sg p | _ \<Rightarrow> p)"

datatype pairing_event = P_generate | P_pair | P_list string string | P_app app_event

fun pairing_step :: "pairing_event \<Rightarrow> app \<times> pairing_page \<Rightarrow> app \<times> pairing_page" where
  "pairing_step P_generate (a, p) = (let (q, p1) = press_generate p in (ask q a, p1))"
| "pairing_step P_pair (a, p) = (let (q, p1) = press_pair p in (ask q a, p1))"
| "pairing_step (P_list now random) (a, p) = (let (q, p1) = press_list now random p in (ask q a, p1))"
| "pairing_step (P_app v) (a, p) = (app_step v a, handled pairing_signal v a p)"

datatype navigation_event = N_type string | N_preview string | N_send string | N_app app_event

fun navigation_step :: "navigation_event \<Rightarrow> app \<times> navigation_page \<Rightarrow> app \<times> navigation_page" where
  "navigation_step (N_type t) (a, p) = (a, p\<lparr>np_text := t\<rparr>)"
| "navigation_step (N_preview now) (a, p) = (let (q, p1) = press_preview now p in (ask q a, p1))"
| "navigation_step (N_send now) (a, p) = (let (q, p1) = press_send now p in (ask q a, p1))"
| "navigation_step (N_app v) (a, p) = (app_step v a, handled navigation_signal v a p)"

section \<open>Lemmas\<close>

lemma outstanding_ask [simp]:
  "outstanding (ask None a) = outstanding a"
  "outstanding (ask (Some q) a) = outstanding a @ tickets job_ticket [job_of q]"
  by (simp_all add: ask_def outstanding_def)

text \<open>An event that is neither a delivery nor a request of the page's own kind.\<close>

definition elsewhere :: "(ticket \<Rightarrow> bool) \<Rightarrow> app_event \<Rightarrow> bool" where
  "elsewhere P v = (case v of Ask q \<Rightarrow> \<not> (\<exists>t. job_ticket (job_of q) = Some t \<and> P t) | _ \<Rightarrow> True)"

lemma elsewhere_step:
  assumes "elsewhere P v" "v \<noteq> Deliver"
  shows "filter P (outstanding (app_step v a)) = filter P (outstanding a)" "handled h v a p = p"
proof -
  show "handled h v a p = p" using assms(2) by (cases v) (simp_all add: handled_def)
  show "filter P (outstanding (app_step v a)) = filter P (outstanding a)"
    using assms by (cases v) (auto simp: outstanding_step elsewhere_def simp del: app_step.simps split: option.splits)
qed

text \<open>What a delivery does to the requests a page waits for: the head goes if it is one of them.\<close>

lemma deliver_step:
  "filter P (outstanding (app_step Deliver a)) =
    (case a_signals a of [] \<Rightarrow> filter P (outstanding a)
     | sg # ss \<Rightarrow> (case signal_ticket sg of None \<Rightarrow> filter P (outstanding a)
         | Some t \<Rightarrow> if P t then tl (filter P (outstanding a)) else filter P (outstanding a)))"
proof (cases "a_signals a")
  case (Cons sg ss)
  show ?thesis
  proof (cases "signal_ticket sg")
    case (Some t)
    then obtain ts where "outstanding a = t # ts" using outstanding_head Cons by blast
    then show ?thesis using Cons Some by (simp add: outstanding_step del: app_step.simps)
  qed (simp add: outstanding_step Cons del: app_step.simps)
qed (simp add: outstanding_step del: app_step.simps)

lemma deliver_head:
  "a_signals a = sg # ss \<Longrightarrow> signal_ticket sg = Some t \<Longrightarrow> P t \<Longrightarrow> \<exists>ts. filter P (outstanding a) = t # ts"
  using outstanding_head by fastforce

text \<open>The settings of the core are free of NUL bytes and pass through unchanged.\<close>

lemma wf_no_nul:
  assumes "wf_config c"
  shows "CHR 0x00 \<notin> set (vin c)" "CHR 0x00 \<notin> set (model c)" "CHR 0x00 \<notin> set (key_name c)"
proof -
  have "\<not> vin_char (CHR 0x00)"
    by (simp add: vin_char_def is_upper_def is_digit_def byte_def)
  then show "CHR 0x00 \<notin> set (vin c)"
    using assms by (auto simp: wf_config_def valid_vin_def vin_re_def list_all_iff)
  show "CHR 0x00 \<notin> set (model c)" using assms by (auto simp: wf_config_def VALID_MODELS_def)
  have "\<not> (is_alpha (CHR 0x00) \<or> is_digit (CHR 0x00))"
    by (simp add: is_alpha_def is_upper_def is_lower_def is_digit_def byte_def)
  then show "CHR 0x00 \<notin> set (key_name c)"
    using assms by (auto simp: wf_config_def key_name_re_def list_all_iff)
qed

lemma c_string_id: "CHR 0x00 \<notin> set s \<Longrightarrow> c_string s = s"
  by (auto simp: c_string_def takeWhile_eq_all_conv)

lemma model_picked: "m \<in> set VALID_MODELS \<Longrightarrow> m_id (MODELS ! modelIndex m) = m"
  by (auto simp: VALID_MODELS_def modelIndex_def MODELS_def)

lemma new_config_same:
  assumes "wf_config c"
  shows "new_config (vin c) (model c) (key_name c) (connect_timeout_sec c) (command_timeout_sec c) c = c"
    "validate_config (vin c) (model c) (key_name c) (connect_timeout_sec c) (command_timeout_sec c) = Inr ()"
proof -
  show "new_config (vin c) (model c) (key_name c) (connect_timeout_sec c) (command_timeout_sec c) c = c"
    using assms model_canonical by (simp add: new_config_def wf_config_def)
  then show "validate_config (vin c) (model c) (key_name c) (connect_timeout_sec c) (command_timeout_sec c) = Inr ()"
    using applied_validated [of "vin c" "model c" "key_name c" "connect_timeout_sec c" "command_timeout_sec c" c] assms
      model_canonical by (simp add: wf_config_def)
qed

lemma start_cfg [simp]:
  assumes "core_inv k" shows "cfg (snd (start_phone_key e k)) = cfg k"
  using assms by (cases rule: start_cases [where e = e]) simp_all

lemma set_config_same:
  assumes "core_inv k" "ensure_writable (cfg k) = Inr ()" "e_save e = W_none"
  shows "\<exists>k'. set_config e (vin (cfg k)) (model (cfg k)) (key_name (cfg k)) (connect_timeout_sec (cfg k))
     (command_timeout_sec (cfg k)) k = (Inr (), k') \<and> core_inv k' \<and> cfg k' = cfg k
     \<and> d_config (disk k') = Some (e_print e (config_json (cfg k)))"
proof -
  have wf: "wf_config (cfg k)" using assms(1) by (simp add: core_inv_def)
  note same = new_config_same [OF wf]
  let ?set = "set_config e (vin (cfg k)) (model (cfg k)) (key_name (cfg k)) (connect_timeout_sec (cfg k))
     (command_timeout_sec (cfg k)) k"
  have saved: "fst (save_config e (cfg k) k) = Inr ()"
    using assms(2,3) by (simp add: save_config_def save_def write_atomic_def)
  have inv: "core_inv (switched e (cfg k) k)" using core_inv_switched [OF assms(1) wf] .
  have trim: "trim (vin (cfg k)) = vin (cfg k)" using wf by (simp add: wf_config_def)
  have run: "?set = (Inr (), snd (start_phone_key e (switched e (cfg k) k)))"
    by (cases rule: set_config_cases [of "vin (cfg k)" "model (cfg k)" "key_name (cfg k)"
          "connect_timeout_sec (cfg k)" "command_timeout_sec (cfg k)" e k])
      (use same saved trim in simp_all)
  have "disk (snd (start_phone_key e k')) = disk k'" if "core_inv k'" for k'
    using that by (cases rule: start_cases [where e = e]) simp_all
  then show ?thesis using run inv core_inv_start [OF inv, of e] save_config_ok [OF saved] by simp
qed

definition key_ticket :: "ticket \<Rightarrow> bool" where
  "key_ticket t = (t = T_key \<or> t = T_pair)"

definition pairing_waits :: "app \<times> pairing_page \<Rightarrow> bool" where
  "pairing_waits s =
    (filter key_ticket (outstanding (fst s)) =
      (if pp_generating (snd s) then [T_key] else []) @ (if pp_pairing (snd s) then [T_pair] else []))"

lemma pairing_flags:
  "pp_generating (pairing_signal sg p) = (pp_generating p \<and> signal_ticket sg \<noteq> Some T_key)"
  "pp_pairing (pairing_signal sg p) = (pp_pairing p \<and> signal_ticket sg \<noteq> Some T_pair)"
  by (cases sg; simp add: pairing_signal_def Let_def)+

lemma pairing_deliver_waits:
  assumes "pairing_waits (a, p)" shows "pairing_waits (pairing_step (P_app Deliver) (a, p))"
proof (cases "a_signals a")
  case (Cons sg ss)
  have h: "handled pairing_signal Deliver a p = pairing_signal sg p" using Cons by (simp add: handled_def)
  show ?thesis
  proof (cases "signal_ticket sg")
    case None
    then show ?thesis using assms Cons
      by (simp add: pairing_waits_def deliver_step h pairing_flags del: app_step.simps)
  next
    case (Some t)
    show ?thesis
    proof (cases "key_ticket t")
      case True
      then obtain ts where "filter key_ticket (outstanding a) = t # ts" using deliver_head [OF Cons Some] by blast
      then show ?thesis using assms Cons Some True
        by (auto simp: pairing_waits_def deliver_step h pairing_flags key_ticket_def
            simp del: app_step.simps split: if_splits)
    next
      case False
      then have "t \<noteq> T_key" "t \<noteq> T_pair" by (simp_all add: key_ticket_def)
      then show ?thesis using assms Cons Some False
        by (simp add: pairing_waits_def deliver_step h pairing_flags del: app_step.simps)
    qed
  qed
qed (use assms in \<open>simp add: pairing_waits_def outstanding_step handled_def\<close>)

lemma pairing_step_waits:
  assumes "pairing_waits s" "\<forall>v. x = P_app v \<longrightarrow> elsewhere key_ticket v"
  shows "pairing_waits (pairing_step x s)"
proof (cases "(x, s)" rule: pairing_step.cases)
  case (4 v a p)
  show ?thesis
  proof (cases "v = Deliver")
    case False
    have "elsewhere key_ticket v" using 4 assms(2) by simp
    then show ?thesis using 4 assms(1) False by (simp add: pairing_waits_def elsewhere_step)
  next
    case True
    then show ?thesis using 4 assms(1) pairing_deliver_waits by simp
  qed
qed (use assms in \<open>auto simp: pairing_waits_def press_generate_def press_pair_def press_list_def key_ticket_def
    Let_def split: if_splits\<close>)

text \<open>The navigation page: its send, and the preview it waits for.\<close>

definition share_ticket :: "ticket \<Rightarrow> bool" where
  "share_ticket t = (case t of T_share i \<Rightarrow> True | _ \<Rightarrow> False)"

definition navigation_waits :: "app \<times> navigation_page \<Rightarrow> bool" where
  "navigation_waits s =
    (filter share_ticket (outstanding (fst s)) = (if np_sending (snd s) then [T_share (np_send_id (snd s))] else [])
     \<and> (np_preview (snd s) = checking_text \<longrightarrow> T_preview (np_preview_id (snd s)) \<in> set (outstanding (fst s))))"

lemma navigation_fields:
  "np_send_id (navigation_signal sg p) = np_send_id p" "np_preview_id (navigation_signal sg p) = np_preview_id p"
  "np_sending (navigation_signal sg p) = (np_sending p \<and> signal_ticket sg \<noteq> Some (T_share (np_send_id p)))"
  "np_preview (navigation_signal sg p) = checking_text \<Longrightarrow>
     np_preview p = checking_text \<and> signal_ticket sg \<noteq> Some (T_preview (np_preview_id p))"
  by (cases sg; simp add: navigation_signal_def checking_text_def split: if_splits)+

lemma outstanding_set:
  assumes "elsewhere share_ticket v" "v \<noteq> Deliver" "t \<in> set (outstanding a)"
  shows "t \<in> set (outstanding (app_step v a))"
  using assms by (cases v) (simp_all add: outstanding_step del: app_step.simps)

lemma navigation_deliver_waits:
  assumes "navigation_waits (a, p)" shows "navigation_waits (navigation_step (N_app Deliver) (a, p))"
proof (cases "a_signals a")
  case (Cons sg ss)
  have h: "handled navigation_signal Deliver a p = navigation_signal sg p" using Cons by (simp add: handled_def)
  show ?thesis
  proof (cases "signal_ticket sg")
    case None
    then show ?thesis using assms Cons
      by (auto simp: navigation_waits_def deliver_step h navigation_fields outstanding_step
          simp del: app_step.simps dest: navigation_fields(4))
  next
    case (Some t)
    then obtain ts where ts: "outstanding a = t # ts" using outstanding_head [OF Cons] by blast
    have "filter share_ticket ts = (if np_sending (navigation_signal sg p) then [T_share (np_send_id p)] else [])"
      using assms ts Some
      by (cases "share_ticket t") (auto simp: navigation_waits_def navigation_fields share_ticket_def split: if_splits)
    moreover have "np_preview (navigation_signal sg p) = checking_text \<longrightarrow> T_preview (np_preview_id p) \<in> set ts"
      using assms ts Some navigation_fields(4) [of sg p] by (auto simp: navigation_waits_def)
    ultimately show ?thesis using Cons Some ts
      by (simp add: navigation_waits_def outstanding_step h navigation_fields del: app_step.simps)
  qed
qed (use assms in \<open>simp add: navigation_waits_def outstanding_step handled_def\<close>)

lemma not_checking: "''Paste or type a destination first.'' \<noteq> checking_text"
  by (simp add: checking_text_def)

lemma nav_preview_waits:
  assumes "navigation_waits (a, p)" "nav_preview now p = (q, p1)" shows "navigation_waits (ask q a, p1)"
  using assms not_checking
  by (auto simp: navigation_waits_def nav_preview_def Let_def share_ticket_def split: if_splits)

lemma navigation_step_waits:
  assumes "navigation_waits s" "\<forall>v. x = N_app v \<longrightarrow> elsewhere share_ticket v"
  shows "navigation_waits (navigation_step x s)"
proof (cases "(x, s)" rule: navigation_step.cases)
  case (1 t a p)
  then show ?thesis using assms(1) by (simp add: navigation_waits_def)
next
  case (2 now a p)
  then show ?thesis using assms(1) nav_preview_waits [of a p now]
    by (auto simp: press_preview_def ask_def split: prod.splits)
next
  case (3 now a p)
  then show ?thesis using assms(1)
    by (auto simp: navigation_waits_def press_send_def nav_send_def Let_def share_ticket_def split: if_splits)
next
  case (4 v a p)
  show ?thesis
  proof (cases "v = Deliver")
    case False
    have "elsewhere share_ticket v" using 4 assms(2) by simp
    then show ?thesis using 4 assms(1) False outstanding_set [of v]
      by (simp add: navigation_waits_def elsewhere_step)
  qed (use 4 assms(1) navigation_deliver_waits in simp)
qed

lemma navigation_steps_wait:
  "navigation_waits s \<Longrightarrow> list_all (\<lambda>x. case x of N_app v \<Rightarrow> elsewhere share_ticket v | _ \<Rightarrow> True) xs \<Longrightarrow>
   navigation_waits (fold navigation_step xs s)"
proof (induction xs arbitrary: s)
  case (Cons y ys)
  have "navigation_waits (navigation_step y s)"
    by (rule navigation_step_waits) (use Cons.prems in auto)
  then show ?case using Cons.IH [of "navigation_step y s"] Cons.prems(2) by simp
qed simp

section \<open>Properties\<close>

text \<open>
  C28: Saving the settings page as it was loaded changes nothing.  Whatever the page held before, once it
  has taken in the core's configuration its save button asks for exactly that configuration, and the
  core, given a working disk, stores and keeps it: VIN, model, key name, timeouts and enrolment.  The
  timeouts must be within the sliders' bounds, and a slider must keep a value within its bounds.
\<close>

theorem settings_kept:
  assumes "core_inv k" "ensure_writable (cfg k) = Inr ()" "e_save e = W_none"
    and "\<And>lo hi v. lo \<le> v \<Longrightarrow> v \<le> hi \<Longrightarrow> slider lo hi v = v"
    and "5 \<le> connect_timeout_sec (cfg k)" "2 \<le> command_timeout_sec (cfg k)"
  shows "\<exists>sg v m kn ct mt sgs k'. refresh_config_job (Some k) = [sg]
    \<and> press_save (settings_signal slider sg p) = Some (Ask_set_config v m kn ct mt)
    \<and> set_config_job e e2 v m kn ct mt (Some k) = (Config_saved True [] # sgs, Some k')
    \<and> cfg k' = cfg k \<and> d_config (disk k') = Some (e_print e (config_json (cfg k)))"
proof -
  let ?c = "cfg k"
  have wf: "wf_config ?c" using assms(1) by (simp add: core_inv_def)
  note nul = wf_no_nul [OF wf]
  note text_id = nul(1) [THEN into_cstring_id] nul(2) [THEN into_cstring_id] nul(3) [THEN into_cstring_id]
    nul(1) [THEN c_string_id] nul(2) [THEN c_string_id] nul(3) [THEN c_string_id]
  obtain pem has where load: "refresh_config_job (Some k) = [Config_loaded (vin ?c) (model ?c) (key_name ?c)
      (connect_timeout_sec ?c) (command_timeout_sec ?c) has pem]" (is "_ = [?sg]")
    by (simp add: refresh_config_job_def abi_get_status_def get_config_def Let_def text_id)
  have "slider 5 300 (connect_timeout_sec ?c) = connect_timeout_sec ?c"
    "slider 2 300 (command_timeout_sec ?c) = command_timeout_sec ?c"
    using assms(4-6) wf by (simp_all add: wf_config_def MAX_TIMEOUT_SEC_def)
  then have pressed: "press_save (settings_signal slider ?sg p) = Some (Ask_set_config (vin ?c) (model ?c)
      (key_name ?c) (connect_timeout_sec ?c) (command_timeout_sec ?c))"
    using wf model_picked by (simp add: press_save_def settings_signal_def vin_text_def Let_def wf_config_def)
  obtain k1 where k1: "set_config e (vin ?c) (model ?c) (key_name ?c) (connect_timeout_sec ?c)
      (command_timeout_sec ?c) k = (Inr (), k1)" "core_inv k1" "cfg k1 = ?c"
      "d_config (disk k1) = Some (e_print e (config_json ?c))"
    using set_config_same [OF assms(1-3)] by blast
  obtain sgs c2 where r: "refresh_phone_key e2 (Some k1) = (sgs, c2)" by fastforce
  then have c2: "c2 = Some (snd (start_phone_key e2 k1))"
    by (auto simp: refresh_phone_key_def abi_start_phone_key_def case_prod_beta Let_def)
  have disk: "disk (snd (start_phone_key e2 k1)) = disk k1"
    using k1(2) by (cases rule: start_cases [where e = e2]) simp_all
  have "abi_set_config e (Some (vin ?c)) (Some (model ?c)) (Some (key_name ?c)) (connect_timeout_sec ?c)
      (command_timeout_sec ?c) (Some k)
    = (Rc_ok, no_slots\<lparr>sl_ok := Some True, sl_error := Some []\<rparr>, Some k1)"
    using k1(1) by (simp add: abi_set_config_def cstr_def text_id)
  then have "set_config_job e e2 (vin ?c) (model ?c) (key_name ?c) (connect_timeout_sec ?c)
      (command_timeout_sec ?c) (Some k) = (Config_saved True [] # sgs, c2)"
    using r by (simp add: set_config_job_def slot_flag_def take_c_def c_string_def)
  with load pressed c2 disk k1 show ?thesis by auto
qed

theorem settings_kept_witness:
  "\<exists>sg v m kn ct mt sgs k'. refresh_config_job (Some sample_core) = [sg]
     \<and> press_save (settings_signal (\<lambda>lo hi v. max lo (min hi v)) sg (settings_start 5 2))
         = Some (Ask_set_config v m kn ct mt)
     \<and> set_config_job sample_env sample_env v m kn ct mt (Some sample_core)
         = (Config_saved True [] # sgs, Some k') \<and> cfg k' = sample_config"
proof -
  let ?slider = "\<lambda>lo hi v :: int. max lo (min hi v)"
  have c: "cfg sample_core = sample_config" by (simp add: sample_core_def)
  have wf: "ensure_writable (cfg sample_core) = Inr ()" "connect_timeout_sec (cfg sample_core) = 20"
    "command_timeout_sec (cfg sample_core) = 5"
    by (simp_all add: c sample_config_def default_config_def ensure_writable_def CURRENT_def)
  obtain sg v m kn ct mt sgs k' where r: "refresh_config_job (Some sample_core) = [sg]"
    "press_save (settings_signal ?slider sg (settings_start 5 2)) = Some (Ask_set_config v m kn ct mt)"
    "set_config_job sample_env sample_env v m kn ct mt (Some sample_core) = (Config_saved True [] # sgs, Some k')"
    "cfg k' = cfg sample_core"
    using settings_kept [OF core_inv_sample wf(1), of sample_env ?slider "settings_start 5 2" sample_env] wf by auto
  then show ?thesis unfolding c by blast
qed

text \<open>
  The pairing page never interrupts an enrolment.  Whatever is pressed and however the app goes on,
  the page's flags tell exactly which of its requests are under way: at most one key generation, at most
  one pairing, and a generation never behind a pairing.
\<close>

theorem pairing_undisturbed:
  assumes "filter key_ticket (outstanding a) = []" "\<not> pp_generating p" "\<not> pp_pairing p"
    and "list_all (\<lambda>x. case x of P_app v \<Rightarrow> elsewhere key_ticket v | _ \<Rightarrow> True) xs"
    and "fold pairing_step xs (a, p) = (a', p')"
  shows "filter key_ticket (outstanding a') =
    (if pp_generating p' then [T_key] else []) @ (if pp_pairing p' then [T_pair] else [])"
proof -
  have "pairing_waits (fold pairing_step ys s)"
    if "pairing_waits s" "list_all (\<lambda>x. case x of P_app v \<Rightarrow> elsewhere key_ticket v | _ \<Rightarrow> True) ys" for ys s
    using that
  proof (induction ys arbitrary: s)
    case (Cons y ys)
    have "pairing_waits (pairing_step y s)"
      by (rule pairing_step_waits) (use Cons.prems in auto)
    then show ?case using Cons.IH [of "pairing_step y s"] Cons.prems(2) by simp
  qed simp
  moreover have "pairing_waits (a, p)" using assms(1-3) by (simp add: pairing_waits_def)
  ultimately show ?thesis using assms(4,5) by (metis pairing_waits_def fst_conv snd_conv)
qed

theorem pairing_undisturbed_witness:
  "filter key_ticket (outstanding (fst (fold pairing_step [P_generate, P_pair, P_generate, P_app (Timer_fires 0)]
     (app_start ''/d'' False, pairing_start\<lparr>pp_ready := True, pp_pem := ''PEM''\<rparr>)))) = [T_key, T_pair]"
proof -
  let ?xs = "[P_generate, P_pair, P_generate, P_app (Timer_fires 0)]"
  let ?p = "pairing_start\<lparr>pp_ready := True, pp_pem := ''PEM''\<rparr>"
  obtain a' p' where r: "fold pairing_step ?xs (app_start ''/d'' False, ?p) = (a', p')" by fastforce
  have "pp_generating p' \<and> pp_pairing p'"
    using r by (auto simp: pairing_start_def press_generate_def press_pair_def handled_def Let_def)
  moreover have "filter key_ticket (outstanding a')
      = (if pp_generating p' then [T_key] else []) @ (if pp_pairing p' then [T_pair] else [])"
    by (rule pairing_undisturbed [OF _ _ _ _ r])
      (simp_all add: outstanding_def app_start_def pairing_start_def elsewhere_def)
  ultimately show ?thesis using r by simp
qed

text \<open>
  The navigation page never waits for nothing.  Opened with any text or none and used in any way
  beside the rest of the app, it says that it is sending exactly while one share of its own is under
  way, and that it is checking only while the preview it asked for last is; so the replies the worker
  owes end both.
\<close>

theorem navigation_waits_for_replies:
  assumes "filter share_ticket (outstanding a) = []"
    and "list_all (\<lambda>x. case x of N_app v \<Rightarrow> elsewhere share_ticket v | _ \<Rightarrow> True) xs"
    and "navigation_opened now initial = (q, p)" "fold navigation_step xs (ask q a, p) = (a', p')"
  shows "filter share_ticket (outstanding a') = (if np_sending p' then [T_share (np_send_id p')] else [])
    \<and> (np_preview p' = checking_text \<longrightarrow> T_preview (np_preview_id p') \<in> set (outstanding a'))"
proof -
  have "navigation_waits (a, navigation_start\<lparr>np_text := t\<rparr>)" for t
    using assms(1) by (simp add: navigation_waits_def navigation_start_def checking_text_def)
  then have "navigation_waits (ask q a, p)"
    using assms(3) nav_preview_waits [of a "navigation_start\<lparr>np_text := initial\<rparr>" now q p] assms(1)
    by (auto simp: navigation_opened_def ask_def navigation_waits_def navigation_start_def checking_text_def
        split: if_splits)
  from navigation_steps_wait [OF this assms(2)] show ?thesis using assms(4) by (simp add: navigation_waits_def)
qed

theorem navigation_waits_for_replies_witness:
  "filter share_ticket (outstanding (fst (fold navigation_step [N_type ''x'', N_send ''1'', N_send ''2'']
     (ask None (app_start ''/d'' False), navigation_start)))) = [T_share ''nav:send#1@1'']"
proof -
  let ?xs = "[N_type ''x'', N_send ''1'', N_send ''2'']"
  have x: "\<not> js_blank ''x''" by code_simp
  have one: "nat_digits (Suc 0) = ''1''" by code_simp
  obtain a' p' where r: "fold navigation_step ?xs (ask None (app_start ''/d'' False), navigation_start) = (a', p')"
    by fastforce
  have "np_sending p' \<and> np_send_id p' = ''nav:send#1@1''"
    using r by (auto simp: navigation_start_def press_send_def nav_send_def x one Let_def)
  moreover have "filter share_ticket (outstanding a') = (if np_sending p' then [T_share (np_send_id p')] else [])
    \<and> (np_preview p' = checking_text \<longrightarrow> T_preview (np_preview_id p') \<in> set (outstanding a'))"
    by (rule navigation_waits_for_replies [OF _ _ _ r, of "''0''" "[]"])
      (simp_all add: outstanding_def app_start_def navigation_opened_def)
  ultimately show ?thesis using r by simp
qed

end
