(* ===== verification/Automagic_Setup.thy ===== *)
theory Automagic_Setup
  imports App_Config
begin

text \<open>
  The installer of the Automagic triggers and flows, \<^verbatim>\<open>app/src/automagicsetup.cpp\<close>: the entries it
  writes, the merge into the three files, the daemon's reload over its socket, and the whole
  \<^verbatim>\<open>install\<close>.  \<^verbatim>\<open>parse\<close> and \<^verbatim>\<open>print\<close> are Qt's JSON reader and writer; the reader gives whole
  numbers as integers and objects without repeated keys.
\<close>

section \<open>Objects\<close>

text \<open>A \<^verbatim>\<open>QVariantMap\<close> keeps its keys sorted, as the \<^verbatim>\<open>QJsonObject\<close> made from it does.\<close>

fun json_put :: "string \<Rightarrow> json \<Rightarrow> (string \<times> json) list \<Rightarrow> (string \<times> json) list" where
  "json_put k v [] = [(k, v)]"
| "json_put k v ((x, y) # ms) =
    (if k = x then (k, v) # ms
     else if bytes_less k x then (k, v) # (x, y) # ms
     else (x, y) # json_put k v ms)"

definition json_map :: "(string \<times> json) list \<Rightarrow> (string \<times> json) list" where
  "json_map kvs = fold (\<lambda>(k, v). json_put k v) kvs []"

text \<open>\<^verbatim>\<open>value(k)\<close>, \<^verbatim>\<open>toObject\<close>, \<^verbatim>\<open>toString\<close>, \<^verbatim>\<open>toArray\<close>, \<^verbatim>\<open>toBool\<close> and \<^verbatim>\<open>toInt(1)\<close>: the default on another type.\<close>

definition json_value :: "string \<Rightarrow> (string \<times> json) list \<Rightarrow> json option" where
  "json_value k ms = map_of ms k"

definition to_object :: "json option \<Rightarrow> (string \<times> json) list" where
  "to_object v = (case v of Some (JN_obj ms) \<Rightarrow> ms | _ \<Rightarrow> [])"

definition to_str :: "json option \<Rightarrow> string" where
  "to_str v = (case v of Some (JN_str s) \<Rightarrow> s | _ \<Rightarrow> [])"

definition to_array :: "json option \<Rightarrow> json list" where
  "to_array v = (case v of Some (JN_arr xs) \<Rightarrow> xs | _ \<Rightarrow> [])"

definition to_bool :: "json option \<Rightarrow> bool" where
  "to_bool v = (case v of Some (JN_bool b) \<Rightarrow> b | _ \<Rightarrow> False)"

definition to_int_or_one :: "json option \<Rightarrow> int" where
  "to_int_or_one v =
    (case v of Some (JN_int i) \<Rightarrow> if - (2 ^ 31) \<le> i \<and> i < 2 ^ 31 then i else 1 | _ \<Rightarrow> 1)"

section \<open>The entries\<close>

definition copyTransform :: "string \<Rightarrow> string \<Rightarrow> json" where
  "copyTransform i out =
    JN_obj (json_map [(''type'', JN_str ''copy''), (''in'', JN_str i), (''out'', JN_str out)])"

definition dbusSource :: "string \<Rightarrow> string \<Rightarrow> string \<Rightarrow> (string \<times> json) list" where
  "dbusSource ident name kind =
    json_map ([(''id'', JN_str ident), (''name'', JN_str name), (''type'', JN_str ''dbus''),
       (''enabled'', JN_bool True), (''trigger'', JN_bool True), (''address'', JN_str ''session''),
       (''destination'', JN_str ''org.electriceel.harbour-electric-eel''),
       (''path'', JN_str ''/org/electriceel/PhoneKey''),
       (''interface'', JN_str ''org.electriceel.PhoneKey1''), (''signal'', JN_str ''PhoneKeyEvent'')]
     @ (if kind \<noteq> [] then [(''filters'', JN_obj [(''arg0'', JN_str kind)])] else [])
     @ [(''transformations'', JN_arr
          [copyTransform ''arg0'' ''kind'', copyTransform ''arg1'' ''vin'',
           copyTransform ''arg2'' ''event_time'', copyTransform ''arg3'' ''error''])])"

definition dbusTetherAction :: "string \<Rightarrow> string \<Rightarrow> bool \<Rightarrow> (string \<times> json) list" where
  "dbusTetherAction ident name on =
    json_map [(''id'', JN_str ident), (''name'', JN_str name), (''type'', JN_str ''dbus_method''),
      (''enabled'', JN_bool True), (''address'', JN_str ''system''),
      (''destination'', JN_str ''net.connman''), (''path'', JN_str ''/net/connman/technology/wifi''),
      (''interface'', JN_str ''net.connman.Technology''), (''method'', JN_str ''SetProperty''),
      (''timeout'', JN_str ''5s''),
      (''args'', JN_arr
         [JN_obj (json_map [(''type'', JN_str ''s''), (''value'', JN_str ''Tethering'')]),
          JN_obj (json_map [(''type'', JN_str ''v:b''), (''value'', JN_bool on)])])]"

definition kAwayState :: string where
  "kAwayState = ''eel_hotspot_away''"

definition actionStep :: "string \<Rightarrow> string \<Rightarrow> json list \<Rightarrow> (string \<times> json) list" where
  "actionStep ident action conditions =
    json_map ([(''id'', JN_str ident), (''type'', JN_str ''action''), (''action'', JN_str action),
       (''goto_alt'', JN_str ''end'')]
     @ (if conditions \<noteq> [] then [(''if'', JN_arr conditions)] else []))"

definition stateStep :: "string \<Rightarrow> json \<Rightarrow> bool \<Rightarrow> (string \<times> json) list" where
  "stateStep ident v fromTemplate =
    json_map [(''id'', JN_str ident), (''type'', JN_str ''action''), (''function'', JN_str ''set_state''),
      (''params'', JN_obj (json_map
         [(''name'', JN_str kAwayState), (if fromTemplate then ''template'' else ''static'', v)])),
      (''goto_alt'', JN_str ''end'')]"

definition readAwayState :: "string \<Rightarrow> string \<Rightarrow> (string \<times> json) list" where
  "readAwayState ident variable =
    json_map [(''id'', JN_str ident), (''type'', JN_str ''get''), (''function'', JN_str ''state''),
      (''params'', JN_obj [(''name'', JN_str kAwayState)]),
      (''mapping'', JN_obj [(''state'', JN_str variable)]), (''goto_alt'', JN_str ''end'')]"

definition skipIfAwayPending :: "string \<Rightarrow> (string \<times> json) list" where
  "skipIfAwayPending ident =
    json_map [(''id'', JN_str ident), (''type'', JN_str ''branch''), (''goto'', JN_str ''end''),
      (''if'', JN_arr
         [JN_obj (json_map [(''op'', JN_str ''exists''), (''left_var'', JN_str ''pending'')]),
          JN_obj (json_map [(''logic'', JN_str ''and''), (''op'', JN_str ''!=''),
            (''left_var'', JN_str ''pending''), (''right_const'', JN_str [])])])]"

definition waitStep :: "string \<Rightarrow> string \<Rightarrow> (string \<times> json) list" where
  "waitStep ident duration =
    json_map [(''id'', JN_str ident), (''type'', JN_str ''wait''),
      (''params'', JN_obj [(''duration'', JN_str duration)]), (''goto_alt'', JN_str ''end'')]"

definition stillThisAwayRun :: "json list" where
  "stillThisAwayRun =
    [JN_obj (json_map [(''op'', JN_str ''==''), (''left_var'', JN_str ''away_now''),
       (''right_var'', JN_str ''_run_id'')])]"

definition flow :: "string \<Rightarrow> string \<Rightarrow> string \<Rightarrow> (string \<times> json) list list \<Rightarrow> (string \<times> json) list" where
  "flow ident name trigger steps =
    json_map [(''id'', JN_str ident), (''name'', JN_str name), (''enabled'', JN_bool True),
      (''triggers'', JN_arr [JN_str trigger]), (''steps'', JN_arr (map JN_obj steps))]"

definition goto_alt :: "string \<Rightarrow> (string \<times> json) list \<Rightarrow> (string \<times> json) list" where
  "goto_alt target step = json_put ''goto_alt'' (JN_str target) step"

definition eel_sources :: "(string \<times> json) list list" where
  "eel_sources =
    [dbusSource ''eel_inside'' ''ElectricEel inside car'' ''presence_inside'',
     dbusSource ''eel_far'' ''ElectricEel walked away'' ''presence_far'',
     dbusSource ''eel_near'' ''ElectricEel connected'' ''presence_near'',
     dbusSource ''eel_auth_ok'' ''ElectricEel authorized'' ''presence_auth_ok'',
     dbusSource ''eel_presence'' ''ElectricEel presence'' []]"

definition eel_actions :: "(string \<times> json) list list" where
  "eel_actions =
    [dbusTetherAction ''eel_hotspot_on'' ''ElectricEel hotspot on'' True,
     dbusTetherAction ''eel_hotspot_off'' ''ElectricEel hotspot off'' False]"

definition eel_flows :: "(string \<times> json) list list" where
  "eel_flows =
    [flow ''eel_flow_hotspot_on'' ''ElectricEel hotspot on'' ''eel_inside''
       [goto_alt ''eel_step_hotspot_on'' (stateStep ''eel_step_cancel_away'' (JN_str []) False),
        actionStep ''eel_step_hotspot_on'' ''eel_hotspot_on'' []],
     flow ''eel_flow_hotspot_off'' ''ElectricEel hotspot off'' ''eel_far''
       [readAwayState ''eel_step_read_pending'' ''pending'',
        skipIfAwayPending ''eel_step_away_already'',
        stateStep ''eel_step_arm_away'' (JN_str ''{{_run_id}}'') True,
        goto_alt ''eel_step_clear_away'' (waitStep ''eel_step_wait_away'' ''3m''),
        goto_alt ''eel_step_clear_away'' (readAwayState ''eel_step_read_away'' ''away_now''),
        goto_alt ''eel_step_clear_away''
          (actionStep ''eel_step_hotspot_off'' ''eel_hotspot_off'' stillThisAwayRun),
        json_put ''if'' (JN_arr stillThisAwayRun)
          (stateStep ''eel_step_clear_away'' (JN_str []) False)]]"

section \<open>Merging into a file\<close>

definition entry_id :: "json \<Rightarrow> string" where
  "entry_id v = to_str (json_value ''id'' (to_object (Some v)))"

text \<open>The first entry with the id is replaced, a new one goes to the end.\<close>

fun upsert :: "json \<Rightarrow> json list \<Rightarrow> json list" where
  "upsert new [] = [new]"
| "upsert new (x # xs) = (if entry_id x = entry_id new then new # xs else x # upsert new xs)"

definition upsertAll :: "json list \<Rightarrow> (string \<times> json) list list \<Rightarrow> json list" where
  "upsertAll xs items = fold (\<lambda>item. upsert (JN_obj item)) items xs"

definition merged :: "int \<Rightarrow> json list \<Rightarrow> (string \<times> json) list list \<Rightarrow> json" where
  "merged ver xs items =
    JN_obj (json_map [(''version'', JN_int ver), (''data'', JN_arr (upsertAll xs items))])"

text \<open>A file is missing, cannot be opened, or has a text; saving can fail to open or to commit.\<close>

datatype disk_file = File_missing | File_locked | File_text string

datatype save_fault = Save_fine | Save_no_open | Save_no_commit

definition upsertFile ::
    "(string \<Rightarrow> json option) \<Rightarrow> (json \<Rightarrow> string) \<Rightarrow> save_fault \<Rightarrow> string \<Rightarrow> (string \<times> json) list list \<Rightarrow>
     disk_file \<Rightarrow> disk_file \<times> string option" where
  "upsertFile parse print fault fileName items fl =
    (let write = (\<lambda>ver xs.
           case fault of
             Save_no_open \<Rightarrow> (fl, Some (''cannot write '' @ fileName))
           | Save_no_commit \<Rightarrow> (fl, Some (''cannot save '' @ fileName))
           | Save_fine \<Rightarrow> (File_text (print (merged ver xs items)), None))
     in case fl of
          File_locked \<Rightarrow> (fl, Some (''cannot read '' @ fileName))
        | File_missing \<Rightarrow> write 1 []
        | File_text t \<Rightarrow>
            (case parse t of
               Some (JN_obj doc) \<Rightarrow>
                 write (to_int_or_one (json_value ''version'' doc)) (to_array (json_value ''data'' doc))
             | _ \<Rightarrow> (fl, Some (fileName @ '' is not Automagic JSON''))))"

section \<open>The daemon's reload\<close>

text \<open>
  What the socket does: whether it connects and takes each line, and the pieces that arrive after
  each, one for each wait that ends with new data in time.
\<close>

record reload_env =
  re_connects :: bool
  re_auth_sent :: bool
  re_auth_reply :: "string list"
  re_reload_sent :: bool
  re_reload_reply :: "string list"

text \<open>
  The loop of \<^verbatim>\<open>readLine\<close>: \<^verbatim>\<open>waitForReadyRead\<close> returns when new data has arrived, and only then is
  what the socket has buffered read.  The line so far, what is buffered, and what is still to come.
\<close>

fun read_more :: "string \<Rightarrow> string \<Rightarrow> string list \<Rightarrow> string \<times> string \<times> string list" where
  "read_more line buf cs =
    (if CHR 0x0A \<in> set line then (line, buf, cs)
     else case cs of
       [] \<Rightarrow> (line, buf, [])
     | c # rest \<Rightarrow> read_more (line @ buf @ c) [] rest)"

declare read_more.simps [simp del]

fun readLine :: "(string \<Rightarrow> json option) \<Rightarrow> string \<Rightarrow> string list \<Rightarrow> (string \<times> json) list \<times> string" where
  "readLine parse buf [] = ([], buf)"
| "readLine parse buf (c # cs) =
    (case read_more [] (buf @ c) cs of
       (line, rest, late) \<Rightarrow>
         (to_object (parse (takeWhile (\<lambda>x. x \<noteq> CHR 0x0A) line)), rest @ concat late))"

definition reloadDaemon :: "(string \<Rightarrow> json option) \<Rightarrow> reload_env \<Rightarrow> string option" where
  "reloadDaemon parse r =
    (if \<not> re_connects r then Some ''automagicd not reachable''
     else if \<not> re_auth_sent r then Some ''automagicd write failed''
     else case readLine parse [] (re_auth_reply r) of
       (auth, buf) \<Rightarrow>
         if \<not> to_bool (json_value ''ok'' auth) then Some ''automagicd auth failed''
         else if \<not> re_reload_sent r then Some ''automagicd reload write failed''
         else case readLine parse buf (re_reload_reply r) of
           (reply, _) \<Rightarrow>
             if \<not> to_bool (json_value ''ok'' reply) then Some ''automagicd reload failed'' else None)"

section \<open>The whole install\<close>

text \<open>The directory's files, and whether one of the two places for it exists.\<close>

record automagic =
  am_sources :: disk_file
  am_actions :: disk_file
  am_flows :: disk_file
  am_secret :: disk_file

record install_env =
  ie_home_dir :: bool
  ie_fallback_dir :: bool
  ie_save_sources :: save_fault
  ie_save_actions :: save_fault
  ie_save_flows :: save_fault
  ie_reload :: reload_env

definition shared_secret :: "(string \<Rightarrow> json option) \<Rightarrow> disk_file \<Rightarrow> string" where
  "shared_secret parse fl =
    (case fl of
       File_text t \<Rightarrow>
         to_str (json_value ''shared_secret'' (to_object (json_value ''data'' (to_object (parse t)))))
     | _ \<Rightarrow> [])"

definition install_automagic ::
    "(string \<Rightarrow> json option) \<Rightarrow> (json \<Rightarrow> string) \<Rightarrow> install_env \<Rightarrow> automagic \<Rightarrow>
     automagic \<times> bool \<times> string" where
  "install_automagic parse print e a =
    (if \<not> ie_home_dir e \<and> \<not> ie_fallback_dir e then
       (a, False, ''Automagic config not found. Open Automagic once, then try again.'')
     else case upsertFile parse print (ie_save_sources e) ''data_sources.json'' eel_sources (am_sources a) of
       (_, Some err) \<Rightarrow> (a, False, err)
     | (f1, None) \<Rightarrow>
         (case upsertFile parse print (ie_save_actions e) ''actions.json'' eel_actions (am_actions a) of
            (_, Some err) \<Rightarrow> (a\<lparr>am_sources := f1\<rparr>, False, err)
          | (f2, None) \<Rightarrow>
              (case upsertFile parse print (ie_save_flows e) ''flows.json'' eel_flows (am_flows a) of
                 (_, Some err) \<Rightarrow> (a\<lparr>am_sources := f1, am_actions := f2\<rparr>, False, err)
               | (f3, None) \<Rightarrow>
                   (let a1 = a\<lparr>am_sources := f1, am_actions := f2, am_flows := f3\<rparr>
                    in if shared_secret parse (am_secret a) = [] then
                         (a1, True, ''Wrote Automagic sources, actions, and flows. Open Automagic so the daemon reloads.'')
                       else case reloadDaemon parse (ie_reload e) of
                         Some err \<Rightarrow>
                           (a1, True, ''Wrote Automagic flows, but '' @ err @ ''. Open Automagic to reload.'')
                       | None \<Rightarrow> (a1, True, ''Added ElectricEel triggers and hotspot flows to Automagic.'')))))"

section \<open>Lemmas: merging\<close>

lemma find_upsert:
  "find (\<lambda>x. entry_id x = i) (upsert y xs) =
    (if i = entry_id y then Some y else find (\<lambda>x. entry_id x = i) xs)"
  by (induction xs) auto

lemma upsert_present: "find (\<lambda>x. entry_id x = entry_id y) xs = Some y \<Longrightarrow> upsert y xs = xs"
  by (induction xs) (auto split: if_splits)

lemma filter_upsert: "\<not> P y \<Longrightarrow> (\<And>x. entry_id x = entry_id y \<Longrightarrow> \<not> P x) \<Longrightarrow>
    filter P (upsert y xs) = filter P xs"
  by (induction xs) auto

text \<open>An entry that is none of ours.\<close>

definition foreign :: "(string \<times> json) list list \<Rightarrow> json \<Rightarrow> bool" where
  "foreign items x \<longleftrightarrow> entry_id x \<notin> set (map (entry_id \<circ> JN_obj) items)"

lemma upsertAll_foreign: "filter (foreign items) (upsertAll xs items) = filter (foreign items) xs"
proof -
  have "filter (foreign items) (fold (\<lambda>item. upsert (JN_obj item)) is xs) = filter (foreign items) xs"
    if "set is \<subseteq> set items" for "is"
    using that
  proof (induction "is" arbitrary: xs)
    case (Cons i js)
    have "filter (foreign items) (upsert (JN_obj i) xs) = filter (foreign items) xs"
      by (rule filter_upsert) (use Cons.prems in \<open>auto simp: foreign_def\<close>)
    then show ?case using Cons by simp
  qed simp
  then show ?thesis by (simp add: upsertAll_def)
qed

lemma upsertAll_find:
  assumes "distinct (map (entry_id \<circ> JN_obj) items)" "item \<in> set items"
  shows "find (\<lambda>x. entry_id x = entry_id (JN_obj item)) (upsertAll xs items) = Some (JN_obj item)"
  using assms unfolding upsertAll_def
proof (induction items rule: rev_induct)
  case (snoc i items)
  then show ?case by (auto simp: find_upsert image_iff)
qed simp

lemma upsertAll_again:
  assumes "distinct (map (entry_id \<circ> JN_obj) items)"
  shows "upsertAll (upsertAll xs items) items = upsertAll xs items"
proof -
  have "fold (\<lambda>item. upsert (JN_obj item)) is (upsertAll xs items) = upsertAll xs items"
    if "set is \<subseteq> set items" for "is"
    using that upsertAll_find [OF assms] by (induction "is") (auto simp: upsert_present)
  then show ?thesis by (simp add: upsertAll_def)
qed

lemma entry_ids [table_simps]:
  "map (entry_id \<circ> JN_obj) eel_sources =
    [''eel_inside'', ''eel_far'', ''eel_near'', ''eel_auth_ok'', ''eel_presence'']"
  "map (entry_id \<circ> JN_obj) eel_actions = [''eel_hotspot_on'', ''eel_hotspot_off'']"
  "map (entry_id \<circ> JN_obj) eel_flows = [''eel_flow_hotspot_on'', ''eel_flow_hotspot_off'']"
  by code_simp+

section \<open>Lemmas: a file\<close>

fun readable :: "(string \<Rightarrow> json option) \<Rightarrow> disk_file \<Rightarrow> bool" where
  "readable parse File_missing = True"
| "readable parse File_locked = False"
| "readable parse (File_text t) = (case parse t of Some (JN_obj doc) \<Rightarrow> True | _ \<Rightarrow> False)"

definition root_of :: "(string \<Rightarrow> json option) \<Rightarrow> disk_file \<Rightarrow> (string \<times> json) list" where
  "root_of parse fl = (case fl of File_text t \<Rightarrow> to_object (parse t) | _ \<Rightarrow> [])"

definition entries :: "(string \<Rightarrow> json option) \<Rightarrow> disk_file \<Rightarrow> json list" where
  "entries parse fl = to_array (json_value ''data'' (root_of parse fl))"

definition new_doc :: "(string \<Rightarrow> json option) \<Rightarrow> (string \<times> json) list list \<Rightarrow> disk_file \<Rightarrow> json" where
  "new_doc parse items fl =
    merged (to_int_or_one (json_value ''version'' (root_of parse fl))) (entries parse fl) items"

lemma merged_root: "merged v xs items =
    JN_obj [(''data'', JN_arr (upsertAll xs items)), (''version'', JN_int v)]"
  by (simp add: merged_def json_map_def)

lemma upsertFile_fine:
  "readable parse fl \<Longrightarrow>
   upsertFile parse print Save_fine n items fl = (File_text (print (new_doc parse items fl)), None)"
  by (auto simp: upsertFile_def new_doc_def root_of_def entries_def to_object_def json_value_def
      to_array_def to_int_or_one_def split: disk_file.splits option.splits json.splits)

lemma to_int_again: "to_int_or_one (Some (JN_int (to_int_or_one v))) = to_int_or_one v"
  by (simp add: to_int_or_one_def split: option.splits json.splits)

lemma new_doc_again:
  assumes rt: "parse (print (new_doc parse items fl)) = Some (new_doc parse items fl)"
    and "distinct (map (entry_id \<circ> JN_obj) items)"
  defines "file2 \<equiv> File_text (print (new_doc parse items fl))"
  shows "readable parse file2" "entries parse file2 = upsertAll (entries parse fl) items"
    "new_doc parse items file2 = new_doc parse items fl"
proof -
  have root: "root_of parse file2 =
      [(''data'', JN_arr (upsertAll (entries parse fl) items)),
       (''version'', JN_int (to_int_or_one (json_value ''version'' (root_of parse fl))))]"
    using rt by (simp add: file2_def root_of_def to_object_def new_doc_def merged_root)
  show "readable parse file2" using rt by (simp add: file2_def new_doc_def merged_root)
  show e: "entries parse file2 = upsertAll (entries parse fl) items"
    by (simp add: entries_def [of parse file2] root json_value_def to_array_def)
  have "to_int_or_one (json_value ''version'' (root_of parse file2)) =
      to_int_or_one (json_value ''version'' (root_of parse fl))"
    unfolding root json_value_def by (simp add: to_int_again)
  then show "new_doc parse items file2 = new_doc parse items fl"
    using upsertAll_again [OF assms(2)] by (simp add: new_doc_def e merged_root)
qed

section \<open>Properties\<close>

text \<open>What one merge makes of a file.\<close>

definition merges ::
    "(string \<Rightarrow> json option) \<Rightarrow> (string \<times> json) list list \<Rightarrow> disk_file \<Rightarrow> disk_file \<Rightarrow> bool" where
  "merges parse items old new \<longleftrightarrow>
    (\<forall>item \<in> set items. JN_obj item \<in> set (entries parse new))
    \<and> filter (foreign items) (entries parse new) = filter (foreign items) (entries parse old)"

lemma merges_file:
  assumes "parse (print (new_doc parse items fl)) = Some (new_doc parse items fl)"
    and "distinct (map (entry_id \<circ> JN_obj) items)"
  shows "merges parse items fl (File_text (print (new_doc parse items fl)))"
  using new_doc_again(2) [where parse = parse and print = print and items = items and fl = fl, OF assms]
    upsertAll_find [OF assms(2)] upsertAll_foreign
  by (auto simp: merges_def dest: find_mem)

definition installed ::
    "(string \<Rightarrow> json option) \<Rightarrow> (json \<Rightarrow> string) \<Rightarrow> automagic \<Rightarrow> automagic" where
  "installed parse print a =
    a\<lparr>am_sources := File_text (print (new_doc parse eel_sources (am_sources a))),
      am_actions := File_text (print (new_doc parse eel_actions (am_actions a))),
      am_flows := File_text (print (new_doc parse eel_flows (am_flows a)))\<rparr>"

lemma install_fine:
  assumes "ie_home_dir e \<or> ie_fallback_dir e"
    and "ie_save_sources e = Save_fine" "ie_save_actions e = Save_fine" "ie_save_flows e = Save_fine"
    and "readable parse (am_sources a)" "readable parse (am_actions a)" "readable parse (am_flows a)"
  shows "fst (install_automagic parse print e a) = installed parse print a"
    "fst (snd (install_automagic parse print e a))"
  using assms
  by (auto simp: install_automagic_def upsertFile_fine installed_def Let_def
      simp del: readable.simps split: option.splits)

text \<open>C29: Installing the flows is safe to repeat and spares the user's own.  When the three files can be
  read (or are missing) and saved, the install succeeds whatever the daemon does; each file then holds
  every entry of the program, and its other entries are those it held, in their order; and a second
  install leaves every file exactly as the first one did.  (Qt's reader gives back what its writer
  wrote for the three documents.)\<close>

theorem install_merges:
  assumes dir: "ie_home_dir e \<or> ie_fallback_dir e"
    and save: "ie_save_sources e = Save_fine" "ie_save_actions e = Save_fine" "ie_save_flows e = Save_fine"
    and read: "readable parse (am_sources a)" "readable parse (am_actions a)" "readable parse (am_flows a)"
    and rt: "parse (print (new_doc parse eel_sources (am_sources a))) = Some (new_doc parse eel_sources (am_sources a))"
      "parse (print (new_doc parse eel_actions (am_actions a))) = Some (new_doc parse eel_actions (am_actions a))"
      "parse (print (new_doc parse eel_flows (am_flows a))) = Some (new_doc parse eel_flows (am_flows a))"
    and first: "install_automagic parse print e a = (a1, ok, msg)"
  shows "ok \<and> merges parse eel_sources (am_sources a) (am_sources a1)
    \<and> merges parse eel_actions (am_actions a) (am_actions a1)
    \<and> merges parse eel_flows (am_flows a) (am_flows a1)
    \<and> am_secret a1 = am_secret a
    \<and> fst (install_automagic parse print e a1) = a1"
proof -
  have d: "distinct (map (entry_id \<circ> JN_obj) eel_sources)" "distinct (map (entry_id \<circ> JN_obj) eel_actions)"
    "distinct (map (entry_id \<circ> JN_obj) eel_flows)"
    by (simp_all add: table_simps)
  have a1: "a1 = installed parse print a" "ok"
    using install_fine [of e parse a print, OF dir save read] first by simp_all
  note doc_again = new_doc_again [where parse = parse and print = print]
  note again = doc_again [where items = eel_sources and fl = "am_sources a", OF rt(1) d(1)]
    doc_again [where items = eel_actions and fl = "am_actions a", OF rt(2) d(2)]
    doc_again [where items = eel_flows and fl = "am_flows a", OF rt(3) d(3)]
  have "fst (install_automagic parse print e (installed parse print a))
      = installed parse print (installed parse print a)"
    by (rule install_fine(1) [OF dir save])
      (simp_all add: installed_def again del: readable.simps)
  also have "\<dots> = installed parse print a"
    by (simp add: installed_def again)
  finally show ?thesis
    using a1 merges_file [where parse = parse and print = print, of eel_sources, OF rt(1) d(1)]
      merges_file [where parse = parse and print = print, of eel_actions, OF rt(2) d(2)]
      merges_file [where parse = parse and print = print, of eel_flows, OF rt(3) d(3)]
    by (simp add: installed_def)
qed

text \<open>A writer that names a document by its first entry, and a reader for the three names.\<close>

definition tag_print :: "json \<Rightarrow> string" where
  "tag_print d = entry_id (hd (to_array (json_value ''data'' (to_object (Some d)))))"

definition tag_parse :: "string \<Rightarrow> json option" where
  "tag_parse t =
    (if t = ''eel_inside'' then Some (merged 1 [] eel_sources)
     else if t = ''eel_hotspot_on'' then Some (merged 1 [] eel_actions)
     else if t = ''eel_flow_hotspot_on'' then Some (merged 1 [] eel_flows) else None)"

definition no_files :: automagic where
  "no_files = \<lparr>am_sources = File_missing, am_actions = File_missing, am_flows = File_missing,
               am_secret = File_missing\<rparr>"

definition quiet_daemon :: reload_env where
  "quiet_daemon =
    \<lparr>re_connects = True, re_auth_sent = True, re_auth_reply = [], re_reload_sent = True,
     re_reload_reply = []\<rparr>"

definition fine_env :: install_env where
  "fine_env = \<lparr>ie_home_dir = True, ie_fallback_dir = False, ie_save_sources = Save_fine,
               ie_save_actions = Save_fine, ie_save_flows = Save_fine, ie_reload = quiet_daemon\<rparr>"

theorem install_merges_witness:
  "let a1 = fst (install_automagic tag_parse tag_print fine_env no_files)
   in merges tag_parse eel_flows File_missing (am_flows a1)
      \<and> fst (install_automagic tag_parse tag_print fine_env a1) = a1"
proof -
  have tags: "tag_print (merged 1 [] eel_sources) = ''eel_inside''"
    "tag_print (merged 1 [] eel_actions) = ''eel_hotspot_on''"
    "tag_print (merged 1 [] eel_flows) = ''eel_flow_hotspot_on''" by code_simp+
  have docs: "new_doc tag_parse items File_missing = merged 1 [] items" for items
    by (simp add: new_doc_def root_of_def entries_def json_value_def to_array_def to_int_or_one_def)
  obtain a1 ok msg where i: "install_automagic tag_parse tag_print fine_env no_files = (a1, ok, msg)"
    by (cases "install_automagic tag_parse tag_print fine_env no_files")
  have "ok \<and> merges tag_parse eel_sources (am_sources no_files) (am_sources a1)
    \<and> merges tag_parse eel_actions (am_actions no_files) (am_actions a1)
    \<and> merges tag_parse eel_flows (am_flows no_files) (am_flows a1)
    \<and> am_secret a1 = am_secret no_files
    \<and> fst (install_automagic tag_parse tag_print fine_env a1) = a1"
    by (rule install_merges [OF _ _ _ _ _ _ _ _ _ _ i])
      (simp_all add: fine_env_def no_files_def docs tags tag_parse_def)
  then show ?thesis unfolding Let_def i fst_conv by (simp add: no_files_def)
qed

text \<open>A line the daemon accepts with.\<close>

definition accepts :: "(string \<Rightarrow> json option) \<Rightarrow> string \<Rightarrow> bool" where
  "accepts parse l \<longleftrightarrow> CHR 0x0A \<in> set l
    \<and> to_bool (json_value ''ok'' (to_object (parse (takeWhile (\<lambda>x. x \<noteq> CHR 0x0A) l))))"

text \<open>C32: Whether the reload is seen to succeed depends on how the daemon's replies arrive.  The daemon
  accepts both the secret and the reload.  If its first reply arrives in one piece, the client waits
  for more data before it reads any, gives up, and reports that the authentication failed; if each
  reply arrives in two pieces, wherever they are cut, it reports success.\<close>

theorem reload_depends_on_pieces:
  assumes "parse [] = None" and "re_connects r" "re_auth_sent r" "re_reload_sent r"
    and "accepts parse l1" "accepts parse l2"
  shows "reloadDaemon parse (r\<lparr>re_auth_reply := [l1]\<rparr>) = Some ''automagicd auth failed''
    \<and> reloadDaemon parse (r\<lparr>re_auth_reply := [take i l1, drop i l1],
                           re_reload_reply := [take j l2, drop j l2]\<rparr>) = None"
proof -
  have one: "read_more [] l [] = ([], l, [])" for l by (simp add: read_more.simps)
  have two: "read_more [] (take k l) [drop k l] = (l, [], [])" for k l
    by (simp add: read_more.simps [of "[]"] read_more.simps [of _ _ "[]"])
  show ?thesis using assms
    by (simp add: reloadDaemon_def one two accepts_def to_object_def json_value_def to_bool_def)
qed

theorem reload_depends_on_pieces_witness:
  "let parse = (\<lambda>t. if t = ''y'' then Some (JN_obj [(''ok'', JN_bool True)]) else None);
       line = ''y'' @ [CHR 0x0A]
   in reloadDaemon parse (quiet_daemon\<lparr>re_auth_reply := [line]\<rparr>) = Some ''automagicd auth failed''
      \<and> reloadDaemon parse (quiet_daemon\<lparr>re_auth_reply := [''y'', [CHR 0x0A]],
                                re_reload_reply := [''y'', [CHR 0x0A]]\<rparr>) = None"
proof -
  let ?parse = "\<lambda>t. if t = ''y'' then Some (JN_obj [(''ok'', JN_bool True)]) else None"
  let ?line = "''y'' @ [CHR 0x0A]"
  have "accepts ?parse ?line"
    by (simp add: accepts_def to_object_def json_value_def to_bool_def)
  with reload_depends_on_pieces [of ?parse quiet_daemon ?line ?line 1 1] show ?thesis
    by (simp add: quiet_daemon_def Let_def)
qed

end
