(* ===== verification/Beacon_Watcher.thy ===== *)
theory Beacon_Watcher
  imports Phone_Key_Presence
begin

text \<open>
  How the session process finds the vehicle over BlueZ, \<^verbatim>\<open>helper/session/bluez/scan.go\<close>: the
  choice of the adapter, the one-shot scan, and the watcher whose observer turns D-Bus signals into
  fresh advertisements.  The bus is the data it delivers: object trees, property reads, call results
  and signals; the calls made are returned.  \<^verbatim>\<open>name\<close> is upstream's \<^verbatim>\<open>ble.VehicleLocalName\<close> of
  the VIN.  Log lines are left out.
\<close>

section \<open>D-Bus values and errors\<close>

datatype variant =
    V_string string | V_bool bool | V_int16 "16 word" | V_int32 "32 word" | V_int "64 word"
  | V_uint16 "16 word" | V_bytes string | V_other string

type_synonym props = "(string \<times> variant) list"
type_synonym ifaces = "(string \<times> props) list"
type_synonym objects = "(string \<times> ifaces) list"

text \<open>A D-Bus error has a name and a text; for any other error the text and the type's name count.\<close>

datatype bus_error = Bus_error string string | Plain_error string string

fun bus_error_text :: "bus_error \<Rightarrow> string" where
  "bus_error_text (Bus_error n m) = m"
| "bus_error_text (Plain_error m ty) = m"

fun dbusErrorParts :: "bus_error \<Rightarrow> string \<times> string" where
  "dbusErrorParts (Bus_error n m) = (n, m)"
| "dbusErrorParts (Plain_error m ty) = ([], [])"

definition dbusDetail :: "bus_error \<Rightarrow> string" where
  "dbusDetail e =
    (case dbusErrorParts e of (n, m) \<Rightarrow>
       if n \<noteq> [] \<or> m \<noteq> [] then
         (if n \<noteq> [] \<and> m \<noteq> [] \<and> m \<noteq> n then n @ '': '' @ m else if n \<noteq> [] then n else m)
       else case e of
         Bus_error n m \<Rightarrow> ''dbus.Error''
       | Plain_error m ty \<Rightarrow> if m \<noteq> [] then m else ty)"

fun variantBool :: "variant \<Rightarrow> bool option" where
  "variantBool (V_bool b) = Some b"
| "variantBool _ = None"

fun variantString :: "variant \<Rightarrow> string option" where
  "variantString (V_string s) = Some s"
| "variantString _ = None"

text \<open>The conversions of the wider integers keep the low sixteen bits.\<close>

fun variantInt16 :: "variant \<Rightarrow> 16 word option" where
  "variantInt16 (V_int16 n) = Some n"
| "variantInt16 (V_int32 n) = Some (ucast n)"
| "variantInt16 (V_int n) = Some (ucast n)"
| "variantInt16 _ = None"

text \<open>
  A missing key reads as the empty variant, which no decoder accepts.  Any other value is known by the
  name Go prints for its type.
\<close>

fun go_type :: "variant \<Rightarrow> string" where
  "go_type (V_string s) = ''string''"
| "go_type (V_bool b) = ''bool''"
| "go_type (V_int16 n) = ''int16''"
| "go_type (V_int32 n) = ''int32''"
| "go_type (V_int n) = ''int''"
| "go_type (V_uint16 n) = ''uint16''"
| "go_type (V_bytes s) = ''[]uint8''"
| "go_type (V_other t) = t"

definition bus_prop :: "string \<Rightarrow> props \<Rightarrow> variant" where
  "bus_prop k ps = (case map_of ps k of None \<Rightarrow> V_other ''<nil>'' | Some v \<Rightarrow> v)"

abbreviation adapterIface :: string where "adapterIface \<equiv> ''org.bluez.Adapter1''"
abbreviation deviceIface :: string where "deviceIface \<equiv> ''org.bluez.Device1''"
abbreviation propsIface :: string where "propsIface \<equiv> ''org.freedesktop.DBus.Properties''"
abbreviation objMgrIface :: string where "objMgrIface \<equiv> ''org.freedesktop.DBus.ObjectManager''"

section \<open>Choosing the adapter\<close>

text \<open>The first of a slice sorted in Go's order of strings.\<close>

fun sorted_first :: "string list \<Rightarrow> string option" where
  "sorted_first [] = None"
| "sorted_first (x # xs) =
    (case sorted_first xs of
       None \<Rightarrow> Some x
     | Some m \<Rightarrow> Some (if bytes_less m x then m else x))"

definition trim_prefix :: "string \<Rightarrow> string \<Rightarrow> string" where
  "trim_prefix p s = (if prefix p s then drop (length p) s else s)"

definition adapterPoweredIn :: "ifaces \<Rightarrow> bool" where
  "adapterPoweredIn is =
    (case map_of is adapterIface of
       None \<Rightarrow> False
     | Some ps \<Rightarrow> variantBool (bus_prop ''Powered'' ps) = Some True)"

definition is_adapter :: "string \<times> ifaces \<Rightarrow> bool" where
  "is_adapter x = (map_of (snd x) adapterIface \<noteq> None)"

text \<open>The object tree is a Go map: the list is the order in which this iteration meets it.\<close>

definition findAdapter :: "objects \<Rightarrow> string \<Rightarrow> string option" where
  "findAdapter objs adapterID =
    (let as = filter is_adapter objs
     in if adapterID \<noteq> [] then
          map_option fst (find (\<lambda>x. trim_prefix ''/org/bluez/'' (fst x) = adapterID) as)
        else
          let powered = map fst (filter (\<lambda>x. adapterPoweredIn (snd x)) as);
              unpowered = map fst (filter (\<lambda>x. \<not> adapterPoweredIn (snd x)) as)
          in if powered \<noteq> [] then sorted_first powered else sorted_first unpowered)"

section \<open>Finding the beacon in the object tree\<close>

record scan_result =
  sr_path :: string
  sr_name :: string
  sr_rssi :: "16 word"
  sr_has :: bool

definition advertisedName :: "props \<Rightarrow> string \<Rightarrow> string option" where
  "advertisedName ps want =
    (let name = variantString (bus_prop ''Name'' ps); alias = variantString (bus_prop ''Alias'' ps)
     in if name = Some want then name
        else if alias = Some want then alias
        else if name \<noteq> None then name
        else alias)"

definition beacon_at :: "string \<Rightarrow> string \<Rightarrow> string \<times> ifaces \<Rightarrow> scan_result option" where
  "beacon_at adapter name x =
    (case map_of (snd x) deviceIface of
       None \<Rightarrow> None
     | Some dev \<Rightarrow>
         if \<not> prefix (adapter @ ''/dev_'') (fst x) \<or> advertisedName dev name \<noteq> Some name then None
         else Some (case variantInt16 (bus_prop ''RSSI'' dev) of
             None \<Rightarrow> \<lparr>sr_path = fst x, sr_name = name, sr_rssi = 0, sr_has = False\<rparr>
           | Some r \<Rightarrow> \<lparr>sr_path = fst x, sr_name = name, sr_rssi = r, sr_has = True\<rparr>))"

fun findBeacon :: "string \<Rightarrow> string \<Rightarrow> objects \<Rightarrow> scan_result option" where
  "findBeacon adapter name [] = None"
| "findBeacon adapter name (x # xs) =
    (case beacon_at adapter name x of
       Some b \<Rightarrow> Some b
     | None \<Rightarrow> findBeacon adapter name xs)"

section \<open>Power and discovery\<close>

text \<open>The errors of the package, with what each message prints.\<close>

datatype watch_error =
    W_enumerate bus_error | W_no_adapter string
  | W_read_powered bus_error | W_decode_powered variant | W_power_on string
  | W_read_discovering bus_error | W_decode_discovering variant | W_start bus_error | W_bus bus_error
  | W_subscribe_advertisements bus_error | W_subscribe_devices bus_error | W_start_watcher watch_error
  | W_unexpected_reply | W_listener_stopped | W_deadline

text \<open>What the bus answers to the reads and calls of one attempt, in the order they are made.\<close>

record bus_replies =
  rp_powered :: "(bus_error, variant) result"
  rp_set_powered :: "bus_error option"
  rp_powered_again :: "(bus_error, variant) result"
  rp_discovering :: "(bus_error, variant) result"
  rp_start :: "bus_error option"

datatype bus_call = Set_powered | Set_filter | Start_discovery | Stop_discovery

definition ensurePowered :: "bus_replies \<Rightarrow> bus_call list \<times> watch_error option" where
  "ensurePowered b =
    (case rp_powered b of
       Inl e \<Rightarrow> ([], Some (W_read_powered e))
     | Inr v \<Rightarrow>
         (case variantBool v of
            None \<Rightarrow> ([], Some (W_decode_powered v))
          | Some True \<Rightarrow> ([], None)
          | Some False \<Rightarrow>
              (case rp_set_powered b of
                 None \<Rightarrow> ([Set_powered], None)
               | Some e \<Rightarrow>
                   ([Set_powered],
                    case rp_powered_again b of
                      Inr v2 \<Rightarrow>
                        if variantBool v2 = Some True then None else Some (W_power_on (dbusDetail e))
                    | Inl e2 \<Rightarrow> Some (W_power_on (dbusDetail e))))))"

text \<open>A failed read of \<^verbatim>\<open>Discovering\<close> counts as not discovering for scan and watcher.\<close>

definition adapterIsDiscovering :: "(bus_error, variant) result \<Rightarrow> (watch_error, bool) result" where
  "adapterIsDiscovering r =
    (case r of
       Inl e \<Rightarrow> Inl (W_read_discovering e)
     | Inr v \<Rightarrow>
         (case variantBool v of None \<Rightarrow> Inl (W_decode_discovering v) | Some d \<Rightarrow> Inr d))"

definition isDiscoveryInProgress :: "bus_error \<Rightarrow> bool" where
  "isDiscoveryInProgress e =
    (sublist ''InProgress'' (bus_error_text e) \<or> sublist ''already in progress'' (bus_error_text e))"

definition startDiscovery :: "bus_replies \<Rightarrow> bus_error option" where
  "startDiscovery b =
    (case rp_start b of
       Some e \<Rightarrow> if isDiscoveryInProgress e then None else Some e
     | None \<Rightarrow> None)"

text \<open>The object tree of a \<^verbatim>\<open>GetManagedObjects\<close> reply, whose body must be one tree.\<close>

datatype tree_item = T_objects objects | T_other

type_synonym tree_reply = "(bus_error, tree_item list) result"

fun managedObjects :: "tree_reply \<Rightarrow> (watch_error, objects) result" where
  "managedObjects (Inl e) = Inl (W_enumerate e)"
| "managedObjects (Inr [T_objects objs]) = Inr objs"
| "managedObjects (Inr _) = Inl W_unexpected_reply"

section \<open>The one-shot scan\<close>

text \<open>
  \<^verbatim>\<open>polls\<close> are the object trees it reads until its deadline.  The calls are all it makes, the
  deferred stop included.
\<close>

fun scan_polls ::
    "string \<Rightarrow> string \<Rightarrow> tree_reply list \<Rightarrow> (watch_error, scan_result) result" where
  "scan_polls adapter name [] = Inl W_deadline"
| "scan_polls adapter name (p # ps) =
    (case managedObjects p of
       Inl e \<Rightarrow> Inl e
     | Inr objs \<Rightarrow>
         (case findBeacon adapter name objs of
            Some b \<Rightarrow> Inr b
          | None \<Rightarrow> scan_polls adapter name ps))"

definition scan_beacon ::
    "bus_replies \<Rightarrow> tree_reply \<Rightarrow> tree_reply list \<Rightarrow>
     string \<Rightarrow> string \<Rightarrow> bus_call list \<times> (watch_error, scan_result) result" where
  "scan_beacon b tree polls adapterID name =
    (case managedObjects tree of
       Inl e \<Rightarrow> ([], Inl e)
     | Inr objs \<Rightarrow>
         (case findAdapter objs adapterID of
            None \<Rightarrow> ([], Inl (W_no_adapter adapterID))
          | Some adapter \<Rightarrow>
              (case ensurePowered b of
                 (calls, Some e) \<Rightarrow> (calls, Inl e)
               | (calls, None) \<Rightarrow>
                   (let already = (adapterIsDiscovering (rp_discovering b) = Inr True);
                        calls2 = calls @ [Set_filter, Start_discovery]
                    in case startDiscovery b of
                         Some e \<Rightarrow> (calls2, Inl (W_start e))
                       | None \<Rightarrow> (calls2 @ (if already then [] else [Stop_discovery]),
                                  scan_polls adapter name polls)))))"

section \<open>The watcher\<close>

text \<open>
  The observer is one goroutine that handles a signal in two critical sections with a D-Bus read
  between them when the signal is an advertisement without strength: it is idle, about to read, or
  holds a strength it will record (with whether the signal carried it).  The two channels of
  capacity one are flags.  \<^verbatim>\<open>wt_listening\<close> is an open \<^verbatim>\<open>signalDone\<close>.
\<close>

datatype observing = Ob_idle | Ob_reading string | Ob_holding string "16 word" bool

record watch_stats =
  st_polls :: int
  st_beacons :: int
  st_rssi :: int
  st_rssi_updates :: int
  st_adverts :: int
  st_age :: int
  st_restarts :: int
  st_read_total :: int
  st_read_max :: int

definition no_stats :: watch_stats where
  "no_stats = \<lparr>st_polls = 0, st_beacons = 0, st_rssi = 0, st_rssi_updates = 0, st_adverts = 0,
               st_age = 0, st_restarts = 0, st_read_total = 0, st_read_max = 0\<rparr>"

record watcher =
  wt_adapter :: string
  wt_name :: string
  wt_near :: "16 word"
  wt_near_flag :: bool
  wt_updates :: bool
  wt_pending :: "scan_result option"
  wt_pending_at :: "int option"
  wt_paused :: bool
  wt_stopped :: bool
  wt_listening :: bool
  wt_device :: string
  wt_last_update :: "int option"
  wt_rssi_updates :: int
  wt_adverts :: int
  wt_stats :: watch_stats
  wt_obs :: observing

definition wake :: "watcher \<Rightarrow> watcher" where
  "wake w = w\<lparr>wt_updates := True\<rparr>"

definition SetNearRSSI :: "16 word \<Rightarrow> watcher \<Rightarrow> watcher" where
  "SetNearRSSI q w = w\<lparr>wt_near := q\<rparr>"

text \<open>\<^verbatim>\<open>Duration.Round(time.Millisecond)\<close>: halves away from zero.\<close>

definition round_ms :: "int \<Rightarrow> int" where
  "round_ms d =
    (if d < 0 then - ((- d + 500000) div 1000000 * 1000000) else (d + 500000) div 1000000 * 1000000)"

definition TakeStats :: "int \<Rightarrow> watcher \<Rightarrow> watcher \<times> watch_stats" where
  "TakeStats now w =
    (w\<lparr>wt_rssi_updates := 0, wt_adverts := 0, wt_stats := no_stats\<rparr>,
     (wt_stats w)\<lparr>st_rssi_updates := wt_rssi_updates w, st_adverts := wt_adverts w,
       st_age := (case wt_last_update w of None \<Rightarrow> - 1 | Some t \<Rightarrow> round_ms (now - t))\<rparr>)"

text \<open>
  \<^verbatim>\<open>newWatcher\<close>: the object tree for the adapter, the replies, the two match rules, and the tree
  that seeds the identity of the vehicle's device (never its liveness).
\<close>

definition newWatcher ::
    "tree_reply \<Rightarrow> bus_replies \<Rightarrow> bus_error option \<Rightarrow> bus_error option \<Rightarrow>
     tree_reply \<Rightarrow> string \<Rightarrow> string \<Rightarrow> (watch_error, watcher) result" where
  "newWatcher tree b match1 match2 tree2 adapterID name =
    (case managedObjects tree of
       Inl e \<Rightarrow> Inl e
     | Inr objs \<Rightarrow>
         (case findAdapter objs adapterID of
            None \<Rightarrow> Inl (W_no_adapter adapterID)
          | Some adapter \<Rightarrow>
              (case (snd (ensurePowered b), match1, match2) of
                 (Some e, _, _) \<Rightarrow> Inl e
               | (None, Some e, _) \<Rightarrow> Inl (W_subscribe_advertisements e)
               | (None, None, Some e) \<Rightarrow> Inl (W_subscribe_devices e)
               | (None, None, None) \<Rightarrow>
                   (case managedObjects tree2 of
                      Inl e \<Rightarrow> Inl (W_start_watcher e)
                    | Inr objs2 \<Rightarrow>
                        (case startDiscovery b of
                           Some e \<Rightarrow> Inl (W_start_watcher (W_bus e))
                         | None \<Rightarrow>
                             Inr \<lparr>wt_adapter = adapter, wt_name = name, wt_near = - 90,
                                  wt_near_flag = False, wt_updates = False, wt_pending = None,
                                  wt_pending_at = None, wt_paused = False, wt_stopped = False,
                                  wt_listening = True,
                                  wt_device = (case findBeacon adapter name objs2 of
                                                 None \<Rightarrow> [] | Some r \<Rightarrow> sr_path r),
                                  wt_last_update = None, wt_rssi_updates = 0, wt_adverts = 0,
                                  wt_stats = no_stats, wt_obs = Ob_idle\<rparr>)))))"

text \<open>\<^verbatim>\<open>ensureDiscovering\<close>: nothing while paused; otherwise power, then discovery if it was lost.\<close>

definition ensureDiscovering ::
    "bus_replies \<Rightarrow> watcher \<Rightarrow> watcher \<times> bus_call list \<times> watch_error option" where
  "ensureDiscovering b w =
    (if wt_paused w then (w, [], None)
     else case ensurePowered b of
       (calls, Some e) \<Rightarrow> (w, calls, Some e)
     | (calls, None) \<Rightarrow>
         if adapterIsDiscovering (rp_discovering b) = Inr True then (w, calls, None)
         else (let calls2 = calls @ [Set_filter, Start_discovery]
               in case startDiscovery b of
                    Some e \<Rightarrow> (w, calls2, Some (W_bus e))
                  | None \<Rightarrow>
                      (w\<lparr>wt_stats := (wt_stats w)\<lparr>st_restarts := st_restarts (wt_stats w) + 1\<rparr>\<rparr>,
                       calls2, None)))"

text \<open>\<^verbatim>\<open>Peek\<close>, with the tree it reads and how long the read took.\<close>

definition Peek ::
    "bus_replies \<Rightarrow> tree_reply \<Rightarrow> int \<Rightarrow> watcher \<Rightarrow>
     watcher \<times> (watch_error, scan_result option) result" where
  "Peek b tree elapsed w =
    (case ensureDiscovering b w of
       (w1, _, Some e) \<Rightarrow> (w1, Inl e)
     | (w1, _, None) \<Rightarrow>
         (let st = wt_stats w1;
              w2 = w1\<lparr>wt_stats := st\<lparr>st_polls := st_polls st + 1,
                        st_read_total := st_read_total st + elapsed,
                        st_read_max := max (st_read_max st) elapsed\<rparr>\<rparr>
          in case managedObjects tree of
               Inl e \<Rightarrow> (w2, Inl e)
             | Inr objs \<Rightarrow>
                 (case findBeacon (wt_adapter w2) (wt_name w2) objs of
                    None \<Rightarrow> (w2, Inr None)
                  | Some r \<Rightarrow>
                      (let st2 = wt_stats w2
                       in (w2\<lparr>wt_device := sr_path r,
                              wt_stats := st2\<lparr>st_beacons := st_beacons st2 + 1,
                                st_rssi := st_rssi st2 + (if sr_has r then 1 else 0)\<rparr>\<rparr>,
                           Inr (Some r))))))"

section \<open>The observer\<close>

text \<open>A signal as godbus delivers it, its body decoded by the types the code asserts.\<close>

datatype body_item = B_path string | B_string string | B_props props | B_ifaces ifaces | B_other

record signal =
  sg_name :: string
  sg_path :: string
  sg_body :: "body_item list"

datatype decoded = Dec_ignore | Dec_adapter | Dec_device string props

definition decode_signal :: "string \<Rightarrow> signal \<Rightarrow> decoded" where
  "decode_signal adapter sg =
    (case sg_body sg of
       x # y # _ \<Rightarrow>
         if sg_name sg = objMgrIface @ ''.InterfacesAdded'' then
           (case (x, y) of
              (B_path p, B_ifaces is) \<Rightarrow>
                Dec_device p (case map_of is deviceIface of None \<Rightarrow> [] | Some ps \<Rightarrow> ps)
            | _ \<Rightarrow> Dec_ignore)
         else if sg_name sg = propsIface @ ''.PropertiesChanged'' then
           (let iface = (case x of B_string s \<Rightarrow> s | _ \<Rightarrow> [])
            in if iface = adapterIface \<and> sg_path sg = adapter then Dec_adapter
               else if iface \<noteq> deviceIface then Dec_ignore
               else Dec_device (sg_path sg) (case y of B_props ps \<Rightarrow> ps | _ \<Rightarrow> []))
         else Dec_ignore
     | _ \<Rightarrow> Dec_ignore)"

definition advertisementUpdate :: "props \<Rightarrow> bool" where
  "advertisementUpdate ps =
    list_ex (\<lambda>k. map_of ps k \<noteq> None)
      [''ManufacturerData'', ''ServiceData'', ''AdvertisingFlags'', ''TxPower'']"

definition track_device :: "string \<Rightarrow> props \<Rightarrow> watcher \<Rightarrow> string" where
  "track_device p ps w =
    (case advertisedName ps (wt_name w) of
       None \<Rightarrow> wt_device w
     | Some n \<Rightarrow>
         if n = wt_name w then p
         else if p = wt_device w then [] else wt_device w)"

text \<open>The first section, up to the read.\<close>

definition observe_signal :: "signal \<Rightarrow> watcher \<Rightarrow> watcher" where
  "observe_signal sg w =
    (case decode_signal (wt_adapter w) sg of
       Dec_ignore \<Rightarrow> w
     | Dec_adapter \<Rightarrow> wake w
     | Dec_device p ps \<Rightarrow>
         if \<not> prefix (wt_adapter w @ ''/dev_'') p then w
         else
           (let d = track_device p ps w; w1 = w\<lparr>wt_device := d\<rparr>
            in if p \<noteq> d \<or> wt_paused w then w1
               else case variantInt16 (bus_prop ''RSSI'' ps) of
                 Some r \<Rightarrow> w1\<lparr>wt_obs := Ob_holding p r True\<rparr>
               | None \<Rightarrow> if advertisementUpdate ps then w1\<lparr>wt_obs := Ob_reading p\<rparr> else w1))"

text \<open>The read of \<^verbatim>\<open>RSSI\<close>, and the second section.\<close>

definition observe_read :: "(bus_error, variant) result \<Rightarrow> watcher \<Rightarrow> watcher" where
  "observe_read v w =
    (case wt_obs w of
       Ob_reading p \<Rightarrow>
         w\<lparr>wt_obs := (case v of
              Inl e \<Rightarrow> Ob_idle
            | Inr x \<Rightarrow> (case variantInt16 x of None \<Rightarrow> Ob_idle | Some r \<Rightarrow> Ob_holding p r False))\<rparr>
     | _ \<Rightarrow> w)"

definition observe_record :: "int \<Rightarrow> watcher \<Rightarrow> watcher" where
  "observe_record now w =
    (case wt_obs w of
       Ob_holding p r had \<Rightarrow>
         if wt_paused w then w\<lparr>wt_obs := Ob_idle\<rparr>
         else wake
           (w\<lparr>wt_obs := Ob_idle, wt_pending_at := Some now, wt_adverts := wt_adverts w + 1,
             wt_last_update := (if had then Some now else wt_last_update w),
             wt_rssi_updates := (if had then wt_rssi_updates w + 1 else wt_rssi_updates w),
             wt_pending := Some \<lparr>sr_path = p, sr_name = wt_name w, sr_rssi = r, sr_has = True\<rparr>,
             wt_near_flag := (wt_near_flag w \<or> sint (wt_near w) \<le> sint r)\<rparr>)
     | _ \<Rightarrow> w)"

section \<open>Pausing, resuming, stopping\<close>

definition PauseWatch :: "watcher \<Rightarrow> watcher \<times> bus_call list" where
  "PauseWatch w =
    (if wt_paused w then (w, [])
     else (w\<lparr>wt_paused := True, wt_pending := None\<rparr>, [Stop_discovery]))"

definition ResumeWatch :: "watcher \<Rightarrow> watcher" where
  "ResumeWatch w =
    w\<lparr>wt_pending := (if wt_paused w then None else wt_pending w), wt_paused := False\<rparr>"

text \<open>\<^verbatim>\<open>Stop\<close> waits for the observer, whose unfinished pass is dropped by the pause.\<close>

definition StopWatch :: "watcher \<Rightarrow> watcher \<times> bus_call list" where
  "StopWatch w =
    (if wt_stopped w then (w, [])
     else (w\<lparr>wt_stopped := True, wt_paused := True, wt_pending := None, wt_listening := False,
             wt_obs := Ob_idle\<rparr>, [Stop_discovery]))"

section \<open>Waiting\<close>

definition take_pending :: "int \<Rightarrow> watcher \<Rightarrow> watcher \<times> scan_result option" where
  "take_pending now w =
    (w\<lparr>wt_pending := None\<rparr>,
     if wt_paused w then None
     else case wt_pending_at w of
       None \<Rightarrow> None
     | Some t \<Rightarrow> if 5 * SECOND < now - t then None else wt_pending w)"

text \<open>
  What can happen to a watcher, each an atomic section of the code.  The observer takes a signal only
  when it is idle and its channel is open.  \<^verbatim>\<open>Ev_woken\<close> and \<^verbatim>\<open>Ev_near_taken\<close> are the receivers of
  the two channels.
\<close>

datatype watch_event =
    Ev_signal signal | Ev_read "(bus_error, variant) result" | Ev_record int | Ev_closed
  | Ev_pause | Ev_resume | Ev_stop | Ev_take int
  | Ev_discover bus_replies | Ev_peek bus_replies tree_reply int
  | Ev_near "16 word" | Ev_stats int | Ev_woken | Ev_near_taken

fun watch_step :: "watch_event \<Rightarrow> watcher \<Rightarrow> watcher" where
  "watch_step (Ev_signal sg) w =
    (if wt_listening w \<and> wt_obs w = Ob_idle then observe_signal sg w else w)"
| "watch_step (Ev_read v) w = (if wt_listening w then observe_read v w else w)"
| "watch_step (Ev_record now) w = (if wt_listening w then observe_record now w else w)"
| "watch_step Ev_closed w = (if wt_obs w = Ob_idle then w\<lparr>wt_listening := False\<rparr> else w)"
| "watch_step Ev_pause w = fst (PauseWatch w)"
| "watch_step Ev_resume w = ResumeWatch w"
| "watch_step Ev_stop w = fst (StopWatch w)"
| "watch_step (Ev_take now) w = fst (take_pending now w)"
| "watch_step (Ev_discover b) w = fst (ensureDiscovering b w)"
| "watch_step (Ev_peek b tree d) w = fst (Peek b tree d w)"
| "watch_step (Ev_near q) w = SetNearRSSI q w"
| "watch_step (Ev_stats now) w = fst (TakeStats now w)"
| "watch_step Ev_woken w = w\<lparr>wt_updates := False\<rparr>"
| "watch_step Ev_near_taken w = w\<lparr>wt_near_flag := False\<rparr>"

definition watch_run :: "watch_event list \<Rightarrow> watcher \<Rightarrow> watcher" where
  "watch_run es w = fold watch_step es w"

text \<open>
  The loop of \<^verbatim>\<open>Wait\<close>, after its first \<^verbatim>\<open>ensureDiscovering\<close>: one round per pass until the
  context ends, with whether the context has expired by the end of the pass, what happens while it
  is blocked, and the replies to the check after a wake-up.
\<close>

record wait_round =
  wr_now :: int
  wr_expired :: bool
  wr_events :: "watch_event list"
  wr_replies :: bus_replies

fun wait_rounds ::
    "wait_round list \<Rightarrow> watcher \<Rightarrow> watcher \<times> (watch_error, scan_result option) result" where
  "wait_rounds [] w = (w, Inr None)"
| "wait_rounds (x # xs) w =
    (case take_pending (wr_now x) w of
       (w1, Some r) \<Rightarrow> (w1, Inr (if wr_expired x then None else Some r))
     | (w1, None) \<Rightarrow>
         (let w2 = watch_run (wr_events x) w1
          in if \<not> wt_listening w2 then (w2, Inl W_listener_stopped)
             else if \<not> wt_updates w2 then (w2, Inr None)
             else case ensureDiscovering (wr_replies x) (watch_step Ev_woken w2) of
               (w3, _, Some e) \<Rightarrow> (w3, Inl e)
             | (w3, _, None) \<Rightarrow> wait_rounds xs w3))"

definition WaitBeacon ::
    "bus_replies \<Rightarrow> wait_round list \<Rightarrow> watcher \<Rightarrow>
     watcher \<times> (watch_error, scan_result option) result" where
  "WaitBeacon b rounds w =
    (case ensureDiscovering b w of
       (w1, _, Some e) \<Rightarrow> (w1, Inl e)
     | (w1, _, None) \<Rightarrow> wait_rounds rounds w1)"

section \<open>What no event changes\<close>

lemma ensureDiscovering_frame [frame_simps]:
  "wt_adapter (fst (ensureDiscovering b w)) = wt_adapter w"
  "wt_name (fst (ensureDiscovering b w)) = wt_name w"
  "wt_pending (fst (ensureDiscovering b w)) = wt_pending w"
  "wt_pending_at (fst (ensureDiscovering b w)) = wt_pending_at w"
  "wt_paused (fst (ensureDiscovering b w)) = wt_paused w"
  "wt_stopped (fst (ensureDiscovering b w)) = wt_stopped w"
  "wt_listening (fst (ensureDiscovering b w)) = wt_listening w"
  "wt_device (fst (ensureDiscovering b w)) = wt_device w"
  "wt_obs (fst (ensureDiscovering b w)) = wt_obs w"
  by (simp_all add: ensureDiscovering_def Let_def split: prod.splits option.splits)

lemma Peek_frame [frame_simps]:
  "wt_adapter (fst (Peek b tree d w)) = wt_adapter w"
  "wt_name (fst (Peek b tree d w)) = wt_name w"
  "wt_pending (fst (Peek b tree d w)) = wt_pending w"
  "wt_pending_at (fst (Peek b tree d w)) = wt_pending_at w"
  "wt_paused (fst (Peek b tree d w)) = wt_paused w"
  "wt_stopped (fst (Peek b tree d w)) = wt_stopped w"
  "wt_listening (fst (Peek b tree d w)) = wt_listening w"
  "wt_obs (fst (Peek b tree d w)) = wt_obs w"
proof -
  obtain w1 calls e where d: "ensureDiscovering b w = (w1, calls, e)" by (cases "ensureDiscovering b w")
  note f = ensureDiscovering_frame [of b w, unfolded d fst_conv]
  show "wt_adapter (fst (Peek b tree d w)) = wt_adapter w"
    "wt_name (fst (Peek b tree d w)) = wt_name w"
    "wt_pending (fst (Peek b tree d w)) = wt_pending w"
    "wt_pending_at (fst (Peek b tree d w)) = wt_pending_at w"
    "wt_paused (fst (Peek b tree d w)) = wt_paused w"
    "wt_stopped (fst (Peek b tree d w)) = wt_stopped w"
    "wt_listening (fst (Peek b tree d w)) = wt_listening w"
    "wt_obs (fst (Peek b tree d w)) = wt_obs w"
    by (simp_all add: Peek_def Let_def d f split: option.split sum.split)
qed

lemma observe_frame [frame_simps]:
  "wt_adapter (observe_signal sg w) = wt_adapter w" "wt_name (observe_signal sg w) = wt_name w"
  "wt_pending (observe_signal sg w) = wt_pending w"
  "wt_pending_at (observe_signal sg w) = wt_pending_at w"
  "wt_paused (observe_signal sg w) = wt_paused w" "wt_stopped (observe_signal sg w) = wt_stopped w"
  "wt_listening (observe_signal sg w) = wt_listening w"
  "wt_adapter (observe_read v w) = wt_adapter w" "wt_name (observe_read v w) = wt_name w"
  "wt_pending (observe_read v w) = wt_pending w" "wt_pending_at (observe_read v w) = wt_pending_at w"
  "wt_paused (observe_read v w) = wt_paused w" "wt_stopped (observe_read v w) = wt_stopped w"
  "wt_listening (observe_read v w) = wt_listening w" "wt_device (observe_read v w) = wt_device w"
  "wt_adapter (observe_record n w) = wt_adapter w" "wt_name (observe_record n w) = wt_name w"
  "wt_paused (observe_record n w) = wt_paused w" "wt_stopped (observe_record n w) = wt_stopped w"
  "wt_listening (observe_record n w) = wt_listening w" "wt_device (observe_record n w) = wt_device w"
  by (simp_all add: observe_signal_def observe_read_def observe_record_def wake_def Let_def
      split: decoded.splits option.splits observing.splits)

lemmas watch_ops = PauseWatch_def ResumeWatch_def StopWatch_def take_pending_def TakeStats_def
  SetNearRSSI_def

lemma watch_step_frame [simp]:
  "wt_adapter (watch_step e w) = wt_adapter w" "wt_name (watch_step e w) = wt_name w"
  by (cases e; simp add: watch_ops frame_simps)+

lemma watch_run_Nil [simp]: "watch_run [] w = w"
  by (simp add: watch_run_def)

lemma watch_run_append [simp]: "watch_run (xs @ ys) w = watch_run ys (watch_run xs w)"
  by (simp add: watch_run_def)

lemma watch_run_Cons [simp]: "watch_run (e # es) w = watch_run es (watch_step e w)"
  by (simp add: watch_run_def)

lemma watch_run_frame [simp]:
  "wt_adapter (watch_run es w) = wt_adapter w" "wt_name (watch_run es w) = wt_name w"
  by (induction es arbitrary: w) simp_all

section \<open>The invariant of a watcher\<close>

text \<open>
  A pending advertisement has a time and the watcher is neither paused nor stopped; a stopped watcher
  is deaf, and a deaf observer is idle.
\<close>

definition watch_inv :: "watcher \<Rightarrow> bool" where
  "watch_inv w \<longleftrightarrow>
    (wt_pending w \<noteq> None \<longrightarrow> wt_pending_at w \<noteq> None \<and> \<not> wt_paused w \<and> \<not> wt_stopped w)
    \<and> (wt_stopped w \<longrightarrow> \<not> wt_listening w) \<and> (\<not> wt_listening w \<longrightarrow> wt_obs w = Ob_idle)"

lemma watch_inv_step: "watch_inv w \<Longrightarrow> watch_inv (watch_step e w)"
proof (cases e)
  case (Ev_record now)
  then show "watch_inv w \<Longrightarrow> ?thesis"
    by (auto simp: watch_inv_def observe_record_def wake_def split: observing.splits)
qed (auto simp: watch_inv_def watch_ops frame_simps)

lemma watch_inv_new:
  "newWatcher tree b m1 m2 tree2 aid name = Inr w \<Longrightarrow> watch_inv w"
  by (auto simp: newWatcher_def watch_inv_def split: sum.splits option.splits)

section \<open>Where a pending advertisement comes from\<close>

fun last_heard :: "watcher \<Rightarrow> (scan_result \<times> int) option" where
  "last_heard w =
    (case (wt_pending w, wt_pending_at w) of (Some q, Some t) \<Rightarrow> Some (q, t) | _ \<Rightarrow> None)"

fun records :: "watch_event \<Rightarrow> watcher \<Rightarrow> (scan_result \<times> int) option" where
  "records (Ev_record now) w =
    (case wt_obs w of
       Ob_holding p r had \<Rightarrow>
         if wt_listening w \<and> \<not> wt_paused w
         then Some (\<lparr>sr_path = p, sr_name = wt_name w, sr_rssi = r, sr_has = True\<rparr>, now) else None
     | _ \<Rightarrow> None)"
| "records _ w = None"

fun forgets :: "watch_event \<Rightarrow> bool" where
  "forgets Ev_pause = True"
| "forgets Ev_stop = True"
| "forgets (Ev_take t) = True"
| "forgets _ = False"

interpretation pend: last_write watch_step last_heard records forgets watch_inv
proof
  show "watch_inv w \<Longrightarrow> watch_inv (watch_step e w)" for w e by (rule watch_inv_step)
  show "records e w = Some v \<or> last_heard w = Some v \<and> \<not> forgets e"
    if "watch_inv w" "last_heard (watch_step e w) = Some v" for w e v
    using that
    by (cases e) (auto simp: watch_inv_def watch_ops frame_simps observe_record_def wake_def
        split: option.splits observing.splits if_splits)
qed

text \<open>What the observer holds or is about to read comes from a signal about the tracked device.\<close>

definition signal_of :: "watcher \<Rightarrow> signal \<Rightarrow> (string \<times> 16 word option) option" where
  "signal_of w sg =
    (case decode_signal (wt_adapter w) sg of
       Dec_device p ps \<Rightarrow>
         (let q = variantInt16 (bus_prop ''RSSI'' ps)
          in if prefix (wt_adapter w @ ''/dev_'') p \<and> track_device p ps w = p \<and> \<not> wt_paused w
                \<and> (q \<noteq> None \<or> advertisementUpdate ps)
                \<and> wt_listening w \<and> wt_obs w = Ob_idle
             then Some (p, q) else None)
     | _ \<Rightarrow> None)"

lemma observe_signal_obs:
  "wt_listening w \<Longrightarrow> wt_obs w = Ob_idle \<Longrightarrow>
   wt_obs (observe_signal sg w) =
     (case signal_of w sg of
        None \<Rightarrow> Ob_idle
      | Some (p, None) \<Rightarrow> Ob_reading p
      | Some (p, Some r) \<Rightarrow> Ob_holding p r True)"
  by (auto simp: observe_signal_def signal_of_def wake_def Let_def
      split: decoded.splits option.splits)

lemmas observer_ops = watch_ops frame_simps observe_record_def observe_read_def wake_def observe_signal_obs

fun holding :: "watcher \<Rightarrow> (string \<times> 16 word) option" where
  "holding w = (case wt_obs w of Ob_holding p r had \<Rightarrow> Some (p, r) | _ \<Rightarrow> None)"

fun reading :: "watcher \<Rightarrow> string option" where
  "reading w = (case wt_obs w of Ob_reading p \<Rightarrow> Some p | _ \<Rightarrow> None)"

fun holds :: "watch_event \<Rightarrow> watcher \<Rightarrow> (string \<times> 16 word) option" where
  "holds (Ev_signal sg) w =
    (case signal_of w sg of Some (p, Some r) \<Rightarrow> Some (p, r) | _ \<Rightarrow> None)"
| "holds (Ev_read v) w =
    (case (reading w, v) of
       (Some p, Inr x) \<Rightarrow> map_option (Pair p) (variantInt16 x)
     | _ \<Rightarrow> None)"
| "holds _ w = None"

fun reads :: "watch_event \<Rightarrow> watcher \<Rightarrow> string option" where
  "reads (Ev_signal sg) w = (case signal_of w sg of Some (p, None) \<Rightarrow> Some p | _ \<Rightarrow> None)"
| "reads _ w = None"

interpretation held: last_write watch_step holding holds "\<lambda>e. e = Ev_stop" watch_inv
proof
  show "watch_inv w \<Longrightarrow> watch_inv (watch_step e w)" for w e by (rule watch_inv_step)
  show "holds e w = Some v \<or> holding w = Some v \<and> e \<noteq> Ev_stop"
    if "watch_inv w" "holding (watch_step e w) = Some v" for w e v
    using that
    by (cases e) (auto simp: watch_inv_def observer_ops
        split: option.splits observing.splits if_splits sum.splits)
qed

interpretation rd: last_write watch_step reading reads "\<lambda>e. e = Ev_stop" watch_inv
proof
  show "watch_inv w \<Longrightarrow> watch_inv (watch_step e w)" for w e by (rule watch_inv_step)
  show "reads e w = Some v \<or> reading w = Some v \<and> e \<noteq> Ev_stop"
    if "watch_inv w" "reading (watch_step e w) = Some v" for w e v
    using that
    by (cases e) (auto simp: watch_inv_def observer_ops
        split: option.splits observing.splits if_splits sum.splits)
qed

text \<open>The device that is tracked was announced under the vehicle's name.\<close>

fun tracked :: "watcher \<Rightarrow> string option" where
  "tracked w = (if wt_device w = [] then None else Some (wt_device w))"

fun names_device :: "watch_event \<Rightarrow> watcher \<Rightarrow> string option" where
  "names_device (Ev_signal sg) w =
    (case decode_signal (wt_adapter w) sg of
       Dec_device p ps \<Rightarrow>
         if prefix (wt_adapter w @ ''/dev_'') p \<and> advertisedName ps (wt_name w) = Some (wt_name w)
         then Some p else None
     | _ \<Rightarrow> None)"
| "names_device (Ev_peek b tree d) w =
    (case managedObjects tree of
       Inl e \<Rightarrow> None
     | Inr objs \<Rightarrow> map_option sr_path (findBeacon (wt_adapter w) (wt_name w) objs))"
| "names_device _ w = None"

interpretation trk: last_write watch_step tracked names_device "\<lambda>e. False" watch_inv
proof
  show "watch_inv w \<Longrightarrow> watch_inv (watch_step e w)" for w e by (rule watch_inv_step)
  show "names_device e w = Some p \<or> tracked w = Some p \<and> \<not> False"
    if "watch_inv w" "tracked (watch_step e w) = Some p" for w e p
  proof (cases e)
    case (Ev_signal sg)
    then show ?thesis using that
      by (auto simp: observe_signal_def wake_def track_device_def Let_def
          split: decoded.splits option.splits if_splits)
  next
    case (Ev_peek b tree d)
    then show ?thesis using that ensureDiscovering_frame [of b w]
      by (auto simp: Peek_def Let_def split: prod.splits option.splits sum.splits if_splits)
  qed (use that in \<open>auto simp: watch_ops frame_simps split: if_splits\<close>)
qed

definition heard :: "watch_event list \<Rightarrow> watcher \<Rightarrow> string \<Rightarrow> 16 word \<Rightarrow> bool" where
  "heard es w p r \<longleftrightarrow>
    (\<exists>pre sg post q. es = pre @ Ev_signal sg # post \<and> signal_of (watch_run pre w) sg = Some (p, q)
      \<and> (q = Some r
          \<or> q = None \<and> (\<exists>v. Ev_read (Inr v) \<in> set post \<and> variantInt16 v = Some r)))"

lemma holding_heard:
  assumes "watch_inv w" "wt_obs w = Ob_idle" "holding (watch_run es w) = Some (p, r)"
  shows "heard es w p r"
proof -
  obtain pre e post where es: "es = pre @ e # post"
    and e: "holds e (watch_run pre w) = Some (p, r)"
    using held.origin [of w es "(p, r)"] assms by (auto simp: watch_run_def)
  show ?thesis
  proof (cases e)
    case (Ev_signal sg)
    then have "signal_of (watch_run pre w) sg = Some (p, Some r)"
      using e by (auto split: option.splits)
    then show ?thesis using es Ev_signal unfolding heard_def by blast
  next
    case (Ev_read v)
    then obtain x where v: "v = Inr x" "variantInt16 x = Some r"
      and rd: "reading (watch_run pre w) = Some p"
      using e by (auto split: option.splits sum.splits simp del: reading.simps)
    obtain pre2 e2 post2 where pre: "pre = pre2 @ e2 # post2"
      and e2: "reads e2 (watch_run pre2 w) = Some p"
      using rd.origin [of w pre p] assms rd by (auto simp: watch_run_def)
    then obtain sg where "e2 = Ev_signal sg" "signal_of (watch_run pre2 w) sg = Some (p, None)"
      by (cases e2) (auto split: option.splits)
    then show ?thesis using es pre Ev_read v unfolding heard_def
      by (intro exI [of _ pre2] exI [of _ sg] exI [of _ "post2 @ e # post"] exI [of _ None]) auto
  qed (use e in simp_all)
qed

definition announced ::
    "tree_reply \<Rightarrow> watch_event list \<Rightarrow> watcher \<Rightarrow> string \<Rightarrow> bool" where
  "announced tree es w p \<longleftrightarrow>
    (\<exists>objs b. managedObjects tree = Inr objs \<and> findBeacon (wt_adapter w) (wt_name w) objs = Some b \<and> sr_path b = p)
    \<or> (\<exists>pre e post. es = pre @ e # post \<and> names_device e (watch_run pre w) = Some p)"

lemma signal_of_tracks:
  assumes "signal_of w sg = Some (p, q)"
  shows "tracked (watch_step (Ev_signal sg) w) = Some p"
  using assms
  by (auto simp: signal_of_def observe_signal_def Let_def split: decoded.splits if_splits option.splits)

lemma heard_announced:
  assumes new: "newWatcher tree b m1 m2 tree2 aid name = Inr w" and "heard es w p r"
  shows "announced tree2 es w p"
proof -
  obtain pre sg post q where es: "es = pre @ Ev_signal sg # post"
    and "signal_of (watch_run pre w) sg = Some (p, q)"
    using assms(2) unfolding heard_def by blast
  then have "tracked (fold watch_step (pre @ [Ev_signal sg]) w) = Some p"
    using signal_of_tracks by (simp add: watch_run_def del: tracked.simps)
  then consider "tracked w = Some p"
    | pre2 e post2 where "pre @ [Ev_signal sg] = pre2 @ e # post2"
        "names_device e (watch_run pre2 w) = Some p"
    using trk.origin_or_kept [OF watch_inv_new [OF new]] unfolding watch_run_def by blast
  then show ?thesis
  proof cases
    case 1
    then show ?thesis using new
      by (auto simp: announced_def newWatcher_def split: sum.splits option.splits if_splits)
  next
    case 2
    then have "es = pre2 @ e # (post2 @ post)" using es by (simp flip: append_assoc)
    then show ?thesis using 2(2) unfolding announced_def by blast
  qed
qed

end
