(* ===== verification/Beacon_Presence.thy ===== *)
theory Beacon_Presence
  imports Beacon_Watcher Session_Properties
begin

text \<open>
  What the watcher promises to the presence loop, and what the two together do: the adapter chosen,
  the silence of a paused watcher, and that the phone connects only on a fresh advertisement of the
  vehicle.
\<close>

section \<open>The adapter\<close>

definition least_of :: "string set \<Rightarrow> string \<Rightarrow> bool" where
  "least_of S m \<longleftrightarrow> m \<in> S \<and> (\<forall>q \<in> S. \<not> bytes_less q m)"

lemma least_of_unique: "least_of S a \<Longrightarrow> least_of S b \<Longrightarrow> a = b"
  using bytes_less_total unfolding least_of_def by blast

lemma sorted_first_None [simp]: "sorted_first xs = None \<longleftrightarrow> xs = []"
  by (cases xs) (auto split: option.splits)

lemma sorted_first_least: "sorted_first xs = Some m \<Longrightarrow> least_of (set xs) m"
proof (induction xs arbitrary: m)
  case (Cons x xs)
  show ?case
  proof (cases "sorted_first xs")
    case None
    then show ?thesis using Cons.prems by (simp add: least_of_def)
  next
    case (Some n)
    then have "least_of (set xs) n" by (rule Cons.IH)
    then show ?thesis using Cons.prems Some bytes_less_total [of n x] bytes_less_trans [of _ x n]
      by (auto simp: least_of_def split: if_splits)
  qed
qed simp

lemma sorted_first_iff: "sorted_first xs = Some m \<longleftrightarrow> least_of (set xs) m"
proof
  assume m: "least_of (set xs) m"
  then have "xs \<noteq> []" by (auto simp: least_of_def)
  then obtain n where "sorted_first xs = Some n" by (cases "sorted_first xs") auto
  then show "sorted_first xs = Some m" using sorted_first_least least_of_unique m by blast
qed (rule sorted_first_least)

definition adapters :: "objects \<Rightarrow> string set" where
  "adapters objs = fst ` {x \<in> set objs. is_adapter x}"

definition powered_adapters :: "objects \<Rightarrow> string set" where
  "powered_adapters objs = fst ` {x \<in> set objs. is_adapter x \<and> adapterPoweredIn (snd x)}"

lemma find_named:
  assumes paths: "\<forall>x \<in> set objs. prefix ''/'' (fst x)" and id: "aid \<noteq> []" "hd aid \<noteq> CHR ''/''"
  shows "map_option fst (find (\<lambda>x. trim_prefix ''/org/bluez/'' (fst x) = aid) objs) = Some p \<longleftrightarrow>
    p = ''/org/bluez/'' @ aid \<and> p \<in> fst ` set objs"
proof -
  have trim: "trim_prefix ''/org/bluez/'' s = aid \<longleftrightarrow> s = ''/org/bluez/'' @ aid"
    if "prefix ''/'' s" for s
    using that id by (cases aid) (auto simp: trim_prefix_def prefix_def)
  then have *: "find (\<lambda>x. trim_prefix ''/org/bluez/'' (fst x) = aid) objs =
      find (\<lambda>x. fst x = ''/org/bluez/'' @ aid) objs"
    using paths by (intro find_cong) auto
  show ?thesis unfolding *
    by (induction objs) auto
qed

text \<open>C27: The choice of the Bluetooth adapter does not depend on the order in which the Go map of
  objects is walked.  With an adapter named in the settings, exactly that one is taken and no other.
  With none named, it is the least path, byte by byte, among the powered adapters, and among all
  adapters only when none is powered.  (Object paths begin with a slash, an adapter's name does not.)\<close>

theorem adapter_choice:
  assumes "\<forall>x \<in> set objs. prefix ''/'' (fst x)" and "hd aid \<noteq> CHR ''/'' \<or> aid = []"
  shows "findAdapter objs aid = Some p \<longleftrightarrow>
    (if aid \<noteq> [] then p = ''/org/bluez/'' @ aid \<and> p \<in> adapters objs
     else least_of (if powered_adapters objs \<noteq> {} then powered_adapters objs else adapters objs) p)"
proof (cases "aid = []")
  case False
  then show ?thesis using assms find_named [of "filter is_adapter objs" aid p]
    by (simp add: findAdapter_def adapters_def Let_def)
next
  case True
  let ?P = "map fst (filter (\<lambda>x. adapterPoweredIn (snd x)) (filter is_adapter objs))"
  let ?U = "map fst (filter (\<lambda>x. \<not> adapterPoweredIn (snd x)) (filter is_adapter objs))"
  have P: "set ?P = powered_adapters objs" by (auto simp: powered_adapters_def)
  have U: "set ?U = adapters objs" if "powered_adapters objs = {}"
    using that by (auto simp: powered_adapters_def adapters_def)
  have find: "findAdapter objs aid = (if ?P \<noteq> [] then sorted_first ?P else sorted_first ?U)"
    using True by (simp add: findAdapter_def Let_def)
  have "?P = [] \<longleftrightarrow> powered_adapters objs = {}" using P by (metis set_empty)
  then show ?thesis using True P U unfolding find sorted_first_iff by (auto simp: sorted_first_iff)
qed

text \<open>Two adapters, the second one powered.\<close>

definition sample_tree :: objects where
  "sample_tree =
    [(''/org/bluez/hci0'', [(''org.bluez.Adapter1'', [(''Powered'', V_bool False)])]),
     (''/org/bluez/hci1'', [(''org.bluez.Adapter1'', [(''Powered'', V_bool True)])])]"

theorem adapter_choice_witness:
  "findAdapter sample_tree [] = Some ''/org/bluez/hci1''
   \<and> (findAdapter sample_tree ''hci0'' = Some ''/org/bluez/hci0'')
   \<and> least_of (powered_adapters sample_tree) ''/org/bluez/hci1''"
proof -
  have paths: "\<forall>x \<in> set sample_tree. prefix ''/'' (fst x)" by (simp add: sample_tree_def)
  have found: "findAdapter sample_tree [] = Some ''/org/bluez/hci1''"
    "findAdapter sample_tree ''hci0'' = Some ''/org/bluez/hci0''" by code_simp+
  have "''/org/bluez/hci1'' \<in> powered_adapters sample_tree"
    unfolding powered_adapters_def
    by (rule image_eqI [of _ _ "sample_tree ! 1"])
      (simp_all add: sample_tree_def is_adapter_def adapterPoweredIn_def bus_prop_def)
  then have "powered_adapters sample_tree \<noteq> {}" by blast
  then have "least_of (powered_adapters sample_tree) ''/org/bluez/hci1''"
    using adapter_choice [OF paths, of "[]" "''/org/bluez/hci1''"] found by simp
  then show ?thesis using found by simp
qed

section \<open>The trace of a wait\<close>

lemma wait_rounds_trace:
  assumes "wait_rounds xs w = (w', Inr (Some q))"
  shows "\<exists>es x. x \<in> set xs \<and> w' = watch_run (es @ [Ev_take (wr_now x)]) w
    \<and> snd (take_pending (wr_now x) (watch_run es w)) = Some q"
  using assms
proof (induction xs arbitrary: w)
  case (Cons x xs)
  obtain w1 o1 where t: "take_pending (wr_now x) w = (w1, o1)" by force
  then have w1: "watch_step (Ev_take (wr_now x)) w = w1" by simp
  show ?case
  proof (cases o1)
    case (Some r)
    then have "w' = w1" "r = q" using Cons.prems t by (auto split: if_splits)
    then have "x \<in> set (x # xs) \<and> w' = watch_run ([] @ [Ev_take (wr_now x)]) w
        \<and> snd (take_pending (wr_now x) (watch_run [] w)) = Some q"
      using t w1 Some by (simp del: watch_step.simps)
    then show ?thesis by blast
  next
    case None
    let ?w2 = "watch_run (wr_events x) w1"
    let ?w3 = "watch_step (Ev_discover (wr_replies x)) (watch_step Ev_woken ?w2)"
    have "wait_rounds xs ?w3 = (w', Inr (Some q))"
      using Cons.prems t None by (auto simp: Let_def split: if_splits prod.splits option.splits)
    then obtain es y where *: "y \<in> set xs" "w' = watch_run (es @ [Ev_take (wr_now y)]) ?w3"
        "snd (take_pending (wr_now y) (watch_run es ?w3)) = Some q"
      using Cons.IH by blast
    let ?es = "[Ev_take (wr_now x)] @ wr_events x @ [Ev_woken, Ev_discover (wr_replies x)] @ es"
    have "watch_run ?es w = watch_run es ?w3" unfolding watch_run_append watch_run_Cons w1 by simp
    then show ?thesis using *
      by (intro exI [of _ ?es] exI [of _ y]) (simp only: watch_run_append list.set insert_iff simp_thms)
  qed
qed simp

lemma wait_trace:
  assumes "WaitBeacon b xs w = (w', Inr (Some q))"
  shows "\<exists>es x. x \<in> set xs \<and> w' = watch_run (es @ [Ev_take (wr_now x)]) w
    \<and> snd (take_pending (wr_now x) (watch_run es w)) = Some q"
proof -
  have "wait_rounds xs (watch_step (Ev_discover b) w) = (w', Inr (Some q))"
    using assms by (auto simp: WaitBeacon_def split: prod.splits option.splits)
  then obtain es x where *: "x \<in> set xs"
      "w' = watch_run (es @ [Ev_take (wr_now x)]) (watch_step (Ev_discover b) w)"
      "snd (take_pending (wr_now x) (watch_run es (watch_step (Ev_discover b) w))) = Some q"
    using wait_rounds_trace by blast
  then show ?thesis by (intro exI [of _ "Ev_discover b # es"] exI [of _ x]) simp
qed

lemma take_pending_last:
  "snd (take_pending now w) = Some q \<Longrightarrow>
   \<exists>t. last_heard w = Some (q, t) \<and> now - t \<le> 5 * SECOND \<and> \<not> wt_paused w"
  by (auto simp: take_pending_def split: option.splits if_splits)

text \<open>
  A beacon that a wait returns was recorded at a time at most five seconds before the pass that takes
  it, with no pause, stop or earlier take in between; and what was recorded came from a signal.
\<close>

definition fresh_from :: "watch_event list \<Rightarrow> watcher \<Rightarrow> int \<Rightarrow> scan_result \<Rightarrow> bool" where
  "fresh_from es w now q \<longleftrightarrow>
    (\<exists>pre t post. es = pre @ Ev_record t # post \<and> now - t \<le> 5 * SECOND
      \<and> (\<forall>e \<in> set post. e \<noteq> Ev_pause \<and> e \<noteq> Ev_stop \<and> (\<forall>n. e \<noteq> Ev_take n))
      \<and> \<not> wt_paused (watch_run pre w) \<and> heard pre w (sr_path q) (sr_rssi q))"

lemma forgets_iff: "forgets e \<longleftrightarrow> e = Ev_pause \<or> e = Ev_stop \<or> (\<exists>n. e = Ev_take n)"
  by (cases e) simp_all

lemma new_watcher:
  assumes "newWatcher tree b m1 m2 tree2 aid name = Inr w"
  shows "watch_inv w" "wt_obs w = Ob_idle" "last_heard w = None" "wt_name w = name"
  using assms watch_inv_new [OF assms]
  by (auto simp: newWatcher_def split: sum.splits option.splits)

lemma take_fresh:
  assumes new: "newWatcher tree b m1 m2 tree2 aid name = Inr w"
    and take: "snd (take_pending now (watch_run es w)) = Some q"
  shows "fresh_from es w now q" "sr_has q" "sr_name q = name"
proof -
  obtain t where t: "last_heard (watch_run es w) = Some (q, t)" "now - t \<le> 5 * SECOND"
    using take_pending_last [OF take] by blast
  obtain pre e post where es: "es = pre @ e # post"
    and e: "records e (watch_run pre w) = Some (q, t)" and post: "\<forall>x \<in> set post. \<not> forgets x"
    using pend.origin [of w es "(q, t)"] t(1) new_watcher [OF new]
    unfolding watch_run_def by blast
  then obtain p r had where r: "e = Ev_record t" "wt_obs (watch_run pre w) = Ob_holding p r had"
      "\<not> wt_paused (watch_run pre w)"
      "q = \<lparr>sr_path = p, sr_name = wt_name w, sr_rssi = r, sr_has = True\<rparr>"
    by (cases e) (auto split: observing.splits if_splits)
  have "heard pre w p r"
    using holding_heard [of w pre p r] new_watcher [OF new] r(2) by simp
  then have heard: "heard pre w (sr_path q) (sr_rssi q)" unfolding r(4) by simp
  have "\<forall>e \<in> set post. e \<noteq> Ev_pause \<and> e \<noteq> Ev_stop \<and> (\<forall>n. e \<noteq> Ev_take n)"
    using post unfolding forgets_iff by blast
  with es t(2) r(3) heard show "fresh_from es w now q" unfolding fresh_from_def r(1) by blast
  show "sr_has q" "sr_name q = name" using r(4) new_watcher [OF new] by simp_all
qed

section \<open>The one-shot scan\<close>

text \<open>It stops discovery only when it started it, and finds only a device with the name.\<close>

lemma findBeacon_sound:
  "findBeacon a n objs = Some q \<Longrightarrow> \<exists>x \<in> set objs. beacon_at a n x = Some q"
  by (induction objs) (auto split: option.splits)

lemma scan_leaves_discovery:
  assumes "adapterIsDiscovering (rp_discovering b) = Inr True"
  shows "Stop_discovery \<notin> set (fst (scan_beacon b tree polls aid name))"
  using assms by (auto simp: scan_beacon_def ensurePowered_def Let_def
      split: sum.splits option.splits prod.splits bool.splits)

section \<open>A paused watcher\<close>

lemma paused_step:
  "wt_paused w \<Longrightarrow> e \<noteq> Ev_resume \<Longrightarrow> wt_paused (watch_step e w)"
  by (cases e) (auto simp: watch_ops frame_simps)

lemma paused_run:
  "wt_paused w \<Longrightarrow> Ev_resume \<notin> set es \<Longrightarrow> wt_paused (watch_run es w)"
  by (induction es arbitrary: w) (auto simp: paused_step)

lemma paused_rounds:
  assumes "wt_paused w" "\<forall>x \<in> set xs. Ev_resume \<notin> set (wr_events x)"
  shows "snd (wait_rounds xs w) \<in> {Inr None, Inl W_listener_stopped}
    \<and> wt_paused (fst (wait_rounds xs w))"
  using assms
proof (induction xs arbitrary: w)
  case (Cons x xs)
  obtain w1 where w1: "take_pending (wr_now x) w = (w1, None)" "wt_paused w1"
    using Cons.prems by (simp add: take_pending_def)
  let ?w2 = "watch_run (wr_events x) w1"
  have p: "wt_paused ?w2" by (rule paused_run) (use w1 Cons.prems in simp_all)
  then have "ensureDiscovering (wr_replies x) (watch_step Ev_woken ?w2)
      = (watch_step Ev_woken ?w2, [], None)"
    by (simp add: ensureDiscovering_def)
  moreover have "wt_paused (watch_step Ev_woken ?w2)" using p by simp
  ultimately show ?case using Cons.IH [of "watch_step Ev_woken ?w2"] Cons.prems p w1
    by (simp add: Let_def)
qed simp

text \<open>From the moment a watcher is paused (the loop pauses it while a GATT link is up) until it is
  resumed, whatever signals arrive and whatever else happens, it stays quiet: nothing it does powers
  the adapter or starts discovery again, and a wait returns no beacon (it ends with its deadline, or
  because the observer has gone).\<close>

theorem pause_keeps_radio_quiet:
  assumes "Ev_resume \<notin> set es"
    and "\<forall>x \<in> set rounds. Ev_resume \<notin> set (wr_events x)"
  shows "let w1 = watch_run es (fst (PauseWatch w))
    in ensureDiscovering b w1 = (w1, [], None)
       \<and> snd (WaitBeacon b2 rounds w1) \<in> {Inr None, Inl W_listener_stopped}
       \<and> ensureDiscovering b (fst (WaitBeacon b2 rounds w1)) = (fst (WaitBeacon b2 rounds w1), [], None)"
proof -
  let ?w1 = "watch_run es (fst (PauseWatch w))"
  have p: "wt_paused ?w1" by (rule paused_run) (simp_all add: PauseWatch_def assms)
  moreover have "WaitBeacon b2 rounds ?w1 = wait_rounds rounds ?w1"
    using p by (simp add: WaitBeacon_def ensureDiscovering_def)
  ultimately show ?thesis using paused_rounds [OF p assms(2)]
    by (simp add: ensureDiscovering_def Let_def)
qed

text \<open>A watcher that has just found the vehicle, and a strong advertisement of it.\<close>

definition sample_replies :: bus_replies where
  "sample_replies =
    \<lparr>rp_powered = Inr (V_bool True), rp_set_powered = None, rp_powered_again = Inr (V_bool True),
     rp_discovering = Inr (V_bool True), rp_start = None\<rparr>"

abbreviation sample_name :: string where "sample_name \<equiv> ''S0123456789abcdefC''"
abbreviation sample_device :: string where "sample_device \<equiv> ''/org/bluez/hci1/dev_AA''"

definition sample_devices :: objects where
  "sample_devices = sample_tree @
    [(sample_device, [(''org.bluez.Device1'', [(''Name'', V_string sample_name)])])]"

definition sample_watcher :: watcher where
  "sample_watcher =
    (case newWatcher (Inr [T_objects sample_tree]) sample_replies None None (Inr [T_objects sample_devices]) [] sample_name of
       Inr w \<Rightarrow> w)"

definition sample_advert :: signal where
  "sample_advert =
    \<lparr>sg_name = ''org.freedesktop.DBus.Properties.PropertiesChanged'', sg_path = sample_device,
     sg_body = [B_string ''org.bluez.Device1'', B_props [(''RSSI'', V_int16 (- 60))], B_other]\<rparr>"

definition sample_round :: wait_round where
  "sample_round =
    \<lparr>wr_now = 2 * SECOND, wr_expired = False, wr_events = [], wr_replies = sample_replies\<rparr>"

theorem pause_keeps_radio_quiet_witness:
  "let w1 = watch_run [Ev_signal sample_advert, Ev_record SECOND]
       (fst (PauseWatch (watch_step (Ev_signal sample_advert) sample_watcher)))
   in ensureDiscovering sample_replies w1 = (w1, [], None)
      \<and> snd (WaitBeacon sample_replies [sample_round] w1) \<in> {Inr None, Inl W_listener_stopped}"
  using pause_keeps_radio_quiet [where es = "[Ev_signal sample_advert, Ev_record SECOND]"
      and rounds = "[sample_round]" and b = sample_replies and ?b2.0 = sample_replies
      and w = "watch_step (Ev_signal sample_advert) sample_watcher"]
  by (simp add: sample_round_def Let_def del: watch_step.simps watch_run_Cons)

section \<open>From an advertisement to a connection\<close>

text \<open>The beacon as the session keeps it; \<^verbatim>\<open>ref\<close> names object paths.\<close>

definition session_beacon :: "(string \<Rightarrow> nat) \<Rightarrow> scan_result \<Rightarrow> beacon" where
  "session_beacon ref q =
    \<lparr>b_ref = ref (sr_path q), b_rssi = (if sr_has q then Some (sint (sr_rssi q)) else None)\<rparr>"

lemma tick_connects:
  assumes "tick_down r c b k s = (k', s')" "vs_link s = None" "vs_link s' \<noteq> None"
  shows "presence_live_near (beacon_live b) (beacon_rssi b) (near_rssi c)"
proof (rule ccontr)
  assume "\<not> ?thesis"
  then have "s' = store_beacon (r_begin r) b s
      \<or> s' = presence_depart (r_end r) (store_beacon (r_begin r) b s)"
    using assms(1) by (auto simp: tick_down_def Let_def split: prod.splits if_splits)
  then show False using assms(2,3) by (auto simp: store_beacon_def presence_depart_def frame_simps)
qed

lemma announced_append: "announced tree es w p \<Longrightarrow> announced tree (es @ es2) w p"
  unfolding announced_def by fastforce

text \<open>C18: The phone key connects only because the vehicle has just been heard.  When a tick of the
  presence loop with the link down ends with a link, the watcher's wait had returned a beacon; a
  D-Bus signal about the very device on which the vehicle's advertising name had been announced
  (in the object tree the watcher started from, or later) carried its strength, or announced an
  advertisement whose strength was then read; that strength, as a signed 16-bit number, reaches the
  near threshold; it was recorded at most five seconds before it was used, while the watcher was not
  paused, and neither a pause nor a stop nor another use came in between.  So a cached device that no
  longer advertises never makes the phone connect.\<close>

theorem arrival_rests_on_advertisement:
  assumes new: "newWatcher tree b m1 m2 tree2 aid name = Inr w0"
    and wait: "WaitBeacon b2 rounds (watch_run es w0) = (w', Inr got)"
    and tick: "tick_down r c (map_option (session_beacon ref) got) k s = (k', s')"
      "vs_link s = None" "vs_link s' \<noteq> None"
  shows "\<exists>q es2 x. got = Some q \<and> x \<in> set rounds \<and> sr_name q = name
    \<and> near_rssi c \<le> sint (sr_rssi q)
    \<and> fresh_from (es @ es2) w0 (wr_now x) q \<and> announced tree2 (es @ es2) w0 (sr_path q)
    \<and> w' = watch_run (es @ es2 @ [Ev_take (wr_now x)]) w0"
proof -
  have live: "presence_live_near (beacon_live (map_option (session_beacon ref) got))
      (beacon_rssi (map_option (session_beacon ref) got)) (near_rssi c)"
    by (rule tick_connects [OF tick])
  then obtain q where q: "got = Some q" by (cases got) (auto simp: beacon_live_def presence_live_near_def)
  obtain es2 x where x: "x \<in> set rounds"
      "w' = watch_run (es2 @ [Ev_take (wr_now x)]) (watch_run es w0)"
      "snd (take_pending (wr_now x) (watch_run es2 (watch_run es w0))) = Some q"
    using wait_trace wait unfolding q by blast
  have take: "snd (take_pending (wr_now x) (watch_run (es @ es2) w0)) = Some q"
    using x(3) by simp
  note fresh = take_fresh [OF new take]
  then obtain pre t post where "es @ es2 = pre @ Ev_record t # post"
      "heard pre w0 (sr_path q) (sr_rssi q)"
    unfolding fresh_from_def by blast
  then have "announced tree2 (es @ es2) w0 (sr_path q)"
    using announced_append heard_announced [OF new] by metis
  moreover have "near_rssi c \<le> sint (sr_rssi q)"
    using live fresh(2) q
    by (simp add: presence_live_near_def beacon_rssi_def session_beacon_def)
  ultimately show ?thesis using q x fresh by auto
qed

lemma sample_wait:
  "snd (WaitBeacon sample_replies [sample_round]
      (watch_run [Ev_signal sample_advert, Ev_record SECOND] sample_watcher)) =
   Inr (Some \<lparr>sr_path = sample_device, sr_name = sample_name, sr_rssi = - 60, sr_has = True\<rparr>)"
  by code_simp

lemma sample_tick:
  "vs_link (snd (tick_down (sample_radio 0) default_presence_config
      (Some \<lparr>b_ref = 5, b_rssi = Some (- 60)\<rparr>) \<lparr>k_near = False, k_consec = 0, k_last = 0\<rparr>
      sample_new)) \<noteq> None"
  by code_simp

lemma sample_watcher_new:
  "newWatcher (Inr [T_objects sample_tree]) sample_replies None None (Inr [T_objects sample_devices]) [] sample_name =
   Inr sample_watcher"
proof -
  have "is_ok (newWatcher (Inr [T_objects sample_tree]) sample_replies None None (Inr [T_objects sample_devices]) []
      sample_name)"
    by code_simp
  then show ?thesis unfolding sample_watcher_def
    by (cases "newWatcher (Inr [T_objects sample_tree]) sample_replies None None (Inr [T_objects sample_devices]) []
      sample_name") simp_all
qed

theorem arrival_rests_on_advertisement_witness:
  "\<exists>q es2. fresh_from ([Ev_signal sample_advert, Ev_record SECOND] @ es2) sample_watcher (2 * SECOND) q
     \<and> announced (Inr [T_objects sample_devices]) ([Ev_signal sample_advert, Ev_record SECOND] @ es2)
         sample_watcher (sr_path q)
     \<and> near_rssi default_presence_config \<le> sint (sr_rssi q)"
proof -
  let ?es = "[Ev_signal sample_advert, Ev_record SECOND]"
  let ?q = "\<lparr>sr_path = sample_device, sr_name = sample_name, sr_rssi = - 60, sr_has = True\<rparr> :: scan_result"
  let ?k = "\<lparr>k_near = False, k_consec = 0, k_last = 0\<rparr> :: tracker"
  have wait: "WaitBeacon sample_replies [sample_round] (watch_run ?es sample_watcher) =
      (fst (WaitBeacon sample_replies [sample_round] (watch_run ?es sample_watcher)), Inr (Some ?q))"
    using sample_wait by (simp only: prod_eq_iff fst_conv snd_conv simp_thms)
  have "map_option (session_beacon (\<lambda>_. 5)) (Some ?q) = Some \<lparr>b_ref = 5, b_rssi = Some (- 60)\<rparr>"
    by (simp add: session_beacon_def)
  then obtain k' s' where tick: "tick_down (sample_radio 0) default_presence_config
      (map_option (session_beacon (\<lambda>_. 5)) (Some ?q)) ?k sample_new = (k', s')" "vs_link s' \<noteq> None"
    using sample_tick by (metis prod.collapse)
  have "vs_link sample_new = None" by (simp add: sample_new_def fresh_session_def)
  from arrival_rests_on_advertisement [OF sample_watcher_new wait tick(1) this tick(2)]
  obtain q es2 x where "x \<in> set [sample_round]" "fresh_from (?es @ es2) sample_watcher (wr_now x) q"
      "announced (Inr [T_objects sample_devices]) (?es @ es2) sample_watcher (sr_path q)"
      "near_rssi default_presence_config \<le> sint (sr_rssi q)"
    by blast
  moreover from this(1) have "wr_now x = 2 * SECOND" by (simp add: sample_round_def)
  ultimately show ?thesis by metis
qed

end
