(* ===== verification/Session_Refinement.thy ===== *)
theory Session_Refinement
  imports Session_Properties
begin

text \<open>
  The abstract machine the session process implements: a phone key that is away or holds one link to
  the vehicle with a growing set of authenticated subsystems.  Every section of the detailed model is
  one step of it.
\<close>

section \<open>The abstract machine\<close>

datatype phase = Away | Linked nat "domain set"

text \<open>\<^verbatim>\<open>am_next\<close> is above every link number used so far.\<close>

record machine =
  am_presence :: bool
  am_next :: nat
  am_phase :: phase

inductive link_step :: "machine \<Rightarrow> machine \<Rightarrow> bool" where
  keep: "am_phase a = Away \<Longrightarrow> am_phase b = Away \<Longrightarrow> am_next a \<le> am_next b \<Longrightarrow> link_step a b"
| authenticate: "am_phase a = Linked i ds \<Longrightarrow> am_phase b = Linked i es \<Longrightarrow> ds \<subseteq> es \<Longrightarrow>
    am_next a \<le> am_next b \<Longrightarrow> link_step a b"
| connect: "am_phase a = Away \<Longrightarrow> am_phase b = Linked i es \<Longrightarrow> es \<noteq> {} \<Longrightarrow>
    am_next a \<le> i \<Longrightarrow> i < am_next b \<Longrightarrow> link_step a b"
| disconnect: "am_phase a = Linked i ds \<Longrightarrow> am_phase b = Away \<Longrightarrow> am_next a \<le> am_next b \<Longrightarrow>
    link_step a b"

inductive_cases link_stepE: "link_step a b"

definition phase_of :: "vsess \<Rightarrow> phase" where
  "phase_of s =
    (case vs_link s of None \<Rightarrow> Away | Some l \<Rightarrow> Linked (l_id l) (set (l_ready l)))"

definition abs_session :: "vsess \<Rightarrow> machine" where
  "abs_session s = \<lparr>am_presence = vs_presence s, am_next = vs_fresh s, am_phase = phase_of s\<rparr>"

section \<open>Lemmas\<close>

lemma abs_simps [simp]:
  "am_presence (abs_session s) = vs_presence s" "am_next (abs_session s) = vs_fresh s"
  "am_phase (abs_session s) = phase_of s"
  by (simp_all add: abs_session_def)

lemma phase_none [simp]: "vs_link s = None \<Longrightarrow> phase_of s = Away"
  by (simp add: phase_of_def)

lemma step_down:
  "vs_link t = None \<Longrightarrow> vs_fresh s \<le> vs_fresh t \<Longrightarrow> link_step (abs_session s) (abs_session t)"
  by (cases "phase_of s") (auto intro: link_step.intros)

lemma step_same:
  "vs_link t = vs_link s \<Longrightarrow> vs_fresh s \<le> vs_fresh t \<Longrightarrow> link_step (abs_session s) (abs_session t)"
  by (cases "phase_of s") (auto simp: phase_of_def intro: link_step.intros split: option.splits)

text \<open>Later work of the same section that neither opens a link nor changes the one there is.\<close>

lemma step_then:
  assumes "link_step (abs_session s) (abs_session t)"
    and "vs_link u = vs_link t \<or> vs_link u = None" and "vs_fresh t \<le> vs_fresh u"
  shows "link_step (abs_session s) (abs_session u)"
proof (cases "vs_link u = None")
  case True
  have "vs_fresh s \<le> vs_fresh t" using assms(1) by (auto elim: link_stepE)
  with True assms(3) show ?thesis by (intro step_down) auto
next
  case False
  then have p: "phase_of u = phase_of t" using assms(2) by (auto simp: phase_of_def)
  from assms(1) show ?thesis
  proof cases
    case (authenticate i ds es)
    with p assms(3) show ?thesis by (intro link_step.authenticate) auto
  next
    case (connect i es)
    with p assms(3) show ?thesis by (intro link_step.connect) auto
  qed (use p assms(3) in \<open>auto intro: link_step.intros\<close>)
qed

lemma fresh_simps [simp]:
  "vs_fresh (reset_idle n s) = vs_fresh s" "vs_link (reset_idle n s) = vs_link s"
  "vs_fresh (emit_disconnected n e s) = vs_fresh s" "vs_link (emit_disconnected n e s) = vs_link s"
  "vs_fresh (stop_presence s) = vs_fresh s" "vs_link (stop_presence s) = vs_link s"
  by (simp_all add: reset_idle_def emit_disconnected_def stop_presence_def stop_tap_def)

lemma prime_link:
  "(vs_link (prime_vcsec r s) = vs_link s \<or> vs_link (prime_vcsec r s) = None)
   \<and> vs_fresh (prime_vcsec r s) = vs_fresh s"
  by (auto simp: prime_vcsec_def Let_def split: sum.splits)

lemma ensure_step:
  assumes "sess_inv s" "c \<notin> set commandsWithoutSession" "ensure_connected r c t s = (s1, e)"
  shows "link_step (abs_session s) (abs_session s1)"
proof (cases "vs_link s")
  case None
  from None assms(3) show ?thesis
  proof (cases rule: ensure_fresh_cases)
    case (failed b)
    then show ?thesis by (intro step_same) auto
  next
    case (opened b)
    let ?l = "\<lparr>l_id = vs_fresh s, l_bluez = (vs_backend s = ''bluez''), l_ready = []\<rparr>"
    let ?t = "ensure_tap (s\<lparr>vs_bus := b, vs_link := Some ?l, vs_fresh := vs_fresh s + 1\<rparr>)"
    obtain rd x where h: "StartSession (r_rounds r) (sessionDomains c) [] = (rd, x)" by fastforce
    have f: "vs_fresh s < vs_fresh ?t"
      using ensure_tap_fields(3) [of "s\<lparr>vs_bus := b, vs_link := Some ?l, vs_fresh := vs_fresh s + 1\<rparr>"]
      by simp
    show ?thesis
    proof (cases x)
      case None
      then have "rd \<noteq> []" using StartSession_bounds [OF h] by auto
      moreover have "vs_link s1 = Some (?l\<lparr>l_ready := rd\<rparr>)" "vs_fresh s1 = vs_fresh ?t"
        using opened assms(2) h None by (auto simp: open_link_def Let_def)
      ultimately show ?thesis using f \<open>vs_link s = None\<close>
        by (intro link_step.connect [where i = "vs_fresh s" and es = "set rd"]) (auto simp: phase_of_def)
    next
      case (Some y)
      then have "s1 = teardown ?t" using opened assms(2) h by (auto simp: open_link_def Let_def)
      then show ?thesis using f by (intro step_down) auto
    qed
  qed
next
  case (Some l)
  show ?thesis
  proof (cases "sessionDomains c")
    case None
    then have "s1 = ensure_tap s" using assms(2,3) Some by (simp add: ensure_connected_def)
    then show ?thesis by (intro step_same) auto
  next
    case ds: (Some ds)
    obtain rd x where h: "StartSession (r_rounds r) (Some ds) (l_ready l) = (rd, x)" by fastforce
    have "set (l_ready l) \<subseteq> set rd"
      using StartSession_bounds [OF h] requested_domains [of c] ds by auto
    moreover have "s1 = (ensure_tap s)\<lparr>vs_link := Some (l\<lparr>l_ready := rd\<rparr>)\<rparr>"
      using assms(2,3) Some ds h by (simp add: ensure_connected_def)
    ultimately show ?thesis using Some
      by (intro link_step.authenticate [where i = "l_id l"]) (auto simp: phase_of_def)
  qed
qed

lemma command_step:
  assumes "sess_inv s"
  shows "link_step (abs_session s) (abs_session (fst (dispatch_command r c as s)))"
proof -
  obtain s1 e where e: "ensure_connected r c (presence_target s) s = (s1, e)" by fastforce
  show ?thesis
  proof (cases "c \<in> set commandsWithoutSession")
    case False
    from ensure_step [OF assms this e] show ?thesis
      using False e by (auto simp: dispatch_command_def Let_def intro: step_then split: option.splits)
  next
    case True
    have fresh: "vs_fresh s \<le> vs_fresh s1"
    proof (cases "vs_link s")
      case None
      from None e show ?thesis
      proof (cases rule: ensure_fresh_cases)
        case (opened b)
        then show ?thesis using True by (auto simp: open_link_def Let_def)
      qed simp
    qed (use e True in \<open>auto simp: ensure_connected_def\<close>)
    show ?thesis
    proof (cases e)
      case None
      then show ?thesis using e True fresh
        by (intro step_down) (auto simp: dispatch_command_def Let_def)
    next
      case (Some x)
      have "vs_link s1 = None \<or> s1 = s"
      proof (cases "vs_link s")
        case None
        from None e show ?thesis
        proof (cases rule: ensure_fresh_cases)
          case (opened b)
          then show ?thesis using Some True by (auto simp: open_link_def Let_def)
        qed (use None in simp)
      qed (use e Some True in \<open>simp add: ensure_connected_def\<close>)
      then show ?thesis using e Some fresh
        by (auto simp: dispatch_command_def intro: step_down step_same)
    qed
  qed
qed

lemma presence_connect_step:
  assumes "sess_inv s"
  shows "link_step (abs_session s) (abs_session (fst (presence_connect r t s)))"
proof -
  obtain s1 e where e: "ensure_connected r [] t s = (s1, e)" by fastforce
  have 1: "link_step (abs_session s) (abs_session s1)"
    using ensure_step [OF assms _ e] by (simp add: commandsWithoutSession_def)
  have 2: "(vs_link (prime_vcsec r (ensure_tap (s1\<lparr>vs_quiet := q\<rparr>))) = vs_link s1
      \<or> vs_link (prime_vcsec r (ensure_tap (s1\<lparr>vs_quiet := q\<rparr>))) = None)
    \<and> vs_fresh s1 \<le> vs_fresh (prime_vcsec r (ensure_tap (s1\<lparr>vs_quiet := q\<rparr>)))" for q
    using prime_link [of r "ensure_tap (s1\<lparr>vs_quiet := q\<rparr>)"]
      ensure_tap_fields(3) [of "s1\<lparr>vs_quiet := q\<rparr>"] by auto
  from 1 show ?thesis
    by (rule step_then) (use e 2 in \<open>auto simp: presence_connect_def Let_def split: option.splits\<close>)
qed

lemma keygen_step: "link_step (abs_session s) (abs_session (fst (dispatch_keygen k w as s)))"
proof -
  have "vs_link (fst (dispatch_keygen k w as s)) \<in> {vs_link s, None}
      \<and> vs_fresh (fst (dispatch_keygen k w as s)) = vs_fresh s"
    by (auto simp: dispatch_keygen_def Let_def
        split: key_file.splits option.splits sum.splits prod.splits)
  then show ?thesis by (auto intro: step_down step_same)
qed

lemma quiet_step:
  "vs_link t \<in> {vs_link s, None} \<Longrightarrow> vs_fresh s \<le> vs_fresh t \<Longrightarrow>
   link_step (abs_session s) (abs_session t)"
  by (auto intro: step_down step_same)

lemma step_links:
  assumes "sess_inv s"
  shows "link_step (abs_session s) (abs_session (sess_step op s))"
proof (cases op)
  case (Do_pair r as)
  have "fst (dispatch_pair r as s) \<in> {s, fst (dispatch_command r ''add-key-request'' as s)}"
    by (auto simp: dispatch_pair_def split: sum.splits key_file.splits)
  then show ?thesis using Do_pair command_step [OF assms] by (auto intro: step_same)
next
  case (Do_nav_connect r)
  obtain s1 e where e: "ensure_connected r [] (presence_target s) s = (s1, e)" by fastforce
  show ?thesis using Do_nav_connect e ensure_step [OF assms _ e]
    by (simp add: commandsWithoutSession_def)
next
  case (Do_tick_up r)
  then show ?thesis using prime_link [of r s]
    by (auto simp: tick_up_def emit_inside_def intro!: quiet_step)
next
  case (Do_auth p f n i)
  have "vs_link (fst (auth_respond p f n i s)) \<in> {vs_link s, None}
      \<and> vs_fresh (fst (auth_respond p f n i s)) = vs_fresh s"
    by (simp add: auth_respond_def Let_def split: option.split list.split)
  then show ?thesis using Do_auth quiet_step by simp
qed (use command_step [OF assms] presence_connect_step [OF assms] keygen_step in
  \<open>auto simp: navigate_send_def dispatch_presence_start_def dispatch_presence_stop_def shutdown_def
    idle_fires_def link_lost_def store_beacon_def presence_depart_def loop_ends_def inbound_def
    intro!: quiet_step split: option.splits sum.splits\<close>)

text \<open>Presence mode under each section.\<close>

lemma presence_simps [simp]:
  "vs_presence (reset_idle n s) = vs_presence s"
  "vs_presence (emit_disconnected n e s) = vs_presence s"
  "\<not> vs_presence (stop_presence s)"
  by (simp_all add: reset_idle_def emit_disconnected_def stop_presence_def stop_tap_def)

lemma prime_presence [simp]: "vs_presence (prime_vcsec r s) = vs_presence s"
  by (simp add: prime_vcsec_def Let_def split: sum.splits)

lemma open_presence: "open_link r c s = (t, e) \<Longrightarrow> vs_presence t = vs_presence s"
  by (auto simp: open_link_def Let_def split: if_splits prod.splits option.splits)

lemma ensure_presence:
  assumes e: "ensure_connected r c b s = (t, e)"
  shows "vs_presence t = vs_presence s"
proof (cases "vs_link s")
  case None
  from None e show ?thesis by (cases rule: ensure_fresh_cases) (auto dest: open_presence)
next
  case (Some l)
  with e show ?thesis
    by (auto simp: ensure_connected_def Let_def split: if_splits prod.splits option.splits)
qed

lemma command_presence: "vs_presence (fst (dispatch_command r c as s)) = vs_presence s"
  by (cases "ensure_connected r c (presence_target s) s")
    (auto simp: dispatch_command_def Let_def dest: ensure_presence split: option.splits)

lemma presence_step_only_start:
  "vs_presence (sess_step op s) \<Longrightarrow> vs_presence s \<or> (\<exists>c. op = Do_presence_start (Some c))"
proof (cases op)
  case (Do_nav_connect r)
  assume "vs_presence (sess_step op s)"
  with Do_nav_connect show ?thesis
    by (cases "ensure_connected r [] (presence_target s) s") (auto dest: ensure_presence)
next
  case (Do_presence_connect r t)
  assume "vs_presence (sess_step op s)"
  with Do_presence_connect show ?thesis
    by (cases "ensure_connected r [] t s")
      (auto simp: presence_connect_def Let_def dest: ensure_presence split: option.splits)
next
  case (Do_pair r as)
  assume "vs_presence (sess_step op s)"
  with Do_pair show ?thesis using command_presence [of r _ as s]
    by (auto simp: dispatch_pair_def split: sum.splits key_file.splits if_splits)
next
  case (Do_auth p f n i)
  assume "vs_presence (sess_step op s)"
  with Do_auth show ?thesis
    by (auto simp: auth_respond_def Let_def split: option.splits list.splits if_splits)
qed (auto simp: command_presence navigate_send_def dispatch_presence_start_def dispatch_presence_stop_def
    shutdown_def idle_fires_def link_lost_def store_beacon_def presence_depart_def loop_ends_def
    inbound_def tick_up_def emit_inside_def dispatch_keygen_def Let_def
    split: option.splits sum.splits if_splits key_file.splits)

section \<open>Properties\<close>

text \<open>
  C6: The session process implements the abstract link machine.  Under every interleaving each
  section is one of its steps: stay as it is, authenticate further subsystems on the link there is,
  open one link under a number never used before with at least one subsystem authenticated, or drop
  the link; and presence mode is switched on by a presence-start request only.
\<close>

theorem session_refines_link_machine:
  fixes ops backend idle key
  defines "s \<equiv> sess_run ops (fresh_session backend idle key)"
  shows "link_step (abs_session s) (abs_session (sess_step op s))
    \<and> (am_presence (abs_session (sess_step op s)) \<longrightarrow>
         am_presence (abs_session s) \<or> (\<exists>c. op = Do_presence_start (Some c)))"
  unfolding s_def using step_links [OF inv_run [OF inv_fresh_session]] presence_step_only_start by auto

theorem session_refines_link_machine_witness:
  "phase_of (sess_run (butlast arrive_ops) sample_new) = Away \<and> phase_of sample_near = Linked 0 {VCSEC}
   \<and> link_step (abs_session (sess_run (butlast arrive_ops) sample_new)) (abs_session sample_near)"
proof -
  let ?op = "Do_presence_connect (sample_radio 0) (Some sample_beacon)"
  have "vs_link (sess_run (butlast arrive_ops) sample_new) = None" by code_simp
  then have a: "phase_of (sess_run (butlast arrive_ops) sample_new) = Away" by simp
  have b: "sample_near = sess_step ?op (sess_run (butlast arrive_ops) sample_new)"
    by (simp add: sample_near_def arrive_ops_def sess_run_def)
  have "link_step (abs_session (sess_run (butlast arrive_ops) sample_new))
      (abs_session (sess_step ?op (sess_run (butlast arrive_ops) sample_new)))"
    unfolding sample_new_def
    using session_refines_link_machine [of "butlast arrive_ops" "''bluez''" "90 * SECOND"
        "Key_file ''K'' (Some ''PEM'')" ?op] by simp
  with a b show ?thesis using sample_near_link by (simp add: phase_of_def)
qed

end
