(* ===== verification/Presence_Scanner.thy ===== *)
theory Presence_Scanner
  imports Beacon_Presence Session_Refinement
begin

text \<open>
  The presence loop's scanner beside the session, \<^verbatim>\<open>presenceLoop\<close> and \<^verbatim>\<open>runPresenceWatcher\<close> of
  \<^verbatim>\<open>helper/session/main.go\<close>: which watcher is registered with the session, who pauses and resumes
  it, and the sections of \<^verbatim>\<open>ensureConnectedLocked\<close> that pause it before they use the radio.  Every
  step is one section under the session's mutex or one event of a watcher, in any order.
\<close>

section \<open>When a section pauses the scanner\<close>

text \<open>\<^verbatim>\<open>ensureConnectedLocked\<close> comes to the pause just before \<^verbatim>\<open>bluez.Connect\<close>.\<close>

definition reaches_radio :: "radio \<Rightarrow> string \<Rightarrow> beacon option \<Rightarrow> vsess \<Rightarrow> bool" where
  "reaches_radio r c target s \<longleftrightarrow>
    vs_link s = None
    \<and> \<not> (vs_presence s \<and> vs_backend s = ''bluez'' \<and> \<not> target_ready s target (r_begin r))
    \<and> load_private_key s = None \<and> vs_backend s = ''bluez'' \<and> (vs_bus s \<or> r_bus r = None)"

fun op_reaches_radio :: "sess_op \<Rightarrow> vsess \<Rightarrow> bool" where
  "op_reaches_radio (Do_command r c as) s = reaches_radio r c (presence_target s) s"
| "op_reaches_radio (Do_pair r as) s =
    (length as = 3
     \<and> (case (r_public r, vs_key s) of
          (Inr pub, Key_file own pem) \<Rightarrow>
            pub = own \<and> reaches_radio r ''add-key-request'' (presence_target s) s
        | _ \<Rightarrow> False))"
| "op_reaches_radio (Do_nav_connect r) s = reaches_radio r [] (presence_target s) s"
| "op_reaches_radio (Do_presence_connect r t) s = reaches_radio r [] t s"
| "op_reaches_radio _ s = False"

section \<open>The scanner\<close>

text \<open>
  Watchers are objects, so they live in a store; the session registers at most one.  A loop has opened
  its watcher, runs on it, or has left it.
\<close>

datatype loop_at = L_idle | L_opened nat | L_running nat | L_left nat

record scanner =
  sc_sess :: vsess
  sc_registered :: "nat option"
  sc_watchers :: "nat \<Rightarrow> watcher option"
  sc_fresh :: nat
  sc_loop :: "nat \<Rightarrow> loop_at"

definition change_watcher :: "nat \<Rightarrow> (watcher \<Rightarrow> watcher) \<Rightarrow> scanner \<Rightarrow> scanner" where
  "change_watcher i f z = z\<lparr>sc_watchers := (sc_watchers z)(i := map_option f (sc_watchers z i))\<rparr>"

definition pause_registered :: "scanner \<Rightarrow> scanner" where
  "pause_registered z =
    (case sc_registered z of
       None \<Rightarrow> z
     | Some i \<Rightarrow> change_watcher i (\<lambda>w. fst (PauseWatch w)) z)"

text \<open>A new watcher is registered and, when there is a link, paused, in one section.\<close>

definition adopt_watcher :: "nat \<Rightarrow> (nat \<Rightarrow> loop_at) \<Rightarrow> watcher \<Rightarrow> scanner \<Rightarrow> scanner" where
  "adopt_watcher k pc w z =
    (let i = sc_fresh z
     in z\<lparr>sc_watchers := (sc_watchers z)
            (i := Some (if vs_link (sc_sess z) \<noteq> None then fst (PauseWatch w) else w)),
          sc_registered := Some i, sc_fresh := i + 1, sc_loop := (sc_loop z)(k := pc i)\<rparr>)"

datatype scan_event =
    Sc_session sess_op
  | Sc_open nat watcher | Sc_register nat "16 word"
  | Sc_pause nat | Sc_resume nat
  | Sc_stop_old nat | Sc_reopen nat watcher
  | Sc_leave nat | Sc_done nat
  | Sc_watch nat watch_event

text \<open>What the loop and the observer do to a watcher outside these sections.\<close>

fun plain_event :: "watch_event \<Rightarrow> bool" where
  "plain_event Ev_pause = False"
| "plain_event Ev_resume = False"
| "plain_event Ev_stop = False"
| "plain_event _ = True"

fun scan_step :: "scan_event \<Rightarrow> scanner \<Rightarrow> scanner" where
  "scan_step (Sc_session op) z =
    (let z1 = (if op_reaches_radio op (sc_sess z) then pause_registered z else z)
     in z1\<lparr>sc_sess := sess_step op (sc_sess z)\<rparr>)"
| "scan_step (Sc_open k w) z =
    (if sc_loop z k = L_idle then adopt_watcher k L_opened w z else z)"
| "scan_step (Sc_register k q) z =
    (case sc_loop z k of
       L_opened i \<Rightarrow>
         (change_watcher i (SetNearRSSI q) z)\<lparr>sc_registered := Some i,
           sc_loop := (sc_loop z)(k := L_running i)\<rparr>
     | _ \<Rightarrow> z)"
| "scan_step (Sc_pause k) z =
    (case sc_loop z k of
       L_running i \<Rightarrow> change_watcher i (\<lambda>w. fst (PauseWatch w)) z
     | _ \<Rightarrow> z)"
| "scan_step (Sc_resume k) z =
    (case sc_loop z k of
       L_running i \<Rightarrow> if vs_link (sc_sess z) \<noteq> None then z else change_watcher i ResumeWatch z
     | _ \<Rightarrow> z)"
| "scan_step (Sc_stop_old k) z =
    (case sc_loop z k of
       L_running i \<Rightarrow> change_watcher i (\<lambda>w. fst (StopWatch w)) z
     | _ \<Rightarrow> z)"
| "scan_step (Sc_reopen k w) z =
    (case sc_loop z k of
       L_running i \<Rightarrow> adopt_watcher k L_running w z
     | _ \<Rightarrow> z)"
| "scan_step (Sc_leave k) z =
    (case sc_loop z k of
       L_running i \<Rightarrow>
         z\<lparr>sc_registered := (if sc_registered z = Some i then None else sc_registered z),
           sc_loop := (sc_loop z)(k := L_left i)\<rparr>
     | _ \<Rightarrow> z)"
| "scan_step (Sc_done k) z =
    (case sc_loop z k of
       L_left i \<Rightarrow>
         (change_watcher i (\<lambda>w. fst (StopWatch w)) z)\<lparr>sc_loop := (sc_loop z)(k := L_idle)\<rparr>
     | _ \<Rightarrow> z)"
| "scan_step (Sc_watch i e) z = (if plain_event e then change_watcher i (watch_step e) z else z)"

definition scan_run :: "scan_event list \<Rightarrow> scanner \<Rightarrow> scanner" where
  "scan_run es z = fold scan_step es z"

definition new_scanner :: "vsess \<Rightarrow> scanner" where
  "new_scanner s =
    \<lparr>sc_sess = s, sc_registered = None, sc_watchers = (\<lambda>_. None), sc_fresh = 0,
     sc_loop = (\<lambda>_. L_idle)\<rparr>"

text \<open>The watcher a loop may still wait on.\<close>

fun live_watcher :: "loop_at \<Rightarrow> nat option" where
  "live_watcher (L_opened i) = Some i"
| "live_watcher (L_running i) = Some i"
| "live_watcher _ = None"

text \<open>A loop opens a watcher only when no other loop is still on one.\<close>

fun orderly :: "scan_event list \<Rightarrow> scanner \<Rightarrow> bool" where
  "orderly [] z = True"
| "orderly (e # es) z =
    ((case e of Sc_open k w \<Rightarrow> \<forall>j. live_watcher (sc_loop z j) = None | _ \<Rightarrow> True)
     \<and> orderly es (scan_step e z))"

section \<open>A link comes with a pause\<close>

definition bluez_up :: "vsess \<Rightarrow> bool" where
  "bluez_up s \<longleftrightarrow> (case vs_link s of None \<Rightarrow> False | Some l \<Rightarrow> l_bluez l)"

lemma bluez_up_cong: "vs_link t = vs_link s \<Longrightarrow> bluez_up t = bluez_up s"
  by (simp add: bluez_up_def)

lemma bluez_down: "vs_link s = None \<Longrightarrow> \<not> bluez_up s"
  by (simp add: bluez_up_def)

lemma ensure_bluez:
  assumes e: "ensure_connected r c t s = (s1, x)" and up: "bluez_up s1"
  shows "bluez_up s \<or> reaches_radio r c t s"
proof (cases "vs_link s")
  case None
  show ?thesis
  proof (rule ccontr)
    assume "\<not> ?thesis"
    then have n: "\<not> reaches_radio r c t s" by blast
    from None e show False
    proof (cases rule: ensure_fresh_cases)
      case (failed b)
      then show False using up None by (simp add: bluez_up_def)
    next
      case (opened b)
      have bz: "vs_backend s = ''bluez''"
      proof (rule ccontr)
        assume "vs_backend s \<noteq> ''bluez''"
        then show False using opened up
          by (auto simp: open_link_def Let_def bluez_up_def split: if_splits prod.splits option.splits)
      qed
      then have "s1 = s \<or> s1 = s\<lparr>vs_bus := True\<rparr>" using e n None
        by (auto simp: ensure_connected_def reaches_radio_def Let_def split: if_splits option.splits)
      then show False using up None by (auto simp: bluez_up_def)
    qed
  qed
next
  case (Some l)
  then show ?thesis using e up
    by (auto simp: ensure_connected_def bluez_up_def Let_def split: if_splits prod.splits option.splits)
qed

lemma command_bluez:
  assumes "bluez_up (fst (dispatch_command r c as s))"
  shows "bluez_up s \<or> reaches_radio r c (presence_target s) s"
proof -
  obtain s1 x where e: "ensure_connected r c (presence_target s) s = (s1, x)" by force
  have "bluez_up s1"
    using assms e by (auto simp: dispatch_command_def Let_def bluez_up_def split: option.splits if_splits)
  with e show ?thesis by (rule ensure_bluez)
qed

lemma presence_connect_bluez:
  assumes "bluez_up (fst (presence_connect r t s))"
  shows "bluez_up s \<or> reaches_radio r [] t s"
proof -
  obtain s1 x where e: "ensure_connected r [] t s = (s1, x)" by force
  have "bluez_up s1"
    using assms e prime_link [of r "ensure_tap (s1\<lparr>vs_quiet := clear_backoff (vs_quiet s1)\<rparr>)"]
    by (auto simp: presence_connect_def Let_def bluez_up_def split: option.splits if_splits)
  with e show ?thesis by (rule ensure_bluez)
qed

lemma kept_link: "vs_link t \<in> {vs_link s, None} \<Longrightarrow> bluez_up t \<Longrightarrow> bluez_up s"
  by (auto simp: bluez_up_def)

lemma step_bluez:
  assumes "bluez_up (sess_step op s)"
  shows "bluez_up s \<or> op_reaches_radio op s"
proof (cases op)
  case (Do_command r c as)
  then show ?thesis using assms command_bluez by simp
next
  case (Do_pair r as)
  then show ?thesis using assms command_bluez
    by (auto simp: dispatch_pair_def split: sum.splits key_file.splits if_splits)
next
  case (Do_nav_connect r)
  obtain s1 x where e: "ensure_connected r [] (presence_target s) s = (s1, x)" by force
  then show ?thesis using assms Do_nav_connect ensure_bluez [OF e] by simp
next
  case (Do_presence_connect r t)
  then show ?thesis using assms presence_connect_bluez by simp
next
  case (Do_keygen k w as)
  have "vs_link (fst (dispatch_keygen k w as s)) \<in> {vs_link s, None}"
    by (auto simp: dispatch_keygen_def Let_def
        split: key_file.splits option.splits sum.splits prod.splits)
  then show ?thesis using assms Do_keygen kept_link by auto
next
  case (Do_tick_up r)
  have "vs_link (tick_up r s) \<in> {vs_link s, None}"
    using prime_link [of r s] by (auto simp: tick_up_def emit_inside_def)
  then show ?thesis using assms Do_tick_up kept_link by auto
next
  case (Do_auth p f n i)
  have "vs_link (fst (auth_respond p f n i s)) \<in> {vs_link s, None}"
    by (simp add: auth_respond_def Let_def split: option.split list.split)
  then show ?thesis using assms Do_auth kept_link by auto
qed (use assms kept_link in \<open>auto simp: navigate_send_def dispatch_presence_start_def
    dispatch_presence_stop_def shutdown_def idle_fires_def link_lost_def store_beacon_def
    presence_depart_def loop_ends_def inbound_def bluez_up_def split: option.splits sum.splits if_splits\<close>)

section \<open>The invariant\<close>

definition scanner_inv :: "scanner \<Rightarrow> bool" where
  "scanner_inv z \<longleftrightarrow>
    (\<forall>k i. live_watcher (sc_loop z k) = Some i \<longrightarrow>
       sc_registered z = Some i
       \<and> (\<exists>w. sc_watchers z i = Some w \<and> (bluez_up (sc_sess z) \<longrightarrow> wt_paused w)))
    \<and> (\<forall>j k. live_watcher (sc_loop z j) \<noteq> None \<longrightarrow> live_watcher (sc_loop z k) \<noteq> None \<longrightarrow> j = k)"

lemma change_watcher_simps [simp]:
  "sc_sess (change_watcher i f z) = sc_sess z" "sc_registered (change_watcher i f z) = sc_registered z"
  "sc_fresh (change_watcher i f z) = sc_fresh z" "sc_loop (change_watcher i f z) = sc_loop z"
  "sc_watchers (change_watcher i f z) j =
    (if j = i then map_option f (sc_watchers z i) else sc_watchers z j)"
  by (simp_all add: change_watcher_def)

lemma scanner_invI:
  assumes "\<And>k i. live_watcher (sc_loop z k) = Some i \<Longrightarrow> sc_registered z = Some i"
    and "\<And>k i. live_watcher (sc_loop z k) = Some i \<Longrightarrow> \<exists>w. sc_watchers z i = Some w"
    and "\<And>k i w. live_watcher (sc_loop z k) = Some i \<Longrightarrow> sc_watchers z i = Some w \<Longrightarrow>
           bluez_up (sc_sess z) \<Longrightarrow> wt_paused w"
    and "\<And>j k. live_watcher (sc_loop z j) \<noteq> None \<Longrightarrow> live_watcher (sc_loop z k) \<noteq> None \<Longrightarrow> j = k"
  shows "scanner_inv z"
  using assms unfolding scanner_inv_def by (meson assms(2))

lemma scanner_invD:
  assumes "scanner_inv z"
  shows "live_watcher (sc_loop z k) = Some i \<Longrightarrow> sc_registered z = Some i"
    and "live_watcher (sc_loop z k) = Some i \<Longrightarrow> \<exists>w. sc_watchers z i = Some w"
    and "live_watcher (sc_loop z k) = Some i \<Longrightarrow> sc_watchers z i = Some w \<Longrightarrow>
           bluez_up (sc_sess z) \<Longrightarrow> wt_paused w"
    and "live_watcher (sc_loop z j) \<noteq> None \<Longrightarrow> live_watcher (sc_loop z k) \<noteq> None \<Longrightarrow> j = k"
  using assms unfolding scanner_inv_def by (blast, blast, fastforce, blast)

lemma inv_change:
  assumes z: "scanner_inv z"
    and f: "\<And>w. wt_paused w \<Longrightarrow> bluez_up (sc_sess z) \<Longrightarrow> wt_paused (f w)"
  shows "scanner_inv (change_watcher i f z)"
proof (rule scanner_invI; unfold change_watcher_simps)
  fix k j w
  assume l: "live_watcher (sc_loop z k) = Some j"
  then show "sc_registered z = Some j" by (rule scanner_invD(1) [OF z])
  obtain v where v: "sc_watchers z j = Some v" using scanner_invD(2) [OF z l] by blast
  then show "\<exists>w. (if j = i then map_option f (sc_watchers z i) else sc_watchers z j) = Some w"
    by (cases "j = i") simp_all
  assume "(if j = i then map_option f (sc_watchers z i) else sc_watchers z j) = Some w"
    and up: "bluez_up (sc_sess z)"
  then have "w = f v \<or> w = v" using v by (auto split: if_splits)
  then show "wt_paused w" using f [OF _ up] scanner_invD(3) [OF z l v up] by blast
qed (rule scanner_invD(4) [OF z])

lemma paused_keep:
  "wt_paused (fst (PauseWatch w))" "wt_paused w \<Longrightarrow> wt_paused (fst (StopWatch w))"
  "wt_paused (SetNearRSSI q w) = wt_paused w"
  "wt_paused w \<Longrightarrow> plain_event e \<Longrightarrow> wt_paused (watch_step e w)"
proof -
  show "wt_paused w \<Longrightarrow> plain_event e \<Longrightarrow> wt_paused (watch_step e w)" by (rule paused_step) auto
qed (simp_all add: PauseWatch_def StopWatch_def SetNearRSSI_def)

text \<open>Another session beside the same watchers.\<close>

lemma inv_sess:
  assumes "scanner_inv z"
    and "\<And>k i w. bluez_up s \<Longrightarrow> live_watcher (sc_loop z k) = Some i \<Longrightarrow>
           sc_watchers z i = Some w \<Longrightarrow> wt_paused w"
  shows "scanner_inv (z\<lparr>sc_sess := s\<rparr>)"
  by (rule scanner_invI) (use scanner_invD [OF assms(1)] assms(2) in auto)

lemma inv_pause_registered: "scanner_inv z \<Longrightarrow> scanner_inv (pause_registered z)"
  by (auto simp: pause_registered_def paused_keep intro: inv_change split: option.splits)

lemma inv_session:
  assumes z: "scanner_inv z"
  shows "scanner_inv (scan_step (Sc_session op) z)"
proof (cases "op_reaches_radio op (sc_sess z)")
  case True
  have "wt_paused w" if "live_watcher (sc_loop z k) = Some i"
      "sc_watchers (pause_registered z) i = Some w" for k i w
    using that(2) scanner_invD(1) [OF z that(1)] by (auto simp: pause_registered_def paused_keep)
  moreover have "sc_loop (pause_registered z) = sc_loop z"
    by (simp add: pause_registered_def split: option.splits)
  ultimately have "scanner_inv ((pause_registered z)\<lparr>sc_sess := sess_step op (sc_sess z)\<rparr>)"
    by (intro inv_sess inv_pause_registered z) auto
  then show ?thesis using True by simp
next
  case False
  then have "bluez_up (sess_step op (sc_sess z)) \<Longrightarrow> bluez_up (sc_sess z)" using step_bluez by blast
  then have "scanner_inv (z\<lparr>sc_sess := sess_step op (sc_sess z)\<rparr>)"
    using scanner_invD(3) [OF z] by (intro inv_sess z) blast
  then show ?thesis using False by simp
qed

lemma inv_adopt:
  assumes z: "scanner_inv z" and only: "\<And>j. j \<noteq> k \<Longrightarrow> live_watcher (sc_loop z j) = None"
    and pc: "\<And>i. live_watcher (pc i) = Some i"
  shows "scanner_inv (adopt_watcher k pc w z)"
  by (rule scanner_invI)
    (use only pc in \<open>auto simp: adopt_watcher_def Let_def paused_keep bluez_down split: if_splits\<close>)

lemma live_only:
  "scanner_inv z \<Longrightarrow> live_watcher (sc_loop z k) \<noteq> None \<Longrightarrow> j \<noteq> k \<Longrightarrow> live_watcher (sc_loop z j) = None"
  unfolding scanner_inv_def by blast

lemma inv_move:
  assumes z: "scanner_inv z" and x: "live_watcher x = None \<or> live_watcher x = live_watcher (sc_loop z k)"
  shows "scanner_inv (z\<lparr>sc_loop := (sc_loop z)(k := x)\<rparr>)"
proof -
  let ?z = "z\<lparr>sc_loop := (sc_loop z)(k := x)\<rparr>"
  have live: "live_watcher (sc_loop ?z j) = Some i \<Longrightarrow> live_watcher (sc_loop z j) = Some i" for j i
    using x by (auto split: if_splits)
  show ?thesis
  proof (rule scanner_invI)
    fix j l
    assume "live_watcher (sc_loop ?z j) \<noteq> None" "live_watcher (sc_loop ?z l) \<noteq> None"
    then show "j = l" using live scanner_invD(4) [OF z] by blast
  next
    fix j i w
    assume "live_watcher (sc_loop ?z j) = Some i"
    note l = live [OF this]
    show "sc_registered ?z = Some i" using scanner_invD(1) [OF z l] by simp
    show "\<exists>w. sc_watchers ?z i = Some w" using scanner_invD(2) [OF z l] by simp
    show "wt_paused w" if "sc_watchers ?z i = Some w" "bluez_up (sc_sess ?z)"
      using scanner_invD(3) [OF z l] that by simp
  qed
qed

lemma inv_scan_step:
  assumes z: "scanner_inv z" and o: "orderly [e] z"
  shows "scanner_inv (scan_step e z)"
proof (cases e)
  case (Sc_session op)
  then show ?thesis using inv_session [OF z] by blast
next
  case (Sc_open k w)
  then show ?thesis using z o by (auto intro!: inv_adopt)
next
  case (Sc_reopen k w)
  show ?thesis
  proof (cases "sc_loop z k")
    case (L_running i)
    then have "\<And>j. j \<noteq> k \<Longrightarrow> live_watcher (sc_loop z j) = None" using live_only [OF z, of k] by simp
    then have "scanner_inv (adopt_watcher k L_running w z)" by (intro inv_adopt z) simp_all
    then show ?thesis using Sc_reopen L_running by simp
  qed (use z Sc_reopen in simp_all)
next
  case (Sc_register k q)
  show ?thesis
  proof (cases "sc_loop z k")
    case (L_opened i)
    let ?z = "change_watcher i (SetNearRSSI q) z"
    have "scanner_inv ?z" using z by (rule inv_change) (simp add: paused_keep)
    then have "scanner_inv (?z\<lparr>sc_loop := (sc_loop ?z)(k := L_running i)\<rparr>)"
      by (rule inv_move) (simp add: L_opened)
    moreover have "sc_registered z = Some i" using scanner_invD(1) [OF z, of k i] L_opened by simp
    then have "?z\<lparr>sc_loop := (sc_loop ?z)(k := L_running i)\<rparr> = scan_step e z"
      using Sc_register L_opened by (simp add: change_watcher_def)
    ultimately show ?thesis by simp
  qed (use z Sc_register in simp_all)
next
  case (Sc_leave k)
  show ?thesis
  proof (cases "sc_loop z k")
    case (L_running i)
    then have "\<And>j. j \<noteq> k \<Longrightarrow> live_watcher (sc_loop z j) = None" using live_only [OF z, of k] by simp
    then have "\<And>j. live_watcher (sc_loop (scan_step e z) j) = None"
      using Sc_leave L_running by simp
    then show ?thesis by (intro scanner_invI) simp_all
  qed (use z Sc_leave in simp_all)
next
  case (Sc_done k)
  show ?thesis
  proof (cases "sc_loop z k")
    case (L_left i)
    let ?z = "change_watcher i (\<lambda>w. fst (StopWatch w)) z"
    have "scanner_inv ?z" using z by (rule inv_change) (simp add: paused_keep)
    then have "scanner_inv (?z\<lparr>sc_loop := (sc_loop ?z)(k := L_idle)\<rparr>)" by (rule inv_move) simp
    then show ?thesis using Sc_done L_left by simp
  qed (use z Sc_done in simp_all)
next
  case (Sc_resume k)
  show ?thesis
  proof (cases "vs_link (sc_sess z)")
    case None
    then show ?thesis using z Sc_resume
      by (auto split: loop_at.splits intro!: inv_change simp: bluez_down)
  qed (use z Sc_resume in \<open>auto split: loop_at.splits\<close>)
qed (use z in \<open>auto split: loop_at.splits intro!: inv_change simp: paused_keep\<close>)

lemma inv_scan_run: "scanner_inv z \<Longrightarrow> orderly es z \<Longrightarrow> scanner_inv (scan_run es z)"
proof (induction es arbitrary: z)
  case (Cons e es)
  then have "scanner_inv (scan_step e z)" by (intro inv_scan_step) (auto split: scan_event.splits)
  then show ?case using Cons by (simp add: scan_run_def)
qed (simp add: scan_run_def)

section \<open>Properties\<close>


definition scan_sample :: "scan_event list" where
  "scan_sample =
    [Sc_session (Do_presence_start (Some default_presence_config)), Sc_open 0 sample_watcher,
     Sc_register 0 (- 90), Sc_watch 0 (Ev_signal sample_advert), Sc_watch 0 (Ev_record 0),
     Sc_session (Do_beacon 0 (Some sample_beacon)),
     Sc_session (Do_presence_connect (sample_radio 0) (Some sample_beacon)),
     Sc_watch 0 (Ev_signal sample_advert), Sc_watch 0 (Ev_record SECOND)]"


text \<open>
  The order is needed.  The old loop of a presence mode that is stopped and started again at once may
  register its watcher after the new loop has opened its own; the new one is then not paused by the
  next connect, and its next check starts discovery beside the link.
\<close>

definition overlap_sample :: "scan_event list" where
  "overlap_sample =
    [Sc_session (Do_presence_start (Some default_presence_config)), Sc_open 0 sample_watcher,
     Sc_session Do_presence_stop, Sc_session (Do_presence_start (Some default_presence_config)),
     Sc_open 1 sample_watcher, Sc_register 0 (- 90), Sc_leave 0,
     Sc_session (Do_beacon 0 (Some sample_beacon)),
     Sc_session (Do_presence_connect (sample_radio 0) (Some sample_beacon))]"

lemma overlap_scans_on_link:
  "bluez_up (sc_sess (scan_run overlap_sample (new_scanner sample_new)))"
  "sc_loop (scan_run overlap_sample (new_scanner sample_new)) 1 = L_opened 1"
  "fst (snd (ensureDiscovering (sample_replies\<lparr>rp_discovering := Inr (V_bool False)\<rparr>)
     (the (sc_watchers (scan_run overlap_sample (new_scanner sample_new)) 1)))) =
   [Set_filter, Start_discovery]"
  by code_simp+

end
