(* ===== verification/Ble_Framing.thy ===== *)
theory Ble_Framing
  imports EE_Prelude
begin

text \<open>
  Message framing on the Bluetooth link, \<^verbatim>\<open>session/bluez/connection.go\<close>: \<^verbatim>\<open>Send\<close> prefixes a
  message with its length and writes it in chunks, falling back once to the smallest chunk size;
  \<^verbatim>\<open>rx\<close> reassembles messages from whatever pieces arrive.  What a write does is an outcome, times
  are nanoseconds.
\<close>

section \<open>Sending\<close>

definition maxMessageSize :: nat where
  "maxMessageSize = 1024"

definition defaultMTU :: nat where
  "defaultMTU = 23"

definition ble_frame :: "string \<Rightarrow> string" where
  "ble_frame m = char_of (length m div 256) # char_of (length m) # m"

text \<open>
  One pass of the loop per outcome: the context is over (seen before the write or after a failed
  one), the write fails, or it succeeds.  The result is whether all was sent, the chunks written and
  the block length kept for the next message; no outcome left means the loop is still waiting.
\<close>

datatype write_result = W_ok | W_failed | W_over

fun send_loop ::
    "write_result list \<Rightarrow> nat \<Rightarrow> string \<Rightarrow> (bool \<times> string list \<times> nat) option" where
  "send_loop ws blk [] = Some (True, [], blk)"
| "send_loop [] blk (c # cs) = None"
| "send_loop (w # ws) blk (c # cs) =
    (case w of
       W_over \<Rightarrow> Some (False, [], blk)
     | W_failed \<Rightarrow>
         if blk \<le> defaultMTU - 3 then Some (False, [], blk)
         else send_loop ws (defaultMTU - 3) (c # cs)
     | W_ok \<Rightarrow>
         map_option (\<lambda>(r, chunks, b). (r, take blk (c # cs) # chunks, b))
           (send_loop ws blk (drop blk (c # cs))))"

definition ble_send ::
    "write_result list \<Rightarrow> nat \<Rightarrow> string \<Rightarrow> (bool \<times> string list \<times> nat) option" where
  "ble_send ws blk m = send_loop ws blk (ble_frame m)"

section \<open>Receiving\<close>

definition RX_TIMEOUT :: int where
  "RX_TIMEOUT = 1000000000"

definition INBOX_SIZE :: nat where
  "INBOX_SIZE = 5"

record ble_rx =
  rx_buf :: string
  rx_last :: "int option"
  rx_seen :: "string list"
  rx_inbox :: "string list"

text \<open>
  \<^verbatim>\<open>flush\<close> until it gives up: the messages taken off the buffer and what is left of it.
\<close>

function flush :: "string \<Rightarrow> string list \<times> string" where
  "flush b =
    (if length b < 2 then ([], b)
     else
       let n = 256 * byte (b ! 0) + byte (b ! 1)
       in if n > maxMessageSize then ([], [])
          else if length b < 2 + n then ([], b)
          else let (ms, r) = flush (drop (2 + n) b) in (take n (drop 2 b) # ms, r))"
  by auto
termination by (relation "measure length") auto

declare flush.simps [simp del]

text \<open>A message goes to the observer, and to the inbox unless that is full.\<close>

definition deliver :: "string \<Rightarrow> ble_rx \<Rightarrow> ble_rx" where
  "deliver m st =
    st\<lparr>rx_seen := rx_seen st @ [m],
       rx_inbox := (if length (rx_inbox st) < INBOX_SIZE then rx_inbox st @ [m] else rx_inbox st)\<rparr>"

definition rx :: "int \<Rightarrow> string \<Rightarrow> ble_rx \<Rightarrow> ble_rx" where
  "rx now p st =
    (let old = (case rx_last st of
                  None \<Rightarrow> []
                | Some t \<Rightarrow> if now - t > RX_TIMEOUT then [] else rx_buf st);
         (ms, r) = flush (old @ p)
     in fold deliver ms (st\<lparr>rx_buf := r, rx_last := Some now\<rparr>))"

definition receive :: "(int \<times> string) list \<Rightarrow> ble_rx \<Rightarrow> ble_rx" where
  "receive arrivals st = fold (\<lambda>(t, p). rx t p) arrivals st"

section \<open>Lemmas: sending\<close>

lemma send_prefix:
  "send_loop ws blk out = Some (r, chunks, b) \<Longrightarrow> 0 < blk \<Longrightarrow>
   prefix (concat chunks) out \<and> (r \<longrightarrow> concat chunks = out)
   \<and> (\<forall>c \<in> set chunks. c \<noteq> [] \<and> length c \<le> max blk (defaultMTU - 3))
   \<and> (b = blk \<or> b = defaultMTU - 3)"
proof (induction ws blk out arbitrary: r chunks b rule: send_loop.induct)
  case (3 w ws blk c cs)
  show ?case
  proof (cases w)
    case W_ok
    then obtain l where l: "send_loop ws blk (drop blk (c # cs)) = Some (r, l, b)"
      "chunks = take blk (c # cs) # l"
      using "3.prems"(1) by auto
    note ih = "3.IH"(1) [OF W_ok l(1) "3.prems"(2)]
    then obtain z where z: "drop blk (c # cs) = concat l @ z" by (auto simp: prefix_def)
    have out: "c # cs = concat chunks @ z" using z l(2) append_take_drop_id [of blk "c # cs"] by simp
    have "r \<longrightarrow> z = []" using ih z by auto
    moreover have "take blk (c # cs) \<noteq> []" using "3.prems"(2) by simp
    moreover have "length (take blk (c # cs)) \<le> max blk (defaultMTU - 3)" by simp
    ultimately have "\<forall>x \<in> set chunks. x \<noteq> [] \<and> length x \<le> max blk (defaultMTU - 3)"
      using ih unfolding l(2) by (metis set_ConsD)
    moreover have "r \<longrightarrow> concat chunks = c # cs" using out \<open>r \<longrightarrow> z = []\<close> by simp
    ultimately show ?thesis using ih prefixI [OF out] by blast
  next
    case W_failed
    show ?thesis
    proof (cases "blk \<le> defaultMTU - 3")
      case False
      then show ?thesis using "3.IH"(2) [OF W_failed False] "3.prems" W_failed
        by (auto simp: defaultMTU_def)
    qed (use "3.prems" W_failed in auto)
  qed (use "3.prems" in auto)
qed auto

lemma send_ends:
  "0 < blk \<Longrightarrow> length out + (if defaultMTU - 3 < blk then 1 else 0) \<le> length ws \<Longrightarrow>
   send_loop ws blk out \<noteq> None"
proof (induction ws blk out rule: send_loop.induct)
  case (3 w ws blk c cs)
  show ?case
  proof (cases w)
    case W_ok
    have "length (drop blk (c # cs)) + (if defaultMTU - 3 < blk then 1 else 0) \<le> length ws"
      using "3.prems" by (cases blk) auto
    then show ?thesis using "3.IH"(1) [OF W_ok "3.prems"(1)] W_ok by auto
  next
    case W_failed
    then show ?thesis using "3.IH"(2) "3.prems" by (auto simp: defaultMTU_def)
  qed auto
qed (auto split: if_splits)

section \<open>Lemmas: reassembly\<close>

lemma ble_frame_header:
  assumes "length m \<le> maxMessageSize"
  shows "256 * byte (char_of (length m div 256)) + byte (char_of (length m)) = length m"
proof -
  have "length m div 256 < 256" using assms by (simp add: maxMessageSize_def)
  then show ?thesis by (simp add: byte_def)
qed

lemma flush_frame:
  assumes "length m \<le> maxMessageSize"
  shows "flush (ble_frame m @ t) = (m # fst (flush t), snd (flush t))"
  using assms ble_frame_header [OF assms]
  by (subst flush.simps) (simp add: ble_frame_def Let_def case_prod_beta)

lemma flush_frames:
  "list_all (\<lambda>m. length m \<le> maxMessageSize) ms \<Longrightarrow>
   flush (concat (map ble_frame ms) @ t) = (ms @ fst (flush t), snd (flush t))"
  by (induction ms) (simp_all add: flush_frame)

lemma flush_short:
  assumes "length m \<le> maxMessageSize" "strict_prefix x (ble_frame m)"
  shows "flush x = ([], x)"
proof (cases "length x < 2")
  case False
  then obtain a b t where x: "x = a # b # t" by (cases x; cases "tl x") auto
  then have "a = char_of (length m div 256)" "b = char_of (length m)" "length t < length m"
    using assms(2) by (auto simp: ble_frame_def strict_prefix_def prefix_def dest: arg_cong [of _ _ length])
  then show ?thesis using x ble_frame_header [OF assms(1)] assms(1)
    by (subst flush.simps) (simp add: Let_def)
qed (simp add: flush.simps)


text \<open>A stretch of the stream yields the messages complete in it and keeps the rest.\<close>

lemma flush_prefix:
  "list_all (\<lambda>m. length m \<le> maxMessageSize) ms \<Longrightarrow> prefix x (concat (map ble_frame ms)) \<Longrightarrow>
   \<exists>k. fst (flush x) = take k ms \<and> x = concat (map ble_frame (take k ms)) @ snd (flush x)"
proof (induction ms arbitrary: x)
  case Nil
  then show ?case by (simp add: flush.simps)
next
  case (Cons m ms)
  show ?case
  proof (cases "prefix (ble_frame m) x")
    case True
    then obtain y where y: "x = ble_frame m @ y" by (auto simp: prefix_def)
    then have "prefix y (concat (map ble_frame ms))" using Cons.prems(2) by simp
    with Cons obtain k where k: "fst (flush y) = take k ms"
      "y = concat (map ble_frame (take k ms)) @ snd (flush y)" by auto
    have "flush x = (m # fst (flush y), snd (flush y))" using flush_frame Cons.prems(1) y by simp
    with y k show ?thesis by (intro exI [of _ "Suc k"]) simp
  next
    case False
    then have "strict_prefix x (ble_frame m)"
      using Cons.prems(2) prefix_same_cases [of x "ble_frame m @ concat (map ble_frame ms)" "ble_frame m"]
      by (auto simp: strict_prefix_def)
    then have "flush x = ([], x)" using flush_short [of m x] Cons.prems(1) by simp
    then show ?thesis by (intro exI [of _ 0]) simp
  qed
qed

lemma flush_append:
  assumes "list_all (\<lambda>m. length m \<le> maxMessageSize) ms" "prefix x (concat (map ble_frame ms))"
  shows "flush (x @ p) = (fst (flush x) @ fst (flush (snd (flush x) @ p)), snd (flush (snd (flush x) @ p)))"
proof -
  obtain k where k: "fst (flush x) = take k ms" "x = concat (map ble_frame (take k ms)) @ snd (flush x)"
    using flush_prefix [OF assms] by blast
  have "list_all (\<lambda>m. length m \<le> maxMessageSize) (take k ms)"
    using assms(1) by (auto simp: list_all_iff dest: in_set_takeD)
  from flush_frames [OF this, of "snd (flush x) @ p"] k show ?thesis by (metis append.assoc)
qed

lemma deliver_fields [simp]:
  "rx_seen (fold deliver ms st) = rx_seen st @ ms" "rx_buf (fold deliver ms st) = rx_buf st"
  "rx_last (fold deliver ms st) = rx_last st"
  by (induction ms arbitrary: st) (simp_all add: deliver_def)

lemma deliver_inbox:
  "length (rx_inbox st) \<le> INBOX_SIZE \<Longrightarrow>
   rx_inbox (fold deliver ms st) = take INBOX_SIZE (rx_inbox st @ ms)"
proof (induction ms arbitrary: st)
  case (Cons m ms)
  show ?case
  proof (cases "length (rx_inbox st) < INBOX_SIZE")
    case True
    then have "INBOX_SIZE - length (rx_inbox st) = Suc (INBOX_SIZE - Suc (length (rx_inbox st)))" by simp
    with True Cons show ?thesis by (simp add: deliver_def)
  qed (use Cons in \<open>simp add: deliver_def\<close>)
qed simp

text \<open>Pieces that follow one another within the timeout.\<close>

fun timely :: "int \<Rightarrow> (int \<times> string) list \<Rightarrow> bool" where
  "timely t [] = True"
| "timely t ((u, p) # as) = (u - t \<le> RX_TIMEOUT \<and> timely u as)"

lemma receive_run:
  assumes "list_all (\<lambda>m. length m \<le> maxMessageSize) ms"
  shows "prefix (x @ concat (map snd as)) (concat (map ble_frame ms)) \<Longrightarrow> rx_last st = Some t \<Longrightarrow>
    rx_buf st = snd (flush x) \<Longrightarrow> timely t as \<Longrightarrow>
    \<exists>new. fst (flush (x @ concat (map snd as))) = fst (flush x) @ new
      \<and> rx_seen (receive as st) = rx_seen st @ new
      \<and> rx_buf (receive as st) = snd (flush (x @ concat (map snd as)))"
proof (induction as arbitrary: x st t)
  case Nil
  then show ?case by (simp add: receive_def)
next
  case (Cons a as)
  obtain u p where a: "a = (u, p)" by fastforce
  let ?y = "flush (snd (flush x) @ p)"
  have "prefix x (concat (map ble_frame ms))" using Cons.prems(1) by (auto simp: prefix_def)
  note f = flush_append [OF assms this, of p]
  have st: "rx_seen (rx u p st) = rx_seen st @ fst ?y" "rx_buf (rx u p st) = snd ?y"
    "rx_last (rx u p st) = Some u"
    using Cons.prems(2,3,4) a by (simp_all add: rx_def case_prod_beta Let_def)
  have "prefix ((x @ p) @ concat (map snd as)) (concat (map ble_frame ms))"
    using Cons.prems(1) a by simp
  then obtain new where "fst (flush ((x @ p) @ concat (map snd as))) = fst (flush (x @ p)) @ new"
    "rx_seen (receive as (rx u p st)) = rx_seen (rx u p st) @ new"
    "rx_buf (receive as (rx u p st)) = snd (flush ((x @ p) @ concat (map snd as)))"
    using Cons.IH [of "x @ p" "rx u p st" u] st f Cons.prems(4) a by auto
  then show ?case using f st a by (simp add: receive_def)
qed

section \<open>Properties\<close>

text \<open>
  Messages survive the link.  Whatever pieces the sender's chunks of some messages arrive in, as
  long as no gap within them exceeds the timeout and either nothing was pending or the first piece
  comes after one, the receiver hands on exactly those messages in order and keeps nothing back.
\<close>

theorem framed_messages_arrive:
  assumes size: "\<forall>m \<in> set ms. length m \<le> 1024"
    and sent: "list_all2 (\<lambda>m cs. \<exists>ws blk b. 0 < blk \<and> ble_send ws blk m = Some (True, cs, b)) ms css"
    and arrived: "concat (map snd ((t, p) # as)) = concat (concat css)"
    and gaps: "timely t as"
    and pending: "rx_buf st = [] \<or> (\<exists>u. rx_last st = Some u \<and> RX_TIMEOUT < t - u)"
  shows "rx_seen (receive ((t, p) # as) st) = rx_seen st @ ms
    \<and> rx_buf (receive ((t, p) # as) st) = []"
proof -
  have ok: "list_all (\<lambda>m. length m \<le> maxMessageSize) ms"
    using size by (simp add: list_all_iff maxMessageSize_def)
  have "concat (concat css) = concat (map ble_frame ms)"
    using sent
  proof (induction ms css rule: list_all2_induct)
    case (Cons m ms cs css)
    then show ?case using send_prefix by (fastforce simp: ble_send_def)
  qed simp
  then have S: "p @ concat (map snd as) = concat (map ble_frame ms)" using arrived by simp
  have all: "flush (concat (map ble_frame ms)) = (ms, [])"
    using flush_frames [OF ok, of "[]"] by (simp add: flush.simps [of "[]"])
  have st: "rx_seen (rx t p st) = rx_seen st @ fst (flush p)" "rx_buf (rx t p st) = snd (flush p)"
    "rx_last (rx t p st) = Some t"
    using pending by (auto simp: rx_def case_prod_beta Let_def split: option.splits)
  obtain new where "fst (flush (p @ concat (map snd as))) = fst (flush p) @ new"
    "rx_seen (receive as (rx t p st)) = rx_seen (rx t p st) @ new"
    "rx_buf (receive as (rx t p st)) = snd (flush (p @ concat (map snd as)))"
    using receive_run [OF ok _ st(3,2) gaps] S by auto
  then show ?thesis using S all st by (simp add: receive_def)
qed

theorem framed_messages_arrive_witness:
  "rx_seen (receive [(0, [CHR 0x00]), (5, [CHR 0x02, CHR ''o'']), (9, [CHR ''k''])]
     \<lparr>rx_buf = ''stale'', rx_last = Some (- 2000000000), rx_seen = [], rx_inbox = []\<rparr>) = [''ok'']"
proof -
  let ?st = "\<lparr>rx_buf = ''stale'', rx_last = Some (- 2000000000), rx_seen = [], rx_inbox = []\<rparr>"
  let ?css = "[[[CHR 0x00, CHR 0x02, CHR ''o'', CHR ''k'']]]"
  have "ble_send [W_ok] 20 ''ok'' = Some (True, [[CHR 0x00, CHR 0x02, CHR ''o'', CHR ''k'']], 20)"
    by code_simp
  then have "list_all2 (\<lambda>m cs. \<exists>ws blk b. 0 < blk \<and> ble_send ws blk m = Some (True, cs, b))
      [''ok''] ?css"
    by (simp only: list_all2_Cons list.rel_inject list_all2_Nil)
      (intro conjI exI [of _ "[W_ok]"] exI [of _ "20::nat"], simp_all)
  then have "rx_seen (receive ((0, [CHR 0x00]) # [(5, [CHR 0x02, CHR ''o'']), (9, [CHR ''k''])]) ?st)
      = rx_seen ?st @ [''ok'']"
    by (rule framed_messages_arrive [THEN conjunct1, rotated]) (simp_all add: RX_TIMEOUT_def)
  then show ?thesis by simp
qed

end
