(* ===== verification/Gatt_Connect.thy ===== *)
theory Gatt_Connect
  imports Beacon_Watcher Ble_Framing
begin

text \<open>
  Bringing a GATT link up and down over BlueZ, \<^verbatim>\<open>helper/session/bluez/gatt.go\<close> and
  \<^verbatim>\<open>connection.go\<close>: one attempt with all its D-Bus calls, the search for the Tesla service, the
  dispatch of the link's signals, and closing.  What the bus answers is an environment, the calls made
  and the properties read are the trace.
\<close>

section \<open>Errors\<close>

datatype gatt_error =
    G_watch watch_error | G_bus bus_error | G_context | G_connected_invalid | G_no_device string
  | G_connect_failed bus_error | G_services bus_error | G_no_service
  | G_no_characteristics string string | G_subscribe_failed bus_error

definition quoted :: "string \<Rightarrow> string" where
  "quoted s = [CHR 0x22] @ s @ [CHR 0x22]"

fun watch_error_text :: "watch_error \<Rightarrow> string" where
  "watch_error_text (W_enumerate e) = ''bluez: enumerate objects: '' @ bus_error_text e"
| "watch_error_text (W_no_adapter a) = ''bluez: no Bluetooth adapter found (wanted '' @ quoted a @ '')''"
| "watch_error_text (W_read_powered e) = ''bluez: read adapter Powered: '' @ bus_error_text e"
| "watch_error_text (W_decode_powered v) = ''bluez: decode adapter Powered: got '' @ go_type v"
| "watch_error_text (W_power_on s) = ''bluez: power on adapter: '' @ s"
| "watch_error_text (W_read_discovering e) = ''bluez: read adapter Discovering: '' @ bus_error_text e"
| "watch_error_text (W_decode_discovering v) = ''bluez: decode adapter Discovering: got '' @ go_type v"
| "watch_error_text (W_start e) = ''bluez: start discovery: '' @ bus_error_text e"
| "watch_error_text (W_bus e) = bus_error_text e"
| "watch_error_text (W_subscribe_advertisements e) =
    ''bluez: subscribe to advertisements: '' @ bus_error_text e"
| "watch_error_text (W_subscribe_devices e) =
    ''bluez: subscribe to discovered devices: '' @ bus_error_text e"
| "watch_error_text (W_start_watcher e) = ''bluez: start watcher: '' @ watch_error_text e"
| "watch_error_text W_unexpected_reply = ''bluez: unexpected GetManagedObjects reply''"
| "watch_error_text W_listener_stopped = ''bluez: watcher signal listener stopped''"
| "watch_error_text W_deadline = ''context deadline exceeded''"

fun gatt_error_text :: "gatt_error \<Rightarrow> string" where
  "gatt_error_text (G_watch e) = watch_error_text e"
| "gatt_error_text (G_bus e) = bus_error_text e"
| "gatt_error_text G_context = ''context deadline exceeded''"
| "gatt_error_text G_connected_invalid = ''bluez: invalid Connected property''"
| "gatt_error_text (G_no_device p) = ''bluez: device '' @ p @ '' not found after scan''"
| "gatt_error_text (G_connect_failed e) = ''bluez: connect to vehicle: '' @ bus_error_text e"
| "gatt_error_text (G_services e) = ''bluez: read ServicesResolved: '' @ bus_error_text e"
| "gatt_error_text G_no_service = ''bluez: vehicle service not found''"
| "gatt_error_text (G_no_characteristics t r) =
    ''bluez: vehicle characteristics not found (tx='' @ t @ '' rx='' @ r @ '')''"
| "gatt_error_text (G_subscribe_failed e) =
    ''bluez: subscribe to vehicle RX characteristic: '' @ bus_error_text e"

definition IsAdapterError :: "string \<Rightarrow> bool" where
  "IsAdapterError s =
    list_ex (\<lambda>t. sublist t s)
      [''operation not permitted'', ''org.bluez.Error.NotReady'', ''org.bluez.Error.NotPowered'',
       ''org.freedesktop.DBus.Error.ServiceUnknown'', ''no Bluetooth adapter found'']"

section \<open>The Tesla service in the object tree\<close>

abbreviation gattSvcIface :: string where "gattSvcIface \<equiv> ''org.bluez.GattService1''"
abbreviation gattChrIface :: string where "gattChrIface \<equiv> ''org.bluez.GattCharacteristic1''"

definition vehicleServiceUUID :: string where
  "vehicleServiceUUID = ''00000211b2d143f09b88960cebf8b91e''"

definition toVehicleUUID :: string where
  "toVehicleUUID = ''00000212b2d143f09b88960cebf8b91e''"

definition fromVehicleUUID :: string where
  "fromVehicleUUID = ''00000213b2d143f09b88960cebf8b91e''"

definition isUUID :: "variant \<Rightarrow> string \<Rightarrow> bool" where
  "isUUID v want =
    (case variantString v of
       None \<Rightarrow> False
     | Some s \<Rightarrow> filter (\<lambda>c. c \<noteq> CHR ''-'') (to_lower s) = want)"

text \<open>One object of the walk; the paths found so far are service, TX and RX, empty when not found.\<close>

definition gatt_object ::
    "string \<times> ifaces \<Rightarrow> string \<times> string \<times> string \<Rightarrow> string \<times> string \<times> string" where
  "gatt_object x found =
    (case found of
       (svc, tx, rxp) \<Rightarrow>
         (let has = (\<lambda>i uuid. case map_of (snd x) i of
                        None \<Rightarrow> False | Some ps \<Rightarrow> isUUID (bus_prop ''UUID'' ps) uuid)
          in if has gattSvcIface vehicleServiceUUID then (fst x, tx, rxp)
             else if has gattChrIface toVehicleUUID then (svc, fst x, rxp)
             else if has gattChrIface fromVehicleUUID then (svc, tx, fst x)
             else found))"

definition discoverGATT :: "tree_reply \<Rightarrow> (gatt_error, string \<times> string \<times> string) result" where
  "discoverGATT tree =
    (case managedObjects tree of
       Inl e \<Rightarrow> Inl (G_watch e)
     | Inr objs \<Rightarrow>
         (case fold gatt_object objs ([], [], []) of
            (svc, tx, rxp) \<Rightarrow>
              if svc = [] then Inl G_no_service
              else if tx = [] \<or> rxp = [] then Inl (G_no_characteristics tx rxp)
              else Inr (svc, tx, rxp)))"

definition findDevice :: "tree_reply \<Rightarrow> string \<Rightarrow> string \<Rightarrow> (gatt_error, string) result" where
  "findDevice tree adapter target =
    (case managedObjects tree of
       Inl e \<Rightarrow> Inl (G_watch e)
     | Inr objs \<Rightarrow>
         if target \<noteq> [] \<and> prefix (adapter @ ''/dev_'') target \<and> map_of objs target \<noteq> None
         then Inr target else Inl (G_no_device target))"

section \<open>Calls and waiting\<close>

datatype gatt_call =
    G_scan "bus_call list" | G_stop_discovery | G_read_discovering "(watch_error, bool) result"
  | G_read_connected "(gatt_error, bool) result" | G_disconnect | G_connect | G_read_resolved
  | G_add_match | G_add_device_match | G_subscribe | G_start_notify
  | G_unsubscribe | G_remove_match | G_remove_device_match | G_stop_notify

type_synonym reads = "(bus_error, variant) result list"

text \<open>The waits poll: one element a read, and the context is over when none is left.\<close>

fun waitDiscoveryStopped :: "reads \<Rightarrow> gatt_call list \<times> gatt_error option" where
  "waitDiscoveryStopped [] = ([], Some G_context)"
| "waitDiscoveryStopped (r # rs) =
    (let d = adapterIsDiscovering r
     in case d of
          Inl e \<Rightarrow> ([G_read_discovering d], Some (G_watch e))
        | Inr False \<Rightarrow> ([G_read_discovering d], None)
        | Inr True \<Rightarrow>
            (case waitDiscoveryStopped rs of (tr, e) \<Rightarrow> (G_read_discovering d # tr, e)))"

definition deviceConnected :: "(bus_error, variant) result \<Rightarrow> (gatt_error, bool) result" where
  "deviceConnected r =
    (case r of
       Inl e \<Rightarrow> Inl (G_bus e)
     | Inr v \<Rightarrow> (case variantBool v of None \<Rightarrow> Inl G_connected_invalid | Some b \<Rightarrow> Inr b))"

fun waitDeviceDisconnected :: "reads \<Rightarrow> gatt_call list \<times> gatt_error option" where
  "waitDeviceDisconnected [] = ([], Some G_context)"
| "waitDeviceDisconnected (r # rs) =
    (let c = deviceConnected r
     in case c of
          Inl e \<Rightarrow> ([G_read_connected c], Some e)
        | Inr False \<Rightarrow> ([G_read_connected c], None)
        | Inr True \<Rightarrow>
            (case waitDeviceDisconnected rs of (tr, e) \<Rightarrow> (G_read_connected c # tr, e)))"

fun waitServicesResolved :: "reads \<Rightarrow> gatt_call list \<times> gatt_error option" where
  "waitServicesResolved [] = ([], Some G_context)"
| "waitServicesResolved (Inl e # rs) = ([G_read_resolved], Some (G_services e))"
| "waitServicesResolved (Inr v # rs) =
    (if variantBool v = Some True then ([G_read_resolved], None)
     else case waitServicesResolved rs of (tr, e) \<Rightarrow> (G_read_resolved # tr, e))"

section \<open>One attempt\<close>

text \<open>
  The answers an attempt gets, in the order it asks: the scan when no target is known, the tree for the
  adapter and for the device, the reads of \<^verbatim>\<open>Discovering\<close>, of \<^verbatim>\<open>Connected\<close> (the first, and those of
  the wait), whether the context survives the settling time, the outcome of \<^verbatim>\<open>Connect\<close>, the reads of
  \<^verbatim>\<open>ServicesResolved\<close>, the tree for the service, the match rule, \<^verbatim>\<open>StartNotify\<close> and the \<^verbatim>\<open>MTU\<close>.
\<close>

record gatt_env =
  ge_scan_replies :: bus_replies
  ge_scan_tree :: tree_reply
  ge_scan_polls :: "tree_reply list"
  ge_adapter_tree :: tree_reply
  ge_device_tree :: tree_reply
  ge_discovering :: reads
  ge_connected :: "(bus_error, variant) result"
  ge_disconnecting :: reads
  ge_settled :: bool
  ge_connect :: "bus_error option"
  ge_resolved :: reads
  ge_service_tree :: tree_reply
  ge_match :: "bus_error option"
  ge_notify :: "bus_error option"
  ge_mtu :: "(bus_error, variant) result"

record gatt_conn =
  cn_dev :: string
  cn_svc :: string
  cn_tx :: string
  cn_rx :: string
  cn_block :: nat
  cn_dropped :: bool
  cn_closed :: bool
  cn_in :: ble_rx

definition maxExpectedMTU :: nat where
  "maxExpectedMTU = 512 + 3"

definition block_length :: "(bus_error, variant) result \<Rightarrow> nat" where
  "block_length r =
    (case r of
       Inr (V_uint16 m) \<Rightarrow> if defaultMTU \<le> unat m then unat m - 3 else maxExpectedMTU - 3
     | _ \<Rightarrow> maxExpectedMTU - 3)"

definition new_connection :: "string \<Rightarrow> string \<times> string \<times> string \<Rightarrow> nat \<Rightarrow> gatt_conn" where
  "new_connection dev paths blk =
    (case paths of
       (svc, tx, rxp) \<Rightarrow>
         \<lparr>cn_dev = dev, cn_svc = svc, cn_tx = tx, cn_rx = rxp, cn_block = blk, cn_dropped = False,
          cn_closed = False,
          cn_in = \<lparr>rx_buf = [], rx_last = None, rx_seen = [], rx_inbox = []\<rparr>\<rparr>)"

type_synonym attempt_result = "(bool \<times> gatt_error, gatt_conn) result"

text \<open>From \<^verbatim>\<open>StartNotify\<close> on, with the match rules in place.\<close>

definition start_link :: "gatt_env \<Rightarrow> string \<Rightarrow> string \<times> string \<times> string \<Rightarrow> gatt_call list \<times> attempt_result" where
  "start_link v dev paths =
    (let tr = [G_add_match, G_add_device_match, G_subscribe, G_start_notify]
     in case ge_notify v of
          Some e \<Rightarrow>
            (tr @ [G_unsubscribe, G_remove_match, G_remove_device_match, G_disconnect],
             Inl (True, G_subscribe_failed e))
        | None \<Rightarrow> (tr, Inr (new_connection dev paths (block_length (ge_mtu v)))))"

text \<open>From \<^verbatim>\<open>Device1.Connect\<close> on.\<close>

definition connect_device :: "gatt_env \<Rightarrow> string \<Rightarrow> gatt_call list \<times> attempt_result" where
  "connect_device v dev =
    (case ge_connect v of
       Some e \<Rightarrow> ([G_connect, G_disconnect], Inl (True, G_connect_failed e))
     | None \<Rightarrow>
         (case waitServicesResolved (ge_resolved v) of
            (tr, Some e) \<Rightarrow> (G_connect # tr @ [G_disconnect], Inl (True, e))
          | (tr, None) \<Rightarrow>
              (case discoverGATT (ge_service_tree v) of
                 Inl e \<Rightarrow> (G_connect # tr @ [G_disconnect], Inl (True, e))
               | Inr paths \<Rightarrow>
                   (case ge_match v of
                      Some e \<Rightarrow> (G_connect # tr @ [G_disconnect], Inl (True, G_subscribe_failed e))
                    | None \<Rightarrow>
                        (case start_link v dev paths of
                           (tr2, r) \<Rightarrow> (G_connect # tr @ tr2, r))))))"

text \<open>Getting an old link out of the way, and the settling time.\<close>

definition clear_old_link :: "gatt_env \<Rightarrow> gatt_call list \<times> gatt_error option" where
  "clear_old_link v =
    (let c = deviceConnected (ge_connected v)
     in if c = Inr True then
          (case waitDeviceDisconnected (ge_disconnecting v) of
             (tr, e) \<Rightarrow> (G_read_connected c # G_disconnect # tr, e))
        else ([G_read_connected c], None))"

definition attempt_device :: "gatt_env \<Rightarrow> string \<Rightarrow> gatt_call list \<times> attempt_result" where
  "attempt_device v dev =
    (case waitDiscoveryStopped (ge_discovering v) of
       (tr, Some e) \<Rightarrow> (G_stop_discovery # tr, Inl (True, e))
     | (tr, None) \<Rightarrow>
         (case clear_old_link v of
            (tr2, Some e) \<Rightarrow> (G_stop_discovery # tr @ tr2, Inl (True, e))
          | (tr2, None) \<Rightarrow>
              if \<not> ge_settled v then (G_stop_discovery # tr @ tr2, Inl (True, G_context))
              else case connect_device v dev of
                (tr3, r) \<Rightarrow> (G_stop_discovery # tr @ tr2 @ tr3, r)))"

definition tryConnect ::
    "gatt_env \<Rightarrow> string \<Rightarrow> string \<Rightarrow> scan_result option \<Rightarrow> gatt_call list \<times> attempt_result" where
  "tryConnect v aid name target =
    (let (tr, found) =
           (case target of
              Some q \<Rightarrow> ([], Inr q)
            | None \<Rightarrow>
                (case scan_beacon (ge_scan_replies v) (ge_scan_tree v) (ge_scan_polls v) aid name of
                   (calls, r) \<Rightarrow> ([G_scan calls], r)))
     in case found of
          Inl e \<Rightarrow> (tr, Inl (True, G_watch e))
        | Inr q \<Rightarrow>
            (case managedObjects (ge_adapter_tree v) of
               Inl e \<Rightarrow> (tr, Inl (False, G_watch e))
             | Inr objs \<Rightarrow>
                 (case findAdapter objs aid of
                    None \<Rightarrow> (tr, Inl (False, G_watch (W_no_adapter aid)))
                  | Some adapter \<Rightarrow>
                      (case findDevice (ge_device_tree v) adapter (sr_path q) of
                         Inl e \<Rightarrow> (tr, Inl (True, e))
                       | Inr dev \<Rightarrow> (case attempt_device v dev of (tr2, r) \<Rightarrow> (tr @ tr2, r))))))"

text \<open>What the retry loop makes of it: \<^verbatim>\<open>connect\<close> keeps the target it was given.\<close>

definition attempt_outcome :: "attempt_result \<Rightarrow> gatt_conn attempt" where
  "attempt_outcome r =
    (case r of
       Inr c \<Rightarrow> Connected c
     | Inl (retry, e) \<Rightarrow>
         if \<not> retry \<or> IsAdapterError (gatt_error_text e) then Fatal (gatt_error_text e)
         else Retry (gatt_error_text e))"

definition gatt_connect ::
    "int \<Rightarrow> int \<Rightarrow> string \<Rightarrow> string \<Rightarrow> scan_result option \<Rightarrow> (gatt_env \<times> int) list \<Rightarrow>
     (gatt_conn attempt \<times> int list) option" where
  "gatt_connect deadline now aid name target envs =
    connect_loop deadline now CONNECT_RETRY_INITIAL
      (map (\<lambda>(v, d). (attempt_outcome (snd (tryConnect v aid name target)), d)) envs)"

section \<open>A link's signals, and closing it\<close>

text \<open>\<^verbatim>\<open>changed[key]\<close> of a \<^verbatim>\<open>PropertiesChanged\<close> body for an interface; no key, no value.\<close>

definition changed_value :: "string \<Rightarrow> string \<Rightarrow> signal \<Rightarrow> variant option" where
  "changed_value iface key sg =
    (case sg_body sg of
       B_string i # B_props ps # _ \<Rightarrow> if i = iface then map_of ps key else None
     | _ \<Rightarrow> None)"

definition handleDeviceSignal :: "signal \<Rightarrow> gatt_conn \<Rightarrow> gatt_conn" where
  "handleDeviceSignal sg c =
    (case changed_value deviceIface ''Connected'' sg of
       Some (V_bool False) \<Rightarrow> c\<lparr>cn_dropped := True\<rparr>
     | _ \<Rightarrow> c)"

definition handleSignal :: "int \<Rightarrow> signal \<Rightarrow> gatt_conn \<Rightarrow> gatt_conn" where
  "handleSignal now sg c =
    (if sg_path sg = cn_dev c then handleDeviceSignal sg c
     else if sg_path sg \<noteq> cn_rx c then c
     else case changed_value gattChrIface ''Value'' sg of
       Some (V_bytes p) \<Rightarrow> c\<lparr>cn_in := rx now p (cn_in c)\<rparr>
     | _ \<Rightarrow> c)"

text \<open>One turn of \<^verbatim>\<open>rxLoop\<close>: nothing after \<^verbatim>\<open>Close\<close>; \<^verbatim>\<open>None\<close> is the channel closing.\<close>

definition rx_turn :: "(int \<times> signal) option \<Rightarrow> gatt_conn \<Rightarrow> gatt_conn" where
  "rx_turn ev c =
    (if cn_closed c then c
     else case ev of
       None \<Rightarrow> c\<lparr>cn_dropped := True\<rparr>
     | Some (now, sg) \<Rightarrow> handleSignal now sg c)"

definition CloseLink :: "gatt_conn \<Rightarrow> gatt_conn \<times> gatt_call list" where
  "CloseLink c =
    (if cn_closed c then (c, [])
     else (c\<lparr>cn_dropped := True, cn_closed := True\<rparr>,
           [G_unsubscribe, G_stop_notify, G_disconnect, G_remove_match, G_remove_device_match]))"

section \<open>What an attempt holds\<close>

datatype gatt_resource = R_link | R_match | R_device_match | R_signals

text \<open>
  A connect counts as holding the link even when the call fails, since BlueZ keeps trying; only a
  disconnect gives it back.
\<close>

fun after_call :: "gatt_call \<Rightarrow> gatt_resource set \<Rightarrow> gatt_resource set" where
  "after_call G_connect R = insert R_link R"
| "after_call G_disconnect R = R - {R_link}"
| "after_call G_add_match R = insert R_match R"
| "after_call G_remove_match R = R - {R_match}"
| "after_call G_add_device_match R = insert R_device_match R"
| "after_call G_remove_device_match R = R - {R_device_match}"
| "after_call G_subscribe R = insert R_signals R"
| "after_call G_unsubscribe R = R - {R_signals}"
| "after_call _ R = R"

definition holds_after :: "gatt_call list \<Rightarrow> gatt_resource set \<Rightarrow> gatt_resource set" where
  "holds_after tr R = fold after_call tr R"

abbreviation link_resources :: "gatt_resource set" where
  "link_resources \<equiv> {R_link, R_match, R_device_match, R_signals}"

lemma holds_after_simps [simp]:
  "holds_after [] R = R" "holds_after (c # tr) R = holds_after tr (after_call c R)"
  "holds_after (tr @ tr2) R = holds_after tr2 (holds_after tr R)"
  by (simp_all add: holds_after_def)

text \<open>The waits only read.\<close>

fun is_read :: "gatt_call \<Rightarrow> bool" where
  "is_read G_read_resolved = True"
| "is_read (G_read_discovering d) = True"
| "is_read (G_read_connected b) = True"
| "is_read _ = False"

definition only_reads :: "gatt_call list \<Rightarrow> bool" where
  "only_reads tr = list_all is_read tr"

lemma only_reads_simps [simp]:
  "only_reads []" "only_reads (c # tr) \<longleftrightarrow> is_read c \<and> only_reads tr"
  by (simp_all add: only_reads_def)

lemma is_read_holds: "is_read c \<Longrightarrow> after_call c R = R"
  by (cases c) simp_all

lemma only_reads_hold [simp]: "only_reads tr \<Longrightarrow> holds_after tr R = R"
  by (induction tr) (simp_all add: is_read_holds)

lemma only_reads_connect: "only_reads tr \<Longrightarrow> G_connect \<notin> set tr"
  by (auto simp: only_reads_def list_all_iff)

lemma waits_read:
  "waitDiscoveryStopped rs = (tr, e) \<Longrightarrow> only_reads tr"
  "waitDeviceDisconnected rs = (tr, e) \<Longrightarrow> only_reads tr"
  "waitServicesResolved rs = (tr, e) \<Longrightarrow> only_reads tr"
proof -
  show "waitDiscoveryStopped rs = (tr, e) \<Longrightarrow> only_reads tr"
    by (induction rs arbitrary: tr e rule: waitDiscoveryStopped.induct)
      (auto simp: Let_def split: sum.splits bool.splits prod.splits)
  show "waitDeviceDisconnected rs = (tr, e) \<Longrightarrow> only_reads tr"
    by (induction rs arbitrary: tr e rule: waitDeviceDisconnected.induct)
      (auto simp: Let_def split: sum.splits bool.splits prod.splits)
  show "waitServicesResolved rs = (tr, e) \<Longrightarrow> only_reads tr"
    by (induction rs arbitrary: tr e rule: waitServicesResolved.induct)
      (auto split: if_splits prod.splits)
qed

lemma connect_device_holds:
  assumes "connect_device v dev = (tr, r)"
  shows "holds_after tr {} = (if is_ok r then link_resources else {})"
  using assms waits_read(3)
  by (auto simp: connect_device_def start_link_def Let_def
      split: option.splits prod.splits sum.splits if_splits)

lemma clear_old_link_reads:
  "clear_old_link v = (tr, e) \<Longrightarrow> holds_after tr {} = {} \<and> G_connect \<notin> set tr"
  using waits_read(2) only_reads_connect
  by (fastforce simp: clear_old_link_def Let_def split: if_splits prod.splits)

lemma attempt_device_holds:
  assumes "attempt_device v dev = (tr, r)"
  shows "holds_after tr {} = (if is_ok r then link_resources else {})"
proof -
  obtain tr1 e1 where w: "waitDiscoveryStopped (ge_discovering v) = (tr1, e1)" by force
  obtain tr2 e2 where o: "clear_old_link v = (tr2, e2)" by force
  obtain tr3 r3 where d: "connect_device v dev = (tr3, r3)" by force
  note [simp] = waits_read(1) [OF w] clear_old_link_reads [OF o] connect_device_holds [OF d]
  show ?thesis using assms w o d
    by (cases e1; cases e2) (auto simp: attempt_device_def split: if_splits)
qed

definition only_scans :: "gatt_call list \<Rightarrow> bool" where
  "only_scans tr \<longleftrightarrow> (\<forall>c \<in> set tr. \<exists>cs. c = G_scan cs)"

lemma scans_hold: "only_scans tr \<Longrightarrow> holds_after tr R = R"
  by (induction tr) (auto simp: only_scans_def)

lemma tryConnect_shape:
  assumes "tryConnect v aid name target = (tr, r)"
  shows "(only_scans tr \<and> \<not> is_ok r)
    \<or> (\<exists>tr0 dev tr1. tr = tr0 @ tr1 \<and> only_scans tr0 \<and> attempt_device v dev = (tr1, r))"
proof -
  let ?first = "case target of
      Some q \<Rightarrow> ([], Inr q)
    | None \<Rightarrow>
        (case scan_beacon (ge_scan_replies v) (ge_scan_tree v) (ge_scan_polls v) aid name of
           (calls, r) \<Rightarrow> ([G_scan calls], r))"
  obtain tr0 found where f: "?first = (tr0, found)" by force
  then have s: "only_scans tr0" by (auto simp: only_scans_def split: option.splits prod.splits)
  show ?thesis
  proof (cases found)
    case (Inl e)
    then show ?thesis using assms f s by (auto simp: tryConnect_def Let_def)
  next
    case found: (Inr q)
    show ?thesis
    proof (cases "managedObjects (ge_adapter_tree v)")
      case (Inl e)
      then show ?thesis using assms f s found by (auto simp: tryConnect_def Let_def)
    next
      case objs: (Inr objs)
      show ?thesis
      proof (cases "findAdapter objs aid")
        case None
        then show ?thesis using assms f s found objs by (auto simp: tryConnect_def Let_def)
      next
        case ad: (Some adapter)
        show ?thesis
        proof (cases "findDevice (ge_device_tree v) adapter (sr_path q)")
          case (Inl e)
          then show ?thesis using assms f s found objs ad by (auto simp: tryConnect_def Let_def)
        next
          case (Inr dev)
          obtain tr1 r1 where a: "attempt_device v dev = (tr1, r1)" by force
          then have "tr = tr0 @ tr1" "r = r1"
            using assms f found objs ad Inr by (simp_all add: tryConnect_def Let_def)
          then show ?thesis using a s by blast
        qed
      qed
    qed
  qed
qed

lemma tryConnect_holds:
  assumes "tryConnect v aid name target = (tr, r)"
  shows "holds_after tr {} = (if is_ok r then link_resources else {})"
  using tryConnect_shape [OF assms] attempt_device_holds by (auto simp: scans_hold)

text \<open>A connection that comes out is a new one.\<close>

lemma connect_device_new:
  "connect_device v dev = (tr, Inr c) \<Longrightarrow> \<exists>paths. c = new_connection dev paths (block_length (ge_mtu v))"
  by (auto simp: connect_device_def start_link_def Let_def
      split: option.splits prod.splits sum.splits)

lemma attempt_device_new:
  assumes "attempt_device v dev = (tr, Inr c)"
  shows "\<exists>paths. c = new_connection dev paths (block_length (ge_mtu v))"
proof -
  have "\<exists>tr3. connect_device v dev = (tr3, Inr c)"
    using assms by (auto simp: attempt_device_def split: prod.splits option.splits if_splits)
  then show ?thesis using connect_device_new by blast
qed

lemma tryConnect_new:
  assumes "tryConnect v aid name target = (tr, Inr c)"
  shows "\<exists>dev paths. c = new_connection dev paths (block_length (ge_mtu v))"
  using tryConnect_shape [OF assms]
proof (elim disjE exE conjE)
  fix tr1 dev
  assume "attempt_device v dev = (tr1, Inr c)"
  then show ?thesis using attempt_device_new by blast
qed simp

lemma failed_attempts_hold:
  assumes "\<forall>v \<in> set vs. \<not> is_ok (snd (tryConnect v aid name target))"
  shows "holds_after (concat (map (\<lambda>v. fst (tryConnect v aid name target)) vs)) {} = {}"
  using assms
proof (induction vs)
  case (Cons v vs)
  then show ?case using tryConnect_holds [of v aid name target] by (simp add: prod_eq_iff)
qed simp

text \<open>C13: Connecting leaves nothing behind.  However many attempts have failed before, and at whatever
  call, after an attempt that fails too the link, both match rules and the signal subscription have
  been given back; after one that succeeds exactly these four are held, and closing the connection
  gives all of them back.\<close>

theorem connect_leaves_nothing_behind:
  assumes "\<forall>v \<in> set vs. \<not> is_ok (snd (tryConnect v aid name target))"
  shows "let trace = concat (map (\<lambda>v. fst (tryConnect v aid name target)) vs)
      @ fst (tryConnect v aid name target)
    in case snd (tryConnect v aid name target) of
         Inl e \<Rightarrow> holds_after trace {} = {}
       | Inr c \<Rightarrow> holds_after trace {} = link_resources
           \<and> holds_after (trace @ snd (CloseLink c)) {} = {}"
proof -
  obtain tr r where t: "tryConnect v aid name target = (tr, r)" by force
  show ?thesis
  proof (cases r)
    case (Inl e)
    then show ?thesis using failed_attempts_hold [OF assms] tryConnect_holds [OF t] t by simp
  next
    case (Inr c)
    then have "\<not> cn_closed c"
      using tryConnect_new t by (fastforce simp: new_connection_def split: prod.splits)
    then have close: "snd (CloseLink c) =
        [G_unsubscribe, G_stop_notify, G_disconnect, G_remove_match, G_remove_device_match]"
      by (simp add: CloseLink_def)
    have "link_resources - {R_signals} - {R_link} - {R_match} - {R_device_match} = {}" by blast
    then show ?thesis using failed_attempts_hold [OF assms] tryConnect_holds [OF t] t Inr
      by (simp add: close)
  qed
qed

section \<open>The order of calls\<close>

fun discovering_read :: "gatt_call \<Rightarrow> (watch_error, bool) result list" where
  "discovering_read (G_read_discovering d) = [d]"
| "discovering_read _ = []"

fun connected_read :: "gatt_call \<Rightarrow> (gatt_error, bool) result list" where
  "connected_read (G_read_connected b) = [b]"
| "connected_read _ = []"

definition discovering_reads :: "gatt_call list \<Rightarrow> (watch_error, bool) result list" where
  "discovering_reads tr = concat (map discovering_read tr)"

definition connected_reads :: "gatt_call list \<Rightarrow> (gatt_error, bool) result list" where
  "connected_reads tr = concat (map connected_read tr)"

lemma reads_append [simp]:
  "discovering_reads (xs @ ys) = discovering_reads xs @ discovering_reads ys"
  "connected_reads (xs @ ys) = connected_reads xs @ connected_reads ys"
  by (simp_all add: discovering_reads_def connected_reads_def)

lemma reads_Cons [simp]:
  "discovering_reads (c # xs) = discovering_read c @ discovering_reads xs"
  "connected_reads (c # xs) = connected_read c @ connected_reads xs"
  "discovering_reads [] = []" "connected_reads [] = []"
  by (simp_all add: discovering_reads_def connected_reads_def)

lemma waitDiscoveryStopped_last:
  "waitDiscoveryStopped rs = (tr, None) \<Longrightarrow>
   discovering_reads tr \<noteq> [] \<and> last (discovering_reads tr) = Inr False \<and> connected_reads tr = []"
  by (induction rs arbitrary: tr rule: waitDiscoveryStopped.induct)
    (auto simp: Let_def split: sum.splits bool.splits prod.splits)

lemma waitDeviceDisconnected_last:
  "waitDeviceDisconnected rs = (tr, None) \<Longrightarrow>
   connected_reads tr \<noteq> [] \<and> last (connected_reads tr) = Inr False \<and> discovering_reads tr = []"
  by (induction rs arbitrary: tr rule: waitDeviceDisconnected.induct)
    (auto simp: Let_def split: sum.splits bool.splits prod.splits)

lemma clear_old_link_last:
  assumes "clear_old_link v = (tr, None)"
  shows "connected_reads tr \<noteq> [] \<and> last (connected_reads tr) \<noteq> Inr True \<and> discovering_reads tr = []"
proof (cases "deviceConnected (ge_connected v) = Inr True")
  case True
  then obtain tr2 where "waitDeviceDisconnected (ge_disconnecting v) = (tr2, None)"
      "tr = G_read_connected (Inr True) # G_disconnect # tr2"
    using assms by (auto simp: clear_old_link_def Let_def split: prod.splits)
  then show ?thesis using waitDeviceDisconnected_last by auto
next
  case False
  then show ?thesis using assms by (auto simp: clear_old_link_def Let_def)
qed

lemma connect_device_once:
  assumes "connect_device v dev = (tr, r)"
  shows "\<exists>rest. tr = G_connect # rest \<and> G_connect \<notin> set rest"
  using assms only_reads_connect waits_read(3)
  by (auto simp: connect_device_def start_link_def Let_def
      split: option.splits prod.splits sum.splits)

text \<open>The radio is quiet: discovery was stopped and seen stopped, and no old link is up.\<close>

definition radio_quiet :: "gatt_call list \<Rightarrow> bool" where
  "radio_quiet pre \<longleftrightarrow>
    (\<exists>a b. pre = a @ G_stop_discovery # b \<and> (\<forall>cs. G_scan cs \<notin> set b)
      \<and> discovering_reads b \<noteq> [] \<and> last (discovering_reads b) = Inr False
      \<and> connected_reads b \<noteq> [] \<and> last (connected_reads b) \<noteq> Inr True)"

lemma radio_quiet_append: "radio_quiet pre \<Longrightarrow> radio_quiet (xs @ pre)"
  unfolding radio_quiet_def by (metis append_assoc)

lemma reads_no_scan: "only_reads tr \<Longrightarrow> G_scan cs \<notin> set tr"
  by (auto simp: only_reads_def list_all_iff)

lemma clear_old_link_no_scan: "clear_old_link v = (tr, e) \<Longrightarrow> G_scan cs \<notin> set tr"
  using waits_read(2) reads_no_scan
  by (fastforce simp: clear_old_link_def Let_def split: if_splits prod.splits)

lemma attempt_device_order:
  assumes "attempt_device v dev = (tr, r)"
  shows "G_connect \<notin> set tr
    \<or> (\<exists>pre post. tr = pre @ G_connect # post \<and> G_connect \<notin> set pre \<and> G_connect \<notin> set post
        \<and> radio_quiet pre)"
proof -
  obtain tr1 e1 where w: "waitDiscoveryStopped (ge_discovering v) = (tr1, e1)" by force
  obtain tr2 e2 where o: "clear_old_link v = (tr2, e2)" by force
  obtain tr3 r3 where d: "connect_device v dev = (tr3, r3)" by force
  note none = only_reads_connect [OF waits_read(1) [OF w]] clear_old_link_reads [OF o]
  show ?thesis
  proof (cases "e1 = None \<and> e2 = None \<and> ge_settled v")
    case True
    then have tr: "tr = (G_stop_discovery # tr1 @ tr2) @ tr3"
      using assms w o d by (simp add: attempt_device_def)
    obtain rest where rest: "tr3 = G_connect # rest" "G_connect \<notin> set rest"
      using connect_device_once [OF d] by blast
    have "radio_quiet ([] @ G_stop_discovery # (tr1 @ tr2))"
      unfolding radio_quiet_def
      using True waitDiscoveryStopped_last w clear_old_link_last o reads_no_scan waits_read(1) [OF w]
        clear_old_link_no_scan [OF o]
      by (intro exI [of _ "[]"] exI [of _ "tr1 @ tr2"]) auto
    then show ?thesis using tr rest none
      by (intro disjI2 exI [of _ "G_stop_discovery # tr1 @ tr2"] exI [of _ rest]) auto
  next
    case False
    then show ?thesis using assms w o none
      by (cases e1; cases e2) (auto simp: attempt_device_def)
  qed
qed

text \<open>C14: The phone never asks BlueZ for a connection while the radio is busy with something else.  An
  attempt calls \<^verbatim>\<open>Connect\<close> at most once, and before that it has stopped discovery and has not scanned
  since, the last read of \<^verbatim>\<open>Discovering\<close> said no, and the device was asked whether an old link is up
  and the last answer was not yes.\<close>

theorem connect_waits_for_radio:
  assumes "tryConnect v aid name target = (pre @ G_connect # post, r)"
  shows "G_connect \<notin> set pre \<and> G_connect \<notin> set post \<and> radio_quiet pre"
proof -
  let ?tr = "pre @ G_connect # post"
  have "\<not> only_scans ?tr" by (auto simp: only_scans_def)
  then obtain tr0 dev tr1 where tr: "?tr = tr0 @ tr1" "only_scans tr0" "attempt_device v dev = (tr1, r)"
    using tryConnect_shape [OF assms] by blast
  have n: "G_connect \<notin> set tr0" using tr(2) by (auto simp: only_scans_def)
  moreover have "G_connect \<in> set ?tr" by simp
  ultimately have "G_connect \<in> set tr1" unfolding tr(1) by simp
  then obtain a b where ab: "tr1 = a @ G_connect # b" "G_connect \<notin> set a" "G_connect \<notin> set b"
      "radio_quiet a"
    using attempt_device_order [OF tr(3)] by blast
  have "(tr0 @ a) @ G_connect # b = pre @ G_connect # post" using tr(1) ab(1) by simp
  then have "pre = tr0 @ a \<and> post = b"
    using n ab(2,3) append_Cons_eq_iff [of G_connect "tr0 @ a" b pre post] by simp
  then show ?thesis using n ab radio_quiet_append by auto
qed

section \<open>Messages over a connection\<close>

text \<open>The chunk size of a new connection.\<close>

lemma block_length_bounds: "20 \<le> block_length r \<and> block_length r \<le> 65532"
proof -
  have "unat m - 3 \<le> 65532" for m :: "16 word"
  proof -
    have "unat m < 65536" using unsigned_less [of m] by simp
    then show ?thesis by linarith
  qed
  then show ?thesis
    by (auto simp: block_length_def defaultMTU_def maxExpectedMTU_def split: sum.splits variant.splits)
qed

lemma send_loop_partial:
  "send_loop ws blk out = Some (False, chunks, b) \<Longrightarrow> concat chunks \<noteq> out"
proof (induction ws blk out arbitrary: chunks b rule: send_loop.induct)
  case (3 w ws blk c cs)
  show ?case
  proof (cases w)
    case W_ok
    then obtain l where l: "send_loop ws blk (drop blk (c # cs)) = Some (False, l, b)"
      "chunks = take blk (c # cs) # l"
      using "3.prems" by auto
    then have "concat l \<noteq> drop blk (c # cs)" using "3.IH"(1) [OF W_ok] by blast
    then show ?thesis using l(2) append_take_drop_id [of blk "c # cs"]
      by (metis concat.simps(2) same_append_eq)
  qed (use 3 in \<open>auto split: if_splits\<close>)
qed auto

text \<open>C25: What a new connection sends goes out whole or fails cleanly, at the chunk size the attempt
  read from BlueZ: that size is between 20 and 65532 bytes, a send ends after at most as many writes
  as the message has bytes plus three, no chunk is empty or longer than the chunk size, the chunks in
  order are a prefix of the framed message, the whole of it exactly when the send succeeds, and the
  chunk size kept for the next message is the same or 20.\<close>

theorem connection_sends:
  assumes "tryConnect v aid name target = (tr, Inr c)" and "length m + 3 \<le> length ws"
  shows "\<exists>r chunks b. ble_send ws (cn_block c) m = Some (r, chunks, b)
    \<and> 20 \<le> cn_block c \<and> cn_block c \<le> 65532 \<and> (b = cn_block c \<or> b = 20)
    \<and> prefix (concat chunks) (ble_frame m) \<and> (r \<longleftrightarrow> concat chunks = ble_frame m)
    \<and> (\<forall>k \<in> set chunks. k \<noteq> [] \<and> length k \<le> cn_block c)"
proof -
  let ?blk = "cn_block c"
  obtain dev paths where "c = new_connection dev paths (block_length (ge_mtu v))"
    using tryConnect_new [OF assms(1)] by blast
  then have blk: "20 \<le> ?blk" "?blk \<le> 65532"
    using block_length_bounds by (auto simp: new_connection_def split: prod.splits)
  have "ble_send ws ?blk m \<noteq> None"
    unfolding ble_send_def using assms(2) blk by (intro send_ends) (auto simp: ble_frame_def)
  then obtain r chunks b where s: "send_loop ws ?blk (ble_frame m) = Some (r, chunks, b)"
    by (auto simp: ble_send_def)
  then have "r \<longleftrightarrow> concat chunks = ble_frame m"
    using send_prefix [OF s] send_loop_partial blk by (cases r) auto
  then show ?thesis using send_prefix [OF s] s blk
    by (auto simp: ble_send_def defaultMTU_def)
qed

text \<open>The notifications among the signals of a link, with their times.\<close>

definition notified :: "gatt_conn \<Rightarrow> int \<times> signal \<Rightarrow> (int \<times> string) list" where
  "notified c e =
    (if sg_path (snd e) \<noteq> cn_dev c \<and> sg_path (snd e) = cn_rx c then
       case changed_value gattChrIface ''Value'' (snd e) of
         Some (V_bytes p) \<Rightarrow> [(fst e, p)] | _ \<Rightarrow> []
     else [])"

definition link_receives :: "(int \<times> signal) list \<Rightarrow> gatt_conn \<Rightarrow> gatt_conn" where
  "link_receives evs c = fold (\<lambda>e. rx_turn (Some e)) evs c"

lemma handleSignal_frame [frame_simps]:
  "cn_dev (handleSignal now sg c) = cn_dev c" "cn_rx (handleSignal now sg c) = cn_rx c"
  "cn_closed (handleSignal now sg c) = cn_closed c"
  by (simp_all add: handleSignal_def handleDeviceSignal_def split: option.splits variant.splits bool.splits)

lemma handleSignal_in:
  "cn_in (handleSignal now sg c) = receive (notified c (now, sg)) (cn_in c)"
  by (simp add: handleSignal_def handleDeviceSignal_def notified_def receive_def
      split: option.splits variant.splits bool.splits)

lemma receive_append: "receive (xs @ ys) st = receive ys (receive xs st)"
  by (simp add: receive_def)

lemma link_receives_in:
  "\<not> cn_closed c \<Longrightarrow>
   cn_in (link_receives evs c) = receive (concat (map (notified c) evs)) (cn_in c)"
proof (induction evs arbitrary: c)
  case Nil
  then show ?case by (simp add: link_receives_def receive_def)
next
  case (Cons e evs)
  obtain now sg where e: "e = (now, sg)" by force
  let ?c = "handleSignal now sg c"
  have "notified ?c = notified c" by (simp add: fun_eq_iff notified_def frame_simps)
  moreover have "link_receives (e # evs) c = link_receives evs ?c"
    using Cons.prems by (simp add: link_receives_def rx_turn_def e)
  ultimately show ?case using Cons.IH [of ?c] Cons.prems
    by (simp add: frame_simps handleSignal_in receive_append e)
qed


text \<open>A link counts as dropped exactly when it was, was closed, or its device said so.\<close>

lemma dropped_only_by_device:
  assumes "\<not> cn_closed c" "\<not> cn_dropped c"
  shows "cn_dropped (rx_turn (Some (now, sg)) c) \<longleftrightarrow>
    sg_path sg = cn_dev c \<and> changed_value deviceIface ''Connected'' sg = Some (V_bool False)"
  using assms
  by (auto simp: rx_turn_def handleSignal_def handleDeviceSignal_def
      split: option.splits variant.splits bool.splits)

section \<open>The retry loop on real attempts\<close>

text \<open>The classification reads the text of an error, and BlueZ's text does not hold the error's name.\<close>

lemma not_ready_is_retried:
  "attempt_outcome (Inl (True, G_connect_failed (Bus_error ''org.bluez.Error.NotReady'' ''Resource Not Ready'')))
   = Retry ''bluez: connect to vehicle: Resource Not Ready''"
  "attempt_outcome (Inl (True, G_connect_failed (Bus_error ''org.bluez.Error.NotReady''
      ''org.bluez.Error.NotReady'')))
   = Fatal ''bluez: connect to vehicle: org.bluez.Error.NotReady''"
  by code_simp+

lemma gatt_connect_ends:
  assumes "\<forall>x \<in> set envs. 0 \<le> snd x" "0 \<le> budget"
    and "budget < int (length envs) * CONNECT_RETRY_INITIAL"
  shows "\<exists>r ws. gatt_connect (now + budget) now aid name target envs = Some (r, ws)"
proof -
  let ?xs = "map (\<lambda>(v, d). (attempt_outcome (snd (tryConnect v aid name target)), d)) envs"
  have "\<forall>x \<in> set ?xs. 0 \<le> snd x" using assms(1) by auto
  then show ?thesis unfolding gatt_connect_def
    using connect_loop_bounded [of ?xs now "now + budget" CONNECT_RETRY_INITIAL] assms
      connect_backoff.base_le by fastforce
qed

section \<open>A sample attempt\<close>

definition gatt_tree :: objects where
  "gatt_tree =
    [(''/org/bluez/hci0'', [(''org.bluez.Adapter1'', [(''Powered'', V_bool True)])]),
     (''/org/bluez/hci0/dev_A'', [(''org.bluez.Device1'', [])]),
     (''/s'', [(''org.bluez.GattService1'',
        [(''UUID'', V_string ''00000211-b2d1-43f0-9b88-960cebf8b91e'')])]),
     (''/t'', [(''org.bluez.GattCharacteristic1'',
        [(''UUID'', V_string ''00000212-b2d1-43f0-9b88-960cebf8b91e'')])]),
     (''/r'', [(''org.bluez.GattCharacteristic1'',
        [(''UUID'', V_string ''00000213-B2D1-43F0-9B88-960CEBF8B91E'')])])]"

definition sample_target :: scan_result where
  "sample_target =
    \<lparr>sr_path = ''/org/bluez/hci0/dev_A'', sr_name = ''S'', sr_rssi = - 50, sr_has = True\<rparr>"

text \<open>Discovery and an old link take a moment to end; the services, too.\<close>

definition good_env :: gatt_env where
  "good_env =
    \<lparr>ge_scan_replies = \<lparr>rp_powered = Inr (V_bool True), rp_set_powered = None,
        rp_powered_again = Inr (V_bool True), rp_discovering = Inr (V_bool False), rp_start = None\<rparr>,
     ge_scan_tree = Inr [T_objects gatt_tree], ge_scan_polls = [],
     ge_adapter_tree = Inr [T_objects gatt_tree], ge_device_tree = Inr [T_objects gatt_tree],
     ge_discovering = [Inr (V_bool True), Inr (V_bool False)],
     ge_connected = Inr (V_bool True), ge_disconnecting = [Inr (V_bool False)], ge_settled = True,
     ge_connect = None, ge_resolved = [Inr (V_bool False), Inr (V_bool True)],
     ge_service_tree = Inr [T_objects gatt_tree], ge_match = None, ge_notify = None,
     ge_mtu = Inr (V_uint16 185)\<rparr>"

definition refused_env :: gatt_env where
  "refused_env = good_env\<lparr>ge_connect := Some (Bus_error ''org.bluez.Error.Failed'' ''abort'')\<rparr>"

definition sample_conn :: gatt_conn where
  "sample_conn = new_connection ''/org/bluez/hci0/dev_A'' (''/s'', ''/t'', ''/r'') 182"

definition sample_before :: "gatt_call list" where
  "sample_before =
    [G_stop_discovery, G_read_discovering (Inr True), G_read_discovering (Inr False),
     G_read_connected (Inr True), G_disconnect, G_read_connected (Inr False)]"

definition sample_after :: "gatt_call list" where
  "sample_after =
    [G_read_resolved, G_read_resolved, G_add_match, G_add_device_match, G_subscribe, G_start_notify]"

lemma good_attempt:
  "tryConnect good_env ''hci0'' ''S'' (Some sample_target) =
   (sample_before @ G_connect # sample_after, Inr sample_conn)"
  by code_simp

lemma refused_attempt:
  "\<not> is_ok (snd (tryConnect refused_env ''hci0'' ''S'' (Some sample_target)))"
  by code_simp

theorem connect_leaves_nothing_behind_witness:
  "holds_after (concat (map (\<lambda>v. fst (tryConnect v ''hci0'' ''S'' (Some sample_target)))
       [refused_env, refused_env])
     @ (sample_before @ G_connect # sample_after) @ snd (CloseLink sample_conn)) {} = {}"
proof -
  have "\<forall>v \<in> set [refused_env, refused_env].
      \<not> is_ok (snd (tryConnect v ''hci0'' ''S'' (Some sample_target)))"
    using refused_attempt by simp
  from connect_leaves_nothing_behind [OF this, of good_env] show ?thesis
    by (simp only: good_attempt Let_def fst_conv snd_conv sum.case append_assoc)
qed

theorem connect_waits_for_radio_witness:
  "G_connect \<notin> set sample_before \<and> G_connect \<notin> set sample_after \<and> radio_quiet sample_before"
  by (rule connect_waits_for_radio [OF good_attempt])

theorem connection_sends_witness:
  "\<exists>r chunks b. ble_send (replicate 5 W_ok) (cn_block sample_conn) ''ok'' = Some (r, chunks, b)
     \<and> cn_block sample_conn = 182 \<and> (r \<longleftrightarrow> concat chunks = ble_frame ''ok'')"
proof -
  have "length ''ok'' + 3 \<le> length (replicate 5 W_ok)" by simp
  from connection_sends [OF good_attempt this] show ?thesis
    by (auto simp: sample_conn_def new_connection_def)
qed

definition value_signal :: "string \<Rightarrow> string \<Rightarrow> signal" where
  "value_signal path p =
    \<lparr>sg_name = ''org.freedesktop.DBus.Properties.PropertiesChanged'', sg_path = path,
     sg_body = [B_string ''org.bluez.GattCharacteristic1'', B_props [(''Value'', V_bytes p)], B_other]\<rparr>"


end
